theory Spec2Isabelle
  imports Main "HOL-Library.Word"
begin

unbundle bit_operations_syntax

chapter \<open>POSIX cksum: the CRC-32 engine of cksum.c and its backends\<close>

section \<open>Machine types\<close>

text \<open>
  The sources are written for x86-64 Linux with glibc (\<^verbatim>\<open>x86intrin.h\<close>, \<^verbatim>\<open>endian.h\<close>):
  \<^verbatim>\<open>uint_fast32_t\<close>, \<^verbatim>\<open>uintmax_t\<close> and \<^verbatim>\<open>size_t\<close> are 64-bit words there,
  \<^verbatim>\<open>uint32_t\<close> and \<^verbatim>\<open>unsigned int\<close> are 32-bit words, and the host is little-endian.
  The generator of the table says so itself: \<^verbatim>\<open>crc_remainder\<close> masks its result with
  \<^verbatim>\<open>0xFFFFFFFF\<close> "to make it run on 64-bit machine".
\<close>

type_synonym u8 = "8 word"
type_synonym u32 = "32 word"
type_synonym u64 = "64 word"

section \<open>The table generator (\<^verbatim>\<open>#ifdef CRCTAB\<close> part of cksum.c)\<close>

text \<open>\<^verbatim>\<open>#define BIT(x) ((uint_fast32_t) 1 << (x))\<close>, \<^verbatim>\<open>#define SBIT BIT (31)\<close> and \<^verbatim>\<open>GEN\<close>.\<close>

definition BIT :: "nat \<Rightarrow> u64" where
  "BIT x = push_bit x 1"

definition SBIT :: u64 where
  "SBIT = BIT 31"

definition GEN :: u64 where
  "GEN = (BIT 26 OR BIT 23 OR BIT 22 OR BIT 16 OR BIT 12
          OR BIT 11 OR BIT 10 OR BIT 8 OR BIT 7 OR BIT 5
          OR BIT 4 OR BIT 2 OR BIT 1 OR BIT 0)"

text \<open>
  \<^verbatim>\<open>fill_r\<close>: \<^verbatim>\<open>r[0] = GEN; r[i] = (r[i - 1] << 1) ^ ((r[i - 1] & SBIT) ? GEN : 0)\<close>.
  \<open>fill_r i\<close> is the entry \<^verbatim>\<open>r[i]\<close> of the static array after \<^verbatim>\<open>fill_r ()\<close> has run; the
  array has the entries 0 to 7. The entries are 64-bit values: the bit shifted out of
  position 31 stays in the word.
\<close>

fun fill_r :: "nat \<Rightarrow> u64" where
  "fill_r 0 = GEN"
| "fill_r (Suc i) = push_bit 1 (fill_r i) XOR (if fill_r i AND SBIT \<noteq> 0 then GEN else 0)"

text \<open>
  \<^verbatim>\<open>crc_remainder (int m)\<close>: \<^verbatim>\<open>rem = 0; for (i = 0; i < 8; i++) if (BIT (i) & m) rem ^= r[i];
  return rem & 0xFFFFFFFF;\<close>
\<close>

definition crc_remainder_step :: "u64 \<Rightarrow> u64 \<Rightarrow> nat \<Rightarrow> u64" where
  "crc_remainder_step m rem i = (if BIT i AND m \<noteq> 0 then rem XOR fill_r i else rem)"

definition crc_remainder :: "u64 \<Rightarrow> u64" where
  "crc_remainder m = foldl (crc_remainder_step m) 0 [0, 1, 2, 3, 4, 5, 6, 7] AND 0xFFFFFFFF"

text \<open>
  The two loops of \<^verbatim>\<open>main\<close> that fill \<^verbatim>\<open>crctab[8][256]\<close>. The first sets
  \<^verbatim>\<open>crctab[0][i] = crc_remainder (i)\<close>. The second takes \<^verbatim>\<open>uint32_t crc = 0\<close>, does
  \<^verbatim>\<open>crc = (crc << 8) ^ crctab[0][((crc >> 24) ^ (i & 0xFF)) & 0xFF]\<close> once and then, for
  \<^verbatim>\<open>offset\<close> from 1 to 7, \<^verbatim>\<open>crc = (crc << 8) ^ crctab[0][((crc >> 24) ^ 0x00) & 0xFF];
  crctab[offset][i] = crc\<close>. The assignment to the \<^verbatim>\<open>uint32_t\<close> truncates.
  \<open>crctab k i\<close> is the entry \<^verbatim>\<open>crctab[k][i]\<close> of the table that \<^verbatim>\<open>crctab.c\<close> holds.
\<close>

definition crctab_gen_step :: "u32 \<Rightarrow> u64 \<Rightarrow> u32" where
  "crctab_gen_step crc b =
     ucast ((ucast (push_bit 8 crc :: u32) :: u64)
            XOR crc_remainder ((ucast (drop_bit 24 crc) XOR b) AND 0xFF))"

fun crctab_gen :: "nat \<Rightarrow> u64 \<Rightarrow> u32" where
  "crctab_gen 0 i = crctab_gen_step 0 (i AND 0xFF)"
| "crctab_gen (Suc offset) i = crctab_gen_step (crctab_gen offset i) 0x00"

fun crctab :: "nat \<Rightarrow> nat \<Rightarrow> u64" where
  "crctab 0 i = crc_remainder (of_nat i)"
| "crctab (Suc k) i = ucast (crctab_gen (Suc k) (of_nat i))"

section \<open>Streams\<close>

text \<open>
  A \<^verbatim>\<open>FILE *\<close> that is read sequentially: the bytes not yet read, the end-of-file
  indicator and the error indicator. \<^verbatim>\<open>fread (buf, 1, n, fp)\<close> delivers the next \<open>n\<close>
  bytes, or all that are left when fewer are left; a short read sets the end-of-file
  indicator. The model is a stream whose reads do not fail (the \<^verbatim>\<open>fmemopen\<close> stream of
  the benchmark driver, a regular file); the error indicator is whatever the caller
  passes in.
\<close>

record FILE =
  pending :: "u8 list"
  eof_ind :: bool
  err_ind :: bool

definition fread :: "nat \<Rightarrow> FILE \<Rightarrow> u8 list \<times> FILE" where
  "fread n fp =
     (take n (pending fp),
      fp\<lparr>pending := drop n (pending fp),
         eof_ind := (eof_ind fp \<or> length (pending fp) < n)\<rparr>)"

definition feof :: "FILE \<Rightarrow> bool" where
  "feof fp = eof_ind fp"

definition ferror :: "FILE \<Rightarrow> bool" where
  "ferror fp = err_ind fp"

definition fopen_bytes :: "u8 list \<Rightarrow> FILE" where
  "fopen_bytes bs = \<lparr>pending = bs, eof_ind = False, err_ind = False\<rparr>"

text \<open>
  The failures of the backends and of the driver. \<^verbatim>\<open>INVALID_ARGUMENT\<close> is the return on a
  null pointer, \<^verbatim>\<open>LENGTH_OVERFLOW\<close> is \<^verbatim>\<open>errno = EOVERFLOW\<close> with the failure return,
  \<^verbatim>\<open>IO_ERROR\<close> is the failure return when \<^verbatim>\<open>ferror\<close> holds at the end.
  \<^verbatim>\<open>UNDEFINED_BEHAVIOR\<close> is not a return of the program: it stands for a run in which a
  signed integer has overflowed, a null pointer has been dereferenced or an access has
  left its array, to which the C language gives no meaning.
\<close>

datatype error = INVALID_ARGUMENT | LENGTH_OVERFLOW | IO_ERROR | UNDEFINED_BEHAVIOR

section \<open>The scalar backend \<^verbatim>\<open>cksum_slice8\<close>\<close>

definition BUFLEN :: nat where
  "BUFLEN = 2 ^ 20"

text \<open>
  A \<^verbatim>\<open>uint32_t\<close> read from four consecutive bytes of the buffer on the little-endian
  host, and \<^verbatim>\<open>htobe32\<close>, which swaps the four bytes there.
\<close>

definition load_u32 :: "u8 \<Rightarrow> u8 \<Rightarrow> u8 \<Rightarrow> u8 \<Rightarrow> u32" where
  "load_u32 b0 b1 b2 b3 =
     ucast b0 OR push_bit 8 (ucast b1) OR push_bit 16 (ucast b2) OR push_bit 24 (ucast b3)"

definition htobe32 :: "u32 \<Rightarrow> u32" where
  "htobe32 x =
     push_bit 24 (x AND 0xFF) OR push_bit 8 (x AND 0xFF00)
     OR (drop_bit 8 x AND 0xFF00) OR (drop_bit 24 x AND 0xFF)"

text \<open>
  One round of \<^verbatim>\<open>while (bytes_read >= 8)\<close>: \<^verbatim>\<open>first = *datap++, second = *datap++;
  crc ^= htobe32 (first); second = htobe32 (second);
  crc = crctab[7][(crc >> 24) & 0xFF] ^ ... ^ crctab[0][(second) & 0xFF]\<close>.
  \<^verbatim>\<open>crc\<close> is a \<^verbatim>\<open>uint_fast32_t\<close>.
\<close>

definition slice8_round :: "u64 \<Rightarrow> u32 \<Rightarrow> u32 \<Rightarrow> u64" where
  "slice8_round crc0 first second0 =
     (let crc = crc0 XOR ucast (htobe32 first);
          second = htobe32 second0
      in crctab 7 (unat (drop_bit 24 crc AND 0xFF))
         XOR crctab 6 (unat (drop_bit 16 crc AND 0xFF))
         XOR crctab 5 (unat (drop_bit 8 crc AND 0xFF))
         XOR crctab 4 (unat (crc AND 0xFF))
         XOR crctab 3 (unat (drop_bit 24 second AND 0xFF))
         XOR crctab 2 (unat (drop_bit 16 second AND 0xFF))
         XOR crctab 1 (unat (drop_bit 8 second AND 0xFF))
         XOR crctab 0 (unat (second AND 0xFF)))"

text \<open>
  The byte rule on a \<^verbatim>\<open>uint_fast32_t\<close>:
  \<^verbatim>\<open>crc = (crc << 8) ^ crctab[0][((crc >> 24) ^ *cp++) & 0xFF]\<close>. The same expression,
  with \<^verbatim>\<open>total_bytes\<close> in the place of the byte, folds the length in \<^verbatim>\<open>crc_sum_stream\<close>,
  so the operand is a 64-bit word here.
\<close>

definition crc_byte_rule :: "u64 \<Rightarrow> u64 \<Rightarrow> u64" where
  "crc_byte_rule crc b =
     push_bit 8 crc XOR crctab 0 (unat ((drop_bit 24 crc XOR b) AND 0xFF))"

text \<open>
  The two inner loops over one buffer: eight bytes at a time while at least eight are
  left, then \<^verbatim>\<open>while (bytes_read--)\<close> over the last 0 to 7 bytes.
\<close>

fun slice8_block :: "u64 \<Rightarrow> u8 list \<Rightarrow> u64" where
  "slice8_block crc (b0 # b1 # b2 # b3 # b4 # b5 # b6 # b7 # rest) =
     slice8_block (slice8_round crc (load_u32 b0 b1 b2 b3) (load_u32 b4 b5 b6 b7)) rest"
| "slice8_block crc cp = foldl (\<lambda>crc b. crc_byte_rule crc (ucast b)) crc cp"

text \<open>
  The outer loop \<^verbatim>\<open>while ((bytes_read = fread (buf, 1, BUFLEN, fp)) > 0)\<close> with the
  overflow check on \<^verbatim>\<open>length\<close> and the \<^verbatim>\<open>if (feof (fp)) break\<close> at its end. The state
  of the loop is the stream, \<^verbatim>\<open>crc\<close> and \<^verbatim>\<open>length\<close>.
\<close>

function slice8_loop :: "FILE \<Rightarrow> u64 \<Rightarrow> u64 \<Rightarrow> error + (u64 \<times> u64 \<times> FILE)" where
  "slice8_loop fp crc len =
     (let buf = fst (fread BUFLEN fp);
          fp' = snd (fread BUFLEN fp);
          bytes_read = (of_nat (length buf) :: u64)
      in if \<not> 0 < bytes_read then Inr (crc, len, fp')
         else if len + bytes_read < len then Inl LENGTH_OVERFLOW
         else if feof fp' then Inr (slice8_block crc buf, len + bytes_read, fp')
         else slice8_loop fp' (slice8_block crc buf) (len + bytes_read))"
  by pat_completeness auto
termination
  apply (relation "measure (\<lambda>(fp, crc, len). length (pending fp))")
   apply simp
  apply (case_tac "pending fp"; simp add: fread_def BUFLEN_def)
  done

declare slice8_loop.simps [simp del]

text \<open>
  \<^verbatim>\<open>cksum_slice8 (fp, crc_out, length_out)\<close>. A null \<^verbatim>\<open>fp\<close> is \<open>None\<close>; the two result
  pointers are the pair that is returned, written only when the function returns true.
\<close>

definition cksum_slice8 :: "FILE option \<Rightarrow> error + (u64 \<times> u64)" where
  "cksum_slice8 fpo =
     (case fpo of
        None \<Rightarrow> Inl INVALID_ARGUMENT
      | Some fp \<Rightarrow>
          (case slice8_loop fp 0 0 of
             Inl e \<Rightarrow> Inl e
           | Inr (crc, len, fp') \<Rightarrow>
               if ferror fp' then Inl IO_ERROR else Inr (crc, len)))"

section \<open>The driver \<^verbatim>\<open>crc_sum_stream\<close>\<close>

text \<open>
  The capability probes. Each is compiled in under its \<^verbatim>\<open>USE_..._CRC32\<close> macro and asks
  \<^verbatim>\<open>__builtin_cpu_supports\<close> (or \<^verbatim>\<open>getauxval\<close>) for the features listed; the platform
  record holds the macros and the features.
\<close>

record platform =
  USE_PCLMUL_CRC32 :: bool
  GL_CRC_X86_64_PCLMUL :: bool
  USE_AVX2_CRC32 :: bool
  USE_AVX512_CRC32 :: bool
  USE_VMULL_CRC32 :: bool
  cpu_pclmul :: bool
  cpu_avx :: bool
  cpu_avx2 :: bool
  cpu_vpclmulqdq :: bool
  cpu_avx512bw :: bool
  cpu_avx512f :: bool
  hwcap_pmull :: bool

definition pclmul_supported :: "platform \<Rightarrow> bool" where
  "pclmul_supported p =
     (if USE_PCLMUL_CRC32 p \<or> GL_CRC_X86_64_PCLMUL p then cpu_pclmul p \<and> cpu_avx p else False)"

definition avx2_supported :: "platform \<Rightarrow> bool" where
  "avx2_supported p =
     (if USE_AVX2_CRC32 p then cpu_vpclmulqdq p \<and> cpu_avx2 p else False)"

definition avx512_supported :: "platform \<Rightarrow> bool" where
  "avx512_supported p =
     (if USE_AVX512_CRC32 p then cpu_vpclmulqdq p \<and> cpu_avx512bw p \<and> cpu_avx512f p
      else False)"

definition vmull_supported :: "platform \<Rightarrow> bool" where
  "vmull_supported p = (if USE_VMULL_CRC32 p then hwcap_pmull p else False)"

text \<open>
  The functions a \<^verbatim>\<open>bool (*cksum_fp) (FILE *, uint_fast32_t *, uintmax_t *)\<close> can point
  to: the backends that \<^verbatim>\<open>cksum.h\<close> declares.
\<close>

datatype backend = CKSUM_AVX512 | CKSUM_AVX2 | CKSUM_PCLMUL | CKSUM_VMULL | CKSUM_SLICE8

text \<open>
  The selection at the head of \<^verbatim>\<open>crc_sum_stream\<close>. The static \<^verbatim>\<open>cksum_fp\<close> is null
  (\<open>None\<close>) before the first call. The chain
  \<^verbatim>\<open>if (avx512_supported ()) ... else if (vmull_supported ()) ...\<close> is commented out in
  the source; what is left is \<^verbatim>\<open>if (! cksum_fp) { cksum_fp = cksum_slice8; }\<close>.
\<close>

definition select_cksum_fp :: "backend option \<Rightarrow> backend" where
  "select_cksum_fp cksum_fp =
     (case cksum_fp of None \<Rightarrow> CKSUM_SLICE8 | Some f \<Rightarrow> f)"

text \<open>
  The length fold \<^verbatim>\<open>for (; total_bytes; total_bytes >>= 8)
  crc = (crc << 8) ^ crctab[0][((crc >> 24) ^ total_bytes) & 0xFF];\<close>
\<close>

function length_fold :: "u64 \<Rightarrow> u64 \<Rightarrow> u64" where
  "length_fold crc total_bytes =
     (if total_bytes = 0 then crc
      else length_fold (crc_byte_rule crc total_bytes) (drop_bit 8 total_bytes))"
  by pat_completeness auto
termination
  apply (relation "measure (\<lambda>(crc, total_bytes). unat total_bytes)")
   apply simp
  apply (simp add: drop_bit_eq_div unat_div unat_gt_0)
  done

declare length_fold.simps [simp del]

text \<open>
  \<^verbatim>\<open>crc_sum_stream (stream, resstream, length)\<close>. The first argument stands for the
  backends that live in other translation units; \<^verbatim>\<open>cksum_slice8\<close> is the one of this
  file. The static \<^verbatim>\<open>cksum_fp\<close> is passed in and returned. The result is what is written
  to \<^verbatim>\<open>resstream\<close> (an \<^verbatim>\<open>unsigned int\<close>) and to \<^verbatim>\<open>*length\<close>; a failing backend
  makes the function return \<^verbatim>\<open>-1\<close> before anything is written.
\<close>

definition call_cksum_fp ::
  "(backend \<Rightarrow> FILE option \<Rightarrow> error + (u64 \<times> u64)) \<Rightarrow> backend \<Rightarrow> FILE option
     \<Rightarrow> error + (u64 \<times> u64)" where
  "call_cksum_fp extern_backends f stream =
     (if f = CKSUM_SLICE8 then cksum_slice8 stream else extern_backends f stream)"

definition crc_sum_stream ::
  "(backend \<Rightarrow> FILE option \<Rightarrow> error + (u64 \<times> u64)) \<Rightarrow> backend option \<Rightarrow> FILE option
     \<Rightarrow> (error + (u32 \<times> u64)) \<times> backend option" where
  "crc_sum_stream extern_backends cksum_fp stream =
     (let f = select_cksum_fp cksum_fp
      in (case call_cksum_fp extern_backends f stream of
            Inl e \<Rightarrow> (Inl e, Some f)
          | Inr (crc, total_bytes) \<Rightarrow>
              (Inr (ucast (NOT (length_fold crc total_bytes) AND 0xFFFFFFFF), total_bytes),
               Some f)))"

section \<open>Vectors and the folding constants of the SIMD backends\<close>

text \<open>
  An \<^verbatim>\<open>__m128i\<close> is a 128-bit word. An \<^verbatim>\<open>__m256i\<close> or \<^verbatim>\<open>__m512i\<close> is the list of its two or
  four 128-bit lanes, the least significant lane first: the intrinsics that the backends
  use on them (\<^verbatim>\<open>shuffle_epi8\<close>, \<^verbatim>\<open>clmulepi64_epi128\<close>, \<^verbatim>\<open>xor\<close>) work on every 128-bit lane
  on its own. \<^verbatim>\<open>_mm_set_epi64x (e1, e0)\<close> has \<^verbatim>\<open>e0\<close> in the low 64 bits;
  \<^verbatim>\<open>_mm256_set_epi64x (e3, e2, e1, e0)\<close> and \<^verbatim>\<open>_mm512_set_epi64 (e7, ..., e0)\<close> likewise, with
  the last argument in the lowest position.
\<close>

type_synonym m128i = "128 word"
type_synonym m256i = "128 word list"
type_synonym m512i = "128 word list"

definition mm_set_epi64x :: "u64 \<Rightarrow> u64 \<Rightarrow> m128i" where
  "mm_set_epi64x e1 e0 = push_bit 64 (ucast e1) OR ucast e0"

definition mm256_set_epi64x :: "u64 \<Rightarrow> u64 \<Rightarrow> u64 \<Rightarrow> u64 \<Rightarrow> m256i" where
  "mm256_set_epi64x e3 e2 e1 e0 = [mm_set_epi64x e1 e0, mm_set_epi64x e3 e2]"

definition mm512_set_epi64 ::
  "u64 \<Rightarrow> u64 \<Rightarrow> u64 \<Rightarrow> u64 \<Rightarrow> u64 \<Rightarrow> u64 \<Rightarrow> u64 \<Rightarrow> u64 \<Rightarrow> m512i" where
  "mm512_set_epi64 e7 e6 e5 e4 e3 e2 e1 e0 =
     [mm_set_epi64x e1 e0, mm_set_epi64x e3 e2, mm_set_epi64x e5 e4, mm_set_epi64x e7 e6]"

text \<open>The constants of \<^verbatim>\<open>cksum_pclmul\<close> (cksum_pclmul.c).\<close>

definition pclmul_single_mult_constant :: m128i where
  "pclmul_single_mult_constant = mm_set_epi64x 0xC5B9CD4C 0xE8A45605"

definition pclmul_four_mult_constant :: m128i where
  "pclmul_four_mult_constant = mm_set_epi64x 0x8833794C 0xE6228B11"

definition pclmul_five_mult_constant :: m128i where
  "pclmul_five_mult_constant = mm_set_epi64x 0xE2CA9D03 0xF91A84E2"

text \<open>The constants of \<^verbatim>\<open>cksum_avx2\<close> (cksum_avx2.c).\<close>

definition avx2_single_mult_constant :: m256i where
  "avx2_single_mult_constant = mm256_set_epi64x 0x569700E5 0x75BE46B7 0x569700E5 0x75BE46B7"

definition avx2_four_mult_constant :: m256i where
  "avx2_four_mult_constant = mm256_set_epi64x 0x10BD4D7C 0x567FDDEB 0x10BD4D7C 0x567FDDEB"

definition avx2_twelve_mult_constant :: m256i where
  "avx2_twelve_mult_constant = mm256_set_epi64x 0x1D97B060 0x3CD4B4ED 0x1D97B060 0x3CD4B4ED"

text \<open>The constants of \<^verbatim>\<open>cksum_avx512\<close>.\<close>

definition avx512_single_mult_constant :: m512i where
  "avx512_single_mult_constant =
     mm512_set_epi64 0x8833794C 0xE6228B11 0x8833794C 0xE6228B11
                     0x8833794C 0xE6228B11 0x8833794C 0xE6228B11"

definition avx512_four_mult_constant :: m512i where
  "avx512_four_mult_constant =
     mm512_set_epi64 0xCBCF3BCB 0x88FE2237 0xCBCF3BCB 0x88FE2237
                     0xCBCF3BCB 0x88FE2237 0xCBCF3BCB 0x88FE2237"

definition avx512_twelve_mult_constant :: m512i where
  "avx512_twelve_mult_constant =
     mm512_set_epi64 0x9DEF026A 0x413686A0 0x9DEF026A 0x413686A0
                     0x9DEF026A 0x413686A0 0x9DEF026A 0x413686A0"

section \<open>The vector intrinsics of \<^verbatim>\<open>cksum_pclmul\<close>\<close>

text \<open>
  Byte \<open>i\<close> of a vector is its bits \<open>8 i\<close> to \<open>8 i + 7\<close>. On the little-endian host a vector
  that is loaded from memory has the byte at the lowest address as its byte 0.
\<close>

definition vec_byte :: "'a::len word \<Rightarrow> nat \<Rightarrow> u8" where
  "vec_byte v i = ucast (drop_bit (8 * i) v)"

definition vec_of_bytes :: "u8 list \<Rightarrow> 'a::len word" where
  "vec_of_bytes bs = foldr (\<lambda>b w. push_bit 8 w OR ucast b) bs 0"

definition vec_bytes :: "nat \<Rightarrow> 'a::len word \<Rightarrow> u8 list" where
  "vec_bytes n v = map (vec_byte v) [0..<n]"

text \<open>
  The \<^verbatim>\<open>set\<close> intrinsics take their arguments from the most significant element down to
  the least significant one. The byte arguments of \<^verbatim>\<open>_mm_set_epi8\<close> are given as a list in
  the order of the call.
\<close>

definition set_epi32 :: "u32 list \<Rightarrow> 'a::len word" where
  "set_epi32 es = foldl (\<lambda>w e. push_bit 32 w OR ucast e) 0 es"

definition mm_set_epi32 :: "u32 \<Rightarrow> u32 \<Rightarrow> u32 \<Rightarrow> u32 \<Rightarrow> m128i" where
  "mm_set_epi32 e3 e2 e1 e0 = set_epi32 [e3, e2, e1, e0]"

definition mm_set_epi8 :: "u8 list \<Rightarrow> m128i" where
  "mm_set_epi8 es = vec_of_bytes (rev es)"

text \<open>
  \<^verbatim>\<open>_mm_shuffle_epi8 (a, b)\<close>: byte \<open>i\<close> of the result is 0 when bit 7 of byte \<open>i\<close> of \<open>b\<close> is
  set, and the byte of \<open>a\<close> that the low four bits of that byte select otherwise.
\<close>

definition mm_shuffle_epi8 :: "m128i \<Rightarrow> m128i \<Rightarrow> m128i" where
  "mm_shuffle_epi8 a b =
     vec_of_bytes
       (map (\<lambda>i. if bit (vec_byte b i) 7 then 0 else vec_byte a (unat (vec_byte b i AND 0x0F)))
          [0..<16])"

text \<open>
  \<^verbatim>\<open>_mm_clmulepi64_si128 (a, b, imm)\<close>: the carry-less product of two 64-bit halves, the
  high half of \<open>a\<close> when bit 0 of \<open>imm\<close> is set and the high half of \<open>b\<close> when bit 4 is.
\<close>

definition clmul64 :: "u64 \<Rightarrow> u64 \<Rightarrow> m128i" where
  "clmul64 x y =
     foldl (\<lambda>acc i. if bit x i then acc XOR push_bit i (ucast y) else acc) 0 [0..<64]"

definition mm_clmulepi64_si128 :: "m128i \<Rightarrow> m128i \<Rightarrow> 8 word \<Rightarrow> m128i" where
  "mm_clmulepi64_si128 a b imm =
     clmul64 (if bit imm 0 then ucast (drop_bit 64 a) else ucast a)
             (if bit imm 4 then ucast (drop_bit 64 b) else ucast b)"

definition mm_xor_si128 :: "m128i \<Rightarrow> m128i \<Rightarrow> m128i" where
  "mm_xor_si128 a b = a XOR b"

text \<open>
  The buffer of a backend is a map from byte offsets (from the start of \<^verbatim>\<open>buf\<close>) to
  bytes. A load reads 16 bytes from a byte offset, a store writes them.
\<close>

definition load_bytes :: "(nat \<Rightarrow> u8) \<Rightarrow> nat \<Rightarrow> nat \<Rightarrow> u8 list" where
  "load_bytes mem a n = map (\<lambda>i. mem (a + i)) [0..<n]"

definition store_bytes :: "(nat \<Rightarrow> u8) \<Rightarrow> nat \<Rightarrow> u8 list \<Rightarrow> nat \<Rightarrow> u8" where
  "store_bytes mem a bs = (\<lambda>x. if a \<le> x \<and> x < a + length bs then bs ! (x - a) else mem x)"

definition mm_loadu_si128 :: "(nat \<Rightarrow> u8) \<Rightarrow> nat \<Rightarrow> m128i" where
  "mm_loadu_si128 mem a = vec_of_bytes (load_bytes mem a 16)"

definition mm_storeu_si128 :: "(nat \<Rightarrow> u8) \<Rightarrow> nat \<Rightarrow> m128i \<Rightarrow> nat \<Rightarrow> u8" where
  "mm_storeu_si128 mem a v = store_bytes mem a (vec_bytes 16 v)"

text \<open>
  The local variables of a SIMD backend, with the names of the source behind the prefix
  \<open>v_\<close>. \<open>v_buf\<close> is the contents of the array \<^verbatim>\<open>buf\<close> and of the memory behind it,
  \<open>v_fp\<close> the stream, \<open>v_cp\<close> the byte offset of the pointer \<^verbatim>\<open>cp\<close> of the last loop.
  \<open>v_ub\<close> is not a variable of the source: it records that an access has left the array
  or that the \<^verbatim>\<open>int data_offset\<close> has overflowed, from where on the C program has no
  defined behaviour. The record is the one of the three vector backends, whose variables
  have the same names; \<^verbatim>\<open>cksum_pclmul\<close> has only \<^verbatim>\<open>chorba1\<close> to \<^verbatim>\<open>chorba4\<close>.
\<close>

record 'v simd_vars =
  v_buf :: "nat \<Rightarrow> u8"
  v_fp :: FILE
  v_next_buf :: nat
  v_crc :: u64
  v_length :: u64
  v_bytes_read :: u64
  v_batch_size_read :: u64
  v_data_available :: bool
  v_data_offset :: nat
  v_data :: 'v
  v_data2 :: 'v
  v_data3 :: 'v
  v_data4 :: 'v
  v_data5 :: 'v
  v_data6 :: 'v
  v_data7 :: 'v
  v_data8 :: 'v
  v_fold_data :: 'v
  v_xor_crc :: 'v
  v_chorba1 :: 'v
  v_chorba2 :: 'v
  v_chorba3 :: 'v
  v_chorba4 :: 'v
  v_chorba5 :: 'v
  v_chorba6 :: 'v
  v_chorba7 :: 'v
  v_chorba8 :: 'v
  v_cp :: nat
  v_ub :: bool

definition INT_MAX :: nat where
  "INT_MAX = 2 ^ 31 - 1"

text \<open>
  A block of statements maps the variables to the variables, or ends the function with
  a failure. \<open>ok\<close> is a block that cannot fail, \<open>err_seq\<close> runs blocks one after the other.
\<close>

definition ok :: "('s \<Rightarrow> 's) \<Rightarrow> 's \<Rightarrow> error + 's" where
  "ok f s = Inr (f s)"

fun err_seq :: "('s \<Rightarrow> error + 's) list \<Rightarrow> 's \<Rightarrow> error + 's" where
  "err_seq [] s = Inr s"
| "err_seq (f # fs) s = (case f s of Inl e \<Rightarrow> Inl e | Inr s' \<Rightarrow> err_seq fs s')"

section \<open>The backend \<^verbatim>\<open>cksum_pclmul\<close> (cksum_pclmul.c)\<close>

text \<open>
  \<^verbatim>\<open>#define BUFLEN (1 << 16)\<close> and \<^verbatim>\<open>#define BUFLEN_WORDS (BUFLEN / sizeof (__m128i))\<close>;
  \<^verbatim>\<open>buf\<close> is an array of \<^verbatim>\<open>BUFLEN_WORDS\<close> vectors. The constant that reverses the 16 bytes
  of a vector is \<^verbatim>\<open>_mm_set_epi8 (0, 1, ..., 15)\<close>; the three folding constants are
  \<open>pclmul_single_mult_constant\<close>, \<open>pclmul_four_mult_constant\<close> and
  \<open>pclmul_five_mult_constant\<close> above.
\<close>

definition pclmul_BUFLEN :: nat where
  "pclmul_BUFLEN = 2 ^ 16"

definition pclmul_BUFLEN_WORDS :: nat where
  "pclmul_BUFLEN_WORDS = pclmul_BUFLEN div 16"

definition pclmul_shuffle_constant :: m128i where
  "pclmul_shuffle_constant = mm_set_epi8 [0, 1, 2, 3, 4, 5, 6, 7, 8, 9, 10, 11, 12, 13, 14, 15]"

text \<open>
  The function is given statement by statement. A run of assignments is one definition,
  named after the lines of cksum_pclmul.c that it covers, with one binding for each
  statement; the pointer \<^verbatim>\<open>datap\<close> is \<^verbatim>\<open>buf\<close>, so
  \<^verbatim>\<open>datap + (data_offset % BUFLEN_WORDS) + k\<close> is the byte offset
  \<open>16 * (v_data_offset s mod pclmul_BUFLEN_WORDS + k)\<close>. An \<^verbatim>\<open>if\<close> and a \<^verbatim>\<open>while\<close> are named
  after the line they start on. \<^verbatim>\<open>if (length + n < length) { errno = EOVERFLOW; return
  false; }\<close> is the failure \<open>LENGTH_OVERFLOW\<close>. The lemmas between the definitions give what
  a run of assignments does to the counters; the termination proofs of the loops use them.
\<close>

lemma unat_add_of_nat_le:
  fixes a :: u64
  shows "unat (a + of_nat n) \<le> unat a + n"
proof -
  have "unat (a + of_nat n) = (unat a + n mod 2 ^ 64) mod 2 ^ 64"
    by (simp add: unat_word_ariths unat_of_nat)
  also have "\<dots> \<le> unat a + n mod 2 ^ 64"
    by (rule mod_less_eq_dividend)
  also have "\<dots> \<le> unat a + n"
    by simp
  finally show ?thesis .
qed

lemma word_sub_decreases:
  fixes w :: u64
  assumes "n \<le> w" "k \<le> n" "0 < k"
  shows "unat (w - k) < unat w"
proof -
  have "k \<le> w" using assms by simp
  then have "unat (w - k) = unat w - unat k" by (rule unat_sub)
  moreover have "0 < unat k" using assms(3) by (simp add: unat_gt_0)
  moreover have "unat k \<le> unat w" using \<open>k \<le> w\<close> by (simp add: word_le_nat_alt)
  ultimately show ?thesis by simp
qed

text \<open>Lines 40 to 73 of the source.\<close>

definition cksum_pclmul_L40_L73 :: "m128i simd_vars \<Rightarrow> m128i simd_vars" where
  "cksum_pclmul_L40_L73 s0 =
     (let s = s0;
          s = s\<lparr>v_next_buf := 0\<rparr>;
          s = s\<lparr>v_crc := 0\<rparr>;
          s = s\<lparr>v_length := 0\<rparr>;
          s = s\<lparr>v_data_available := True\<rparr>;
          s = s\<lparr>v_bytes_read := of_nat (length (fst (fread (pclmul_BUFLEN div 2) (v_fp s)))),
              v_buf := store_bytes (v_buf s) (0) (fst (fread (pclmul_BUFLEN div 2) (v_fp s))),
              v_fp := snd (fread (pclmul_BUFLEN div 2) (v_fp s)),
              v_ub := v_ub s \<or> 16 * pclmul_BUFLEN_WORDS < 0 + (pclmul_BUFLEN div 2)\<rparr>;
          s = s\<lparr>v_bytes_read := v_bytes_read s + of_nat (length (fst (fread (pclmul_BUFLEN div 2) (v_fp s)))),
              v_buf := store_bytes (v_buf s) (16 * (pclmul_BUFLEN_WORDS div 2)) (fst (fread (pclmul_BUFLEN div 2) (v_fp s))),
              v_fp := snd (fread (pclmul_BUFLEN div 2) (v_fp s)),
              v_ub := v_ub s \<or> 16 * pclmul_BUFLEN_WORDS < 16 * (pclmul_BUFLEN_WORDS div 2) + (pclmul_BUFLEN div 2)\<rparr>
      in s)"

text \<open>Lines 77 to 91 of the source.\<close>

definition cksum_pclmul_L77_L91 :: "m128i simd_vars \<Rightarrow> m128i simd_vars" where
  "cksum_pclmul_L77_L91 s0 =
     (let s = s0;
          s = s\<lparr>v_data_offset := 0\<rparr>;
          s = s\<lparr>v_chorba1 := mm_set_epi64x 0 0\<rparr>;
          s = s\<lparr>v_chorba2 := mm_set_epi64x 0 0\<rparr>;
          s = s\<lparr>v_chorba3 := mm_set_epi64x 0 0\<rparr>;
          s = s\<lparr>v_chorba4 := mm_set_epi64x 0 0\<rparr>
      in s)"

lemma cksum_pclmul_L77_L91_scalars [simp]:
  "v_bytes_read (cksum_pclmul_L77_L91 s) = v_bytes_read s"
  "v_fp (cksum_pclmul_L77_L91 s) = v_fp s"
  "v_length (cksum_pclmul_L77_L91 s) = v_length s"
  "v_data_available (cksum_pclmul_L77_L91 s) = v_data_available s"
  "v_next_buf (cksum_pclmul_L77_L91 s) = v_next_buf s"
  by (simp_all add: cksum_pclmul_L77_L91_def Let_def)

text \<open>Line 98 of the source.\<close>

definition cksum_pclmul_L98_L98 :: "m128i simd_vars \<Rightarrow> m128i simd_vars" where
  "cksum_pclmul_L98_L98 s0 =
     (let s = s0;
          s = s\<lparr>v_length := v_length s + v_bytes_read s\<rparr>
      in s)"

text \<open>Lines 105 to 120 of the source.\<close>

definition cksum_pclmul_L105_L120 :: "m128i simd_vars \<Rightarrow> m128i simd_vars" where
  "cksum_pclmul_L105_L120 s0 =
     (let s = s0;
          s = s\<lparr>v_data := mm_loadu_si128 (v_buf s) (16 * (v_data_offset s mod pclmul_BUFLEN_WORDS)),
              v_ub := v_ub s \<or> pclmul_BUFLEN_WORDS < v_data_offset s mod pclmul_BUFLEN_WORDS + 1\<rparr>;
          s = s\<lparr>v_data := mm_shuffle_epi8 (v_data s) pclmul_shuffle_constant\<rparr>;
          s = s\<lparr>v_xor_crc := mm_set_epi32 (ucast (v_crc s)) 0 0 0\<rparr>;
          s = s\<lparr>v_crc := 0\<rparr>;
          s = s\<lparr>v_data := mm_xor_si128 (v_data s) (v_xor_crc s)\<rparr>;
          s = s\<lparr>v_data3 := mm_loadu_si128 (v_buf s) (16 * (v_data_offset s mod pclmul_BUFLEN_WORDS + 1)),
              v_ub := v_ub s \<or> pclmul_BUFLEN_WORDS < v_data_offset s mod pclmul_BUFLEN_WORDS + 1 + 1\<rparr>;
          s = s\<lparr>v_data3 := mm_shuffle_epi8 (v_data3 s) pclmul_shuffle_constant\<rparr>;
          s = s\<lparr>v_data5 := mm_loadu_si128 (v_buf s) (16 * (v_data_offset s mod pclmul_BUFLEN_WORDS + 2)),
              v_ub := v_ub s \<or> pclmul_BUFLEN_WORDS < v_data_offset s mod pclmul_BUFLEN_WORDS + 2 + 1\<rparr>;
          s = s\<lparr>v_data5 := mm_shuffle_epi8 (v_data5 s) pclmul_shuffle_constant\<rparr>;
          s = s\<lparr>v_data7 := mm_loadu_si128 (v_buf s) (16 * (v_data_offset s mod pclmul_BUFLEN_WORDS + 3)),
              v_ub := v_ub s \<or> pclmul_BUFLEN_WORDS < v_data_offset s mod pclmul_BUFLEN_WORDS + 3 + 1\<rparr>;
          s = s\<lparr>v_data7 := mm_shuffle_epi8 (v_data7 s) pclmul_shuffle_constant\<rparr>
      in s)"

lemma cksum_pclmul_L105_L120_scalars [simp]:
  "v_bytes_read (cksum_pclmul_L105_L120 s) = v_bytes_read s"
  "v_fp (cksum_pclmul_L105_L120 s) = v_fp s"
  "v_length (cksum_pclmul_L105_L120 s) = v_length s"
  "v_data_available (cksum_pclmul_L105_L120 s) = v_data_available s"
  "v_next_buf (cksum_pclmul_L105_L120 s) = v_next_buf s"
  by (simp_all add: cksum_pclmul_L105_L120_def Let_def)

text \<open>Lines 127 to 163 of the source.\<close>

definition cksum_pclmul_L127_L163 :: "m128i simd_vars \<Rightarrow> m128i simd_vars" where
  "cksum_pclmul_L127_L163 s0 =
     (let s = s0;
          s = s\<lparr>v_data_offset := v_data_offset s + 4, v_ub := v_ub s \<or> INT_MAX < v_data_offset s + 4\<rparr>;
          s = s\<lparr>v_chorba1 := mm_loadu_si128 (v_buf s) (16 * (v_data_offset s mod pclmul_BUFLEN_WORDS + 4)),
              v_ub := v_ub s \<or> pclmul_BUFLEN_WORDS < v_data_offset s mod pclmul_BUFLEN_WORDS + 4 + 1\<rparr>;
          s = s\<lparr>v_chorba1 := mm_shuffle_epi8 (v_chorba1 s) pclmul_shuffle_constant XOR v_chorba2 s XOR v_chorba4 s\<rparr>;
          s = s\<lparr>v_bytes_read := v_bytes_read s - 16\<rparr>;
          s = s\<lparr>v_data_offset := v_data_offset s + 1, v_ub := v_ub s \<or> INT_MAX < v_data_offset s + 1\<rparr>;
          s = s\<lparr>v_data2 := mm_clmulepi64_si128 (v_data s) pclmul_five_mult_constant 0x00\<rparr>;
          s = s\<lparr>v_data := mm_clmulepi64_si128 (v_data s) pclmul_five_mult_constant 0x11\<rparr>;
          s = s\<lparr>v_data4 := mm_clmulepi64_si128 (v_data3 s) pclmul_five_mult_constant 0x00\<rparr>;
          s = s\<lparr>v_data3 := mm_clmulepi64_si128 (v_data3 s) pclmul_five_mult_constant 0x11\<rparr>;
          s = s\<lparr>v_data6 := mm_clmulepi64_si128 (v_data5 s) pclmul_five_mult_constant 0x00\<rparr>;
          s = s\<lparr>v_data5 := mm_clmulepi64_si128 (v_data5 s) pclmul_five_mult_constant 0x11\<rparr>;
          s = s\<lparr>v_data8 := mm_clmulepi64_si128 (v_data7 s) pclmul_five_mult_constant 0x00\<rparr>;
          s = s\<lparr>v_data7 := mm_clmulepi64_si128 (v_data7 s) pclmul_five_mult_constant 0x11\<rparr>;
          s = s\<lparr>v_data := mm_xor_si128 (v_data s) (v_data2 s)\<rparr>;
          s = s\<lparr>v_data2 := mm_loadu_si128 (v_buf s) (16 * (v_data_offset s mod pclmul_BUFLEN_WORDS)),
              v_ub := v_ub s \<or> pclmul_BUFLEN_WORDS < v_data_offset s mod pclmul_BUFLEN_WORDS + 1\<rparr>;
          s = s\<lparr>v_data2 := mm_shuffle_epi8 (v_data2 s) pclmul_shuffle_constant XOR v_chorba2 s XOR v_chorba4 s\<rparr>;
          s = s\<lparr>v_data := mm_xor_si128 (v_data s) (v_data2 s)\<rparr>;
          s = s\<lparr>v_data3 := mm_xor_si128 (v_data3 s) (v_data4 s)\<rparr>;
          s = s\<lparr>v_data4 := mm_loadu_si128 (v_buf s) (16 * (v_data_offset s mod pclmul_BUFLEN_WORDS + 1)),
              v_ub := v_ub s \<or> pclmul_BUFLEN_WORDS < v_data_offset s mod pclmul_BUFLEN_WORDS + 1 + 1\<rparr>;
          s = s\<lparr>v_data4 := mm_shuffle_epi8 (v_data4 s) pclmul_shuffle_constant XOR v_chorba3 s\<rparr>;
          s = s\<lparr>v_data3 := mm_xor_si128 (v_data3 s) (v_data4 s)\<rparr>;
          s = s\<lparr>v_data5 := mm_xor_si128 (v_data5 s) (v_data6 s)\<rparr>;
          s = s\<lparr>v_data6 := mm_loadu_si128 (v_buf s) (16 * (v_data_offset s mod pclmul_BUFLEN_WORDS + 2)),
              v_ub := v_ub s \<or> pclmul_BUFLEN_WORDS < v_data_offset s mod pclmul_BUFLEN_WORDS + 2 + 1\<rparr>;
          s = s\<lparr>v_data6 := mm_shuffle_epi8 (v_data6 s) pclmul_shuffle_constant XOR v_chorba2 s XOR v_chorba3 s\<rparr>;
          s = s\<lparr>v_data5 := mm_xor_si128 (v_data5 s) (v_data6 s)\<rparr>;
          s = s\<lparr>v_data7 := mm_xor_si128 (v_data7 s) (v_data8 s)\<rparr>;
          s = s\<lparr>v_data8 := mm_loadu_si128 (v_buf s) (16 * (v_data_offset s mod pclmul_BUFLEN_WORDS + 3)),
              v_ub := v_ub s \<or> pclmul_BUFLEN_WORDS < v_data_offset s mod pclmul_BUFLEN_WORDS + 3 + 1\<rparr>;
          s = s\<lparr>v_data8 := mm_shuffle_epi8 (v_data8 s) pclmul_shuffle_constant XOR v_chorba2 s XOR v_chorba3 s\<rparr>;
          s = s\<lparr>v_data7 := mm_xor_si128 (v_data7 s) (v_data8 s)\<rparr>;
          s = s\<lparr>v_bytes_read := v_bytes_read s - (16 * 4)\<rparr>
      in s)"

lemma cksum_pclmul_L127_L163_scalars [simp]:
  "v_bytes_read (cksum_pclmul_L127_L163 s) = v_bytes_read s - 80"
  "v_fp (cksum_pclmul_L127_L163 s) = v_fp s"
  "v_length (cksum_pclmul_L127_L163 s) = v_length s"
  "v_data_available (cksum_pclmul_L127_L163 s) = v_data_available s"
  "v_next_buf (cksum_pclmul_L127_L163 s) = v_next_buf s"
  by (simp_all add: cksum_pclmul_L127_L163_def Let_def)

text \<open>Lines 165 to 196 of the source.\<close>

definition cksum_pclmul_L165_L196 :: "m128i simd_vars \<Rightarrow> m128i simd_vars" where
  "cksum_pclmul_L165_L196 s0 =
     (let s = s0;
          s = s\<lparr>v_data_offset := v_data_offset s + 4, v_ub := v_ub s \<or> INT_MAX < v_data_offset s + 4\<rparr>;
          s = s\<lparr>v_data2 := mm_clmulepi64_si128 (v_data s) pclmul_five_mult_constant 0x00\<rparr>;
          s = s\<lparr>v_data := mm_clmulepi64_si128 (v_data s) pclmul_five_mult_constant 0x11\<rparr>;
          s = s\<lparr>v_data4 := mm_clmulepi64_si128 (v_data3 s) pclmul_five_mult_constant 0x00\<rparr>;
          s = s\<lparr>v_data3 := mm_clmulepi64_si128 (v_data3 s) pclmul_five_mult_constant 0x11\<rparr>;
          s = s\<lparr>v_data6 := mm_clmulepi64_si128 (v_data5 s) pclmul_five_mult_constant 0x00\<rparr>;
          s = s\<lparr>v_data5 := mm_clmulepi64_si128 (v_data5 s) pclmul_five_mult_constant 0x11\<rparr>;
          s = s\<lparr>v_data8 := mm_clmulepi64_si128 (v_data7 s) pclmul_five_mult_constant 0x00\<rparr>;
          s = s\<lparr>v_data7 := mm_clmulepi64_si128 (v_data7 s) pclmul_five_mult_constant 0x11\<rparr>;
          s = s\<lparr>v_data := mm_xor_si128 (v_data s) (v_data2 s)\<rparr>;
          s = s\<lparr>v_data2 := mm_loadu_si128 (v_buf s) (16 * (v_data_offset s mod pclmul_BUFLEN_WORDS)),
              v_ub := v_ub s \<or> pclmul_BUFLEN_WORDS < v_data_offset s mod pclmul_BUFLEN_WORDS + 1\<rparr>;
          s = s\<lparr>v_data2 := mm_shuffle_epi8 (v_data2 s) pclmul_shuffle_constant XOR v_chorba2 s\<rparr>;
          s = s\<lparr>v_data := mm_xor_si128 (v_data s) (v_data2 s)\<rparr>;
          s = s\<lparr>v_data3 := mm_xor_si128 (v_data3 s) (v_data4 s)\<rparr>;
          s = s\<lparr>v_data4 := mm_loadu_si128 (v_buf s) (16 * (v_data_offset s mod pclmul_BUFLEN_WORDS + 1)),
              v_ub := v_ub s \<or> pclmul_BUFLEN_WORDS < v_data_offset s mod pclmul_BUFLEN_WORDS + 1 + 1\<rparr>;
          s = s\<lparr>v_data4 := mm_shuffle_epi8 (v_data4 s) pclmul_shuffle_constant XOR v_chorba1 s XOR v_chorba3 s\<rparr>;
          s = s\<lparr>v_data3 := mm_xor_si128 (v_data3 s) (v_data4 s)\<rparr>;
          s = s\<lparr>v_data5 := mm_xor_si128 (v_data5 s) (v_data6 s)\<rparr>;
          s = s\<lparr>v_data6 := mm_loadu_si128 (v_buf s) (16 * (v_data_offset s mod pclmul_BUFLEN_WORDS + 2)),
              v_ub := v_ub s \<or> pclmul_BUFLEN_WORDS < v_data_offset s mod pclmul_BUFLEN_WORDS + 2 + 1\<rparr>;
          s = s\<lparr>v_data6 := mm_shuffle_epi8 (v_data6 s) pclmul_shuffle_constant XOR v_chorba3 s XOR v_chorba4 s\<rparr>;
          s = s\<lparr>v_data5 := mm_xor_si128 (v_data5 s) (v_data6 s)\<rparr>;
          s = s\<lparr>v_data7 := mm_xor_si128 (v_data7 s) (v_data8 s)\<rparr>;
          s = s\<lparr>v_data8 := mm_loadu_si128 (v_buf s) (16 * (v_data_offset s mod pclmul_BUFLEN_WORDS + 3)),
              v_ub := v_ub s \<or> pclmul_BUFLEN_WORDS < v_data_offset s mod pclmul_BUFLEN_WORDS + 3 + 1\<rparr>;
          s = s\<lparr>v_data8 := mm_shuffle_epi8 (v_data8 s) pclmul_shuffle_constant\<rparr>;
          s = s\<lparr>v_data7 := mm_xor_si128 (v_data7 s) (v_data8 s)\<rparr>;
          s = s\<lparr>v_bytes_read := v_bytes_read s - (16 * 4)\<rparr>
      in s)"

lemma cksum_pclmul_L165_L196_scalars [simp]:
  "v_bytes_read (cksum_pclmul_L165_L196 s) = v_bytes_read s - 64"
  "v_fp (cksum_pclmul_L165_L196 s) = v_fp s"
  "v_length (cksum_pclmul_L165_L196 s) = v_length s"
  "v_data_available (cksum_pclmul_L165_L196 s) = v_data_available s"
  "v_next_buf (cksum_pclmul_L165_L196 s) = v_next_buf s"
  by (simp_all add: cksum_pclmul_L165_L196_def Let_def)

text \<open>Lines 198 to 234 of the source.\<close>

definition cksum_pclmul_L198_L234 :: "m128i simd_vars \<Rightarrow> m128i simd_vars" where
  "cksum_pclmul_L198_L234 s0 =
     (let s = s0;
          s = s\<lparr>v_data_offset := v_data_offset s + 4, v_ub := v_ub s \<or> INT_MAX < v_data_offset s + 4\<rparr>;
          s = s\<lparr>v_chorba2 := mm_loadu_si128 (v_buf s) (16 * (v_data_offset s mod pclmul_BUFLEN_WORDS + 4)),
              v_ub := v_ub s \<or> pclmul_BUFLEN_WORDS < v_data_offset s mod pclmul_BUFLEN_WORDS + 4 + 1\<rparr>;
          s = s\<lparr>v_chorba2 := mm_shuffle_epi8 (v_chorba2 s) pclmul_shuffle_constant XOR v_chorba3 s XOR v_chorba1 s\<rparr>;
          s = s\<lparr>v_bytes_read := v_bytes_read s - 16\<rparr>;
          s = s\<lparr>v_data_offset := v_data_offset s + 1, v_ub := v_ub s \<or> INT_MAX < v_data_offset s + 1\<rparr>;
          s = s\<lparr>v_data2 := mm_clmulepi64_si128 (v_data s) pclmul_five_mult_constant 0x00\<rparr>;
          s = s\<lparr>v_data := mm_clmulepi64_si128 (v_data s) pclmul_five_mult_constant 0x11\<rparr>;
          s = s\<lparr>v_data4 := mm_clmulepi64_si128 (v_data3 s) pclmul_five_mult_constant 0x00\<rparr>;
          s = s\<lparr>v_data3 := mm_clmulepi64_si128 (v_data3 s) pclmul_five_mult_constant 0x11\<rparr>;
          s = s\<lparr>v_data6 := mm_clmulepi64_si128 (v_data5 s) pclmul_five_mult_constant 0x00\<rparr>;
          s = s\<lparr>v_data5 := mm_clmulepi64_si128 (v_data5 s) pclmul_five_mult_constant 0x11\<rparr>;
          s = s\<lparr>v_data8 := mm_clmulepi64_si128 (v_data7 s) pclmul_five_mult_constant 0x00\<rparr>;
          s = s\<lparr>v_data7 := mm_clmulepi64_si128 (v_data7 s) pclmul_five_mult_constant 0x11\<rparr>;
          s = s\<lparr>v_data := mm_xor_si128 (v_data s) (v_data2 s)\<rparr>;
          s = s\<lparr>v_data2 := mm_loadu_si128 (v_buf s) (16 * (v_data_offset s mod pclmul_BUFLEN_WORDS)),
              v_ub := v_ub s \<or> pclmul_BUFLEN_WORDS < v_data_offset s mod pclmul_BUFLEN_WORDS + 1\<rparr>;
          s = s\<lparr>v_data2 := mm_shuffle_epi8 (v_data2 s) pclmul_shuffle_constant XOR v_chorba3 s XOR v_chorba1 s\<rparr>;
          s = s\<lparr>v_data := mm_xor_si128 (v_data s) (v_data2 s)\<rparr>;
          s = s\<lparr>v_data3 := mm_xor_si128 (v_data3 s) (v_data4 s)\<rparr>;
          s = s\<lparr>v_data4 := mm_loadu_si128 (v_buf s) (16 * (v_data_offset s mod pclmul_BUFLEN_WORDS + 1)),
              v_ub := v_ub s \<or> pclmul_BUFLEN_WORDS < v_data_offset s mod pclmul_BUFLEN_WORDS + 1 + 1\<rparr>;
          s = s\<lparr>v_data4 := mm_shuffle_epi8 (v_data4 s) pclmul_shuffle_constant XOR v_chorba4 s\<rparr>;
          s = s\<lparr>v_data3 := mm_xor_si128 (v_data3 s) (v_data4 s)\<rparr>;
          s = s\<lparr>v_data5 := mm_xor_si128 (v_data5 s) (v_data6 s)\<rparr>;
          s = s\<lparr>v_data6 := mm_loadu_si128 (v_buf s) (16 * (v_data_offset s mod pclmul_BUFLEN_WORDS + 2)),
              v_ub := v_ub s \<or> pclmul_BUFLEN_WORDS < v_data_offset s mod pclmul_BUFLEN_WORDS + 2 + 1\<rparr>;
          s = s\<lparr>v_data6 := mm_shuffle_epi8 (v_data6 s) pclmul_shuffle_constant XOR v_chorba3 s XOR v_chorba4 s\<rparr>;
          s = s\<lparr>v_data5 := mm_xor_si128 (v_data5 s) (v_data6 s)\<rparr>;
          s = s\<lparr>v_data7 := mm_xor_si128 (v_data7 s) (v_data8 s)\<rparr>;
          s = s\<lparr>v_data8 := mm_loadu_si128 (v_buf s) (16 * (v_data_offset s mod pclmul_BUFLEN_WORDS + 3)),
              v_ub := v_ub s \<or> pclmul_BUFLEN_WORDS < v_data_offset s mod pclmul_BUFLEN_WORDS + 3 + 1\<rparr>;
          s = s\<lparr>v_data8 := mm_shuffle_epi8 (v_data8 s) pclmul_shuffle_constant XOR v_chorba3 s XOR v_chorba4 s\<rparr>;
          s = s\<lparr>v_data7 := mm_xor_si128 (v_data7 s) (v_data8 s)\<rparr>;
          s = s\<lparr>v_bytes_read := v_bytes_read s - (16 * 4)\<rparr>
      in s)"

lemma cksum_pclmul_L198_L234_scalars [simp]:
  "v_bytes_read (cksum_pclmul_L198_L234 s) = v_bytes_read s - 80"
  "v_fp (cksum_pclmul_L198_L234 s) = v_fp s"
  "v_length (cksum_pclmul_L198_L234 s) = v_length s"
  "v_data_available (cksum_pclmul_L198_L234 s) = v_data_available s"
  "v_next_buf (cksum_pclmul_L198_L234 s) = v_next_buf s"
  by (simp_all add: cksum_pclmul_L198_L234_def Let_def)

text \<open>Lines 236 to 267 of the source.\<close>

definition cksum_pclmul_L236_L267 :: "m128i simd_vars \<Rightarrow> m128i simd_vars" where
  "cksum_pclmul_L236_L267 s0 =
     (let s = s0;
          s = s\<lparr>v_data_offset := v_data_offset s + 4, v_ub := v_ub s \<or> INT_MAX < v_data_offset s + 4\<rparr>;
          s = s\<lparr>v_data2 := mm_clmulepi64_si128 (v_data s) pclmul_five_mult_constant 0x00\<rparr>;
          s = s\<lparr>v_data := mm_clmulepi64_si128 (v_data s) pclmul_five_mult_constant 0x11\<rparr>;
          s = s\<lparr>v_data4 := mm_clmulepi64_si128 (v_data3 s) pclmul_five_mult_constant 0x00\<rparr>;
          s = s\<lparr>v_data3 := mm_clmulepi64_si128 (v_data3 s) pclmul_five_mult_constant 0x11\<rparr>;
          s = s\<lparr>v_data6 := mm_clmulepi64_si128 (v_data5 s) pclmul_five_mult_constant 0x00\<rparr>;
          s = s\<lparr>v_data5 := mm_clmulepi64_si128 (v_data5 s) pclmul_five_mult_constant 0x11\<rparr>;
          s = s\<lparr>v_data8 := mm_clmulepi64_si128 (v_data7 s) pclmul_five_mult_constant 0x00\<rparr>;
          s = s\<lparr>v_data7 := mm_clmulepi64_si128 (v_data7 s) pclmul_five_mult_constant 0x11\<rparr>;
          s = s\<lparr>v_data := mm_xor_si128 (v_data s) (v_data2 s)\<rparr>;
          s = s\<lparr>v_data2 := mm_loadu_si128 (v_buf s) (16 * (v_data_offset s mod pclmul_BUFLEN_WORDS)),
              v_ub := v_ub s \<or> pclmul_BUFLEN_WORDS < v_data_offset s mod pclmul_BUFLEN_WORDS + 1\<rparr>;
          s = s\<lparr>v_data2 := mm_shuffle_epi8 (v_data2 s) pclmul_shuffle_constant XOR v_chorba3 s\<rparr>;
          s = s\<lparr>v_data := mm_xor_si128 (v_data s) (v_data2 s)\<rparr>;
          s = s\<lparr>v_data3 := mm_xor_si128 (v_data3 s) (v_data4 s)\<rparr>;
          s = s\<lparr>v_data4 := mm_loadu_si128 (v_buf s) (16 * (v_data_offset s mod pclmul_BUFLEN_WORDS + 1)),
              v_ub := v_ub s \<or> pclmul_BUFLEN_WORDS < v_data_offset s mod pclmul_BUFLEN_WORDS + 1 + 1\<rparr>;
          s = s\<lparr>v_data4 := mm_shuffle_epi8 (v_data4 s) pclmul_shuffle_constant XOR v_chorba2 s XOR v_chorba4 s\<rparr>;
          s = s\<lparr>v_data3 := mm_xor_si128 (v_data3 s) (v_data4 s)\<rparr>;
          s = s\<lparr>v_data5 := mm_xor_si128 (v_data5 s) (v_data6 s)\<rparr>;
          s = s\<lparr>v_data6 := mm_loadu_si128 (v_buf s) (16 * (v_data_offset s mod pclmul_BUFLEN_WORDS + 2)),
              v_ub := v_ub s \<or> pclmul_BUFLEN_WORDS < v_data_offset s mod pclmul_BUFLEN_WORDS + 2 + 1\<rparr>;
          s = s\<lparr>v_data6 := mm_shuffle_epi8 (v_data6 s) pclmul_shuffle_constant XOR v_chorba4 s XOR v_chorba1 s\<rparr>;
          s = s\<lparr>v_data5 := mm_xor_si128 (v_data5 s) (v_data6 s)\<rparr>;
          s = s\<lparr>v_data7 := mm_xor_si128 (v_data7 s) (v_data8 s)\<rparr>;
          s = s\<lparr>v_data8 := mm_loadu_si128 (v_buf s) (16 * (v_data_offset s mod pclmul_BUFLEN_WORDS + 3)),
              v_ub := v_ub s \<or> pclmul_BUFLEN_WORDS < v_data_offset s mod pclmul_BUFLEN_WORDS + 3 + 1\<rparr>;
          s = s\<lparr>v_data8 := mm_shuffle_epi8 (v_data8 s) pclmul_shuffle_constant\<rparr>;
          s = s\<lparr>v_data7 := mm_xor_si128 (v_data7 s) (v_data8 s)\<rparr>;
          s = s\<lparr>v_bytes_read := v_bytes_read s - (16 * 4)\<rparr>
      in s)"

lemma cksum_pclmul_L236_L267_scalars [simp]:
  "v_bytes_read (cksum_pclmul_L236_L267 s) = v_bytes_read s - 64"
  "v_fp (cksum_pclmul_L236_L267 s) = v_fp s"
  "v_length (cksum_pclmul_L236_L267 s) = v_length s"
  "v_data_available (cksum_pclmul_L236_L267 s) = v_data_available s"
  "v_next_buf (cksum_pclmul_L236_L267 s) = v_next_buf s"
  by (simp_all add: cksum_pclmul_L236_L267_def Let_def)

text \<open>Lines 269 to 305 of the source.\<close>

definition cksum_pclmul_L269_L305 :: "m128i simd_vars \<Rightarrow> m128i simd_vars" where
  "cksum_pclmul_L269_L305 s0 =
     (let s = s0;
          s = s\<lparr>v_data_offset := v_data_offset s + 4, v_ub := v_ub s \<or> INT_MAX < v_data_offset s + 4\<rparr>;
          s = s\<lparr>v_chorba3 := mm_loadu_si128 (v_buf s) (16 * (v_data_offset s mod pclmul_BUFLEN_WORDS + 4)),
              v_ub := v_ub s \<or> pclmul_BUFLEN_WORDS < v_data_offset s mod pclmul_BUFLEN_WORDS + 4 + 1\<rparr>;
          s = s\<lparr>v_chorba3 := mm_shuffle_epi8 (v_chorba3 s) pclmul_shuffle_constant XOR v_chorba4 s XOR v_chorba2 s\<rparr>;
          s = s\<lparr>v_bytes_read := v_bytes_read s - 16\<rparr>;
          s = s\<lparr>v_data_offset := v_data_offset s + 1, v_ub := v_ub s \<or> INT_MAX < v_data_offset s + 1\<rparr>;
          s = s\<lparr>v_data2 := mm_clmulepi64_si128 (v_data s) pclmul_five_mult_constant 0x00\<rparr>;
          s = s\<lparr>v_data := mm_clmulepi64_si128 (v_data s) pclmul_five_mult_constant 0x11\<rparr>;
          s = s\<lparr>v_data4 := mm_clmulepi64_si128 (v_data3 s) pclmul_five_mult_constant 0x00\<rparr>;
          s = s\<lparr>v_data3 := mm_clmulepi64_si128 (v_data3 s) pclmul_five_mult_constant 0x11\<rparr>;
          s = s\<lparr>v_data6 := mm_clmulepi64_si128 (v_data5 s) pclmul_five_mult_constant 0x00\<rparr>;
          s = s\<lparr>v_data5 := mm_clmulepi64_si128 (v_data5 s) pclmul_five_mult_constant 0x11\<rparr>;
          s = s\<lparr>v_data8 := mm_clmulepi64_si128 (v_data7 s) pclmul_five_mult_constant 0x00\<rparr>;
          s = s\<lparr>v_data7 := mm_clmulepi64_si128 (v_data7 s) pclmul_five_mult_constant 0x11\<rparr>;
          s = s\<lparr>v_data := mm_xor_si128 (v_data s) (v_data2 s)\<rparr>;
          s = s\<lparr>v_data2 := mm_loadu_si128 (v_buf s) (16 * (v_data_offset s mod pclmul_BUFLEN_WORDS)),
              v_ub := v_ub s \<or> pclmul_BUFLEN_WORDS < v_data_offset s mod pclmul_BUFLEN_WORDS + 1\<rparr>;
          s = s\<lparr>v_data2 := mm_shuffle_epi8 (v_data2 s) pclmul_shuffle_constant XOR v_chorba4 s XOR v_chorba2 s\<rparr>;
          s = s\<lparr>v_data := mm_xor_si128 (v_data s) (v_data2 s)\<rparr>;
          s = s\<lparr>v_data3 := mm_xor_si128 (v_data3 s) (v_data4 s)\<rparr>;
          s = s\<lparr>v_data4 := mm_loadu_si128 (v_buf s) (16 * (v_data_offset s mod pclmul_BUFLEN_WORDS + 1)),
              v_ub := v_ub s \<or> pclmul_BUFLEN_WORDS < v_data_offset s mod pclmul_BUFLEN_WORDS + 1 + 1\<rparr>;
          s = s\<lparr>v_data4 := mm_shuffle_epi8 (v_data4 s) pclmul_shuffle_constant XOR v_chorba1 s\<rparr>;
          s = s\<lparr>v_data3 := mm_xor_si128 (v_data3 s) (v_data4 s)\<rparr>;
          s = s\<lparr>v_data5 := mm_xor_si128 (v_data5 s) (v_data6 s)\<rparr>;
          s = s\<lparr>v_data6 := mm_loadu_si128 (v_buf s) (16 * (v_data_offset s mod pclmul_BUFLEN_WORDS + 2)),
              v_ub := v_ub s \<or> pclmul_BUFLEN_WORDS < v_data_offset s mod pclmul_BUFLEN_WORDS + 2 + 1\<rparr>;
          s = s\<lparr>v_data6 := mm_shuffle_epi8 (v_data6 s) pclmul_shuffle_constant XOR v_chorba4 s XOR v_chorba1 s\<rparr>;
          s = s\<lparr>v_data5 := mm_xor_si128 (v_data5 s) (v_data6 s)\<rparr>;
          s = s\<lparr>v_data7 := mm_xor_si128 (v_data7 s) (v_data8 s)\<rparr>;
          s = s\<lparr>v_data8 := mm_loadu_si128 (v_buf s) (16 * (v_data_offset s mod pclmul_BUFLEN_WORDS + 3)),
              v_ub := v_ub s \<or> pclmul_BUFLEN_WORDS < v_data_offset s mod pclmul_BUFLEN_WORDS + 3 + 1\<rparr>;
          s = s\<lparr>v_data8 := mm_shuffle_epi8 (v_data8 s) pclmul_shuffle_constant XOR v_chorba4 s XOR v_chorba1 s\<rparr>;
          s = s\<lparr>v_data7 := mm_xor_si128 (v_data7 s) (v_data8 s)\<rparr>;
          s = s\<lparr>v_bytes_read := v_bytes_read s - (16 * 4)\<rparr>
      in s)"

lemma cksum_pclmul_L269_L305_scalars [simp]:
  "v_bytes_read (cksum_pclmul_L269_L305 s) = v_bytes_read s - 80"
  "v_fp (cksum_pclmul_L269_L305 s) = v_fp s"
  "v_length (cksum_pclmul_L269_L305 s) = v_length s"
  "v_data_available (cksum_pclmul_L269_L305 s) = v_data_available s"
  "v_next_buf (cksum_pclmul_L269_L305 s) = v_next_buf s"
  by (simp_all add: cksum_pclmul_L269_L305_def Let_def)

text \<open>Lines 307 to 338 of the source.\<close>

definition cksum_pclmul_L307_L338 :: "m128i simd_vars \<Rightarrow> m128i simd_vars" where
  "cksum_pclmul_L307_L338 s0 =
     (let s = s0;
          s = s\<lparr>v_data_offset := v_data_offset s + 4, v_ub := v_ub s \<or> INT_MAX < v_data_offset s + 4\<rparr>;
          s = s\<lparr>v_data2 := mm_clmulepi64_si128 (v_data s) pclmul_five_mult_constant 0x00\<rparr>;
          s = s\<lparr>v_data := mm_clmulepi64_si128 (v_data s) pclmul_five_mult_constant 0x11\<rparr>;
          s = s\<lparr>v_data4 := mm_clmulepi64_si128 (v_data3 s) pclmul_five_mult_constant 0x00\<rparr>;
          s = s\<lparr>v_data3 := mm_clmulepi64_si128 (v_data3 s) pclmul_five_mult_constant 0x11\<rparr>;
          s = s\<lparr>v_data6 := mm_clmulepi64_si128 (v_data5 s) pclmul_five_mult_constant 0x00\<rparr>;
          s = s\<lparr>v_data5 := mm_clmulepi64_si128 (v_data5 s) pclmul_five_mult_constant 0x11\<rparr>;
          s = s\<lparr>v_data8 := mm_clmulepi64_si128 (v_data7 s) pclmul_five_mult_constant 0x00\<rparr>;
          s = s\<lparr>v_data7 := mm_clmulepi64_si128 (v_data7 s) pclmul_five_mult_constant 0x11\<rparr>;
          s = s\<lparr>v_data := mm_xor_si128 (v_data s) (v_data2 s)\<rparr>;
          s = s\<lparr>v_data2 := mm_loadu_si128 (v_buf s) (16 * (v_data_offset s mod pclmul_BUFLEN_WORDS)),
              v_ub := v_ub s \<or> pclmul_BUFLEN_WORDS < v_data_offset s mod pclmul_BUFLEN_WORDS + 1\<rparr>;
          s = s\<lparr>v_data2 := mm_shuffle_epi8 (v_data2 s) pclmul_shuffle_constant XOR v_chorba4 s\<rparr>;
          s = s\<lparr>v_data := mm_xor_si128 (v_data s) (v_data2 s)\<rparr>;
          s = s\<lparr>v_data3 := mm_xor_si128 (v_data3 s) (v_data4 s)\<rparr>;
          s = s\<lparr>v_data4 := mm_loadu_si128 (v_buf s) (16 * (v_data_offset s mod pclmul_BUFLEN_WORDS + 1)),
              v_ub := v_ub s \<or> pclmul_BUFLEN_WORDS < v_data_offset s mod pclmul_BUFLEN_WORDS + 1 + 1\<rparr>;
          s = s\<lparr>v_data4 := mm_shuffle_epi8 (v_data4 s) pclmul_shuffle_constant XOR v_chorba3 s XOR v_chorba1 s\<rparr>;
          s = s\<lparr>v_data3 := mm_xor_si128 (v_data3 s) (v_data4 s)\<rparr>;
          s = s\<lparr>v_data5 := mm_xor_si128 (v_data5 s) (v_data6 s)\<rparr>;
          s = s\<lparr>v_data6 := mm_loadu_si128 (v_buf s) (16 * (v_data_offset s mod pclmul_BUFLEN_WORDS + 2)),
              v_ub := v_ub s \<or> pclmul_BUFLEN_WORDS < v_data_offset s mod pclmul_BUFLEN_WORDS + 2 + 1\<rparr>;
          s = s\<lparr>v_data6 := mm_shuffle_epi8 (v_data6 s) pclmul_shuffle_constant XOR v_chorba1 s XOR v_chorba2 s\<rparr>;
          s = s\<lparr>v_data5 := mm_xor_si128 (v_data5 s) (v_data6 s)\<rparr>;
          s = s\<lparr>v_data7 := mm_xor_si128 (v_data7 s) (v_data8 s)\<rparr>;
          s = s\<lparr>v_data8 := mm_loadu_si128 (v_buf s) (16 * (v_data_offset s mod pclmul_BUFLEN_WORDS + 3)),
              v_ub := v_ub s \<or> pclmul_BUFLEN_WORDS < v_data_offset s mod pclmul_BUFLEN_WORDS + 3 + 1\<rparr>;
          s = s\<lparr>v_data8 := mm_shuffle_epi8 (v_data8 s) pclmul_shuffle_constant\<rparr>;
          s = s\<lparr>v_data7 := mm_xor_si128 (v_data7 s) (v_data8 s)\<rparr>;
          s = s\<lparr>v_bytes_read := v_bytes_read s - (16 * 4)\<rparr>
      in s)"

lemma cksum_pclmul_L307_L338_scalars [simp]:
  "v_bytes_read (cksum_pclmul_L307_L338 s) = v_bytes_read s - 64"
  "v_fp (cksum_pclmul_L307_L338 s) = v_fp s"
  "v_length (cksum_pclmul_L307_L338 s) = v_length s"
  "v_data_available (cksum_pclmul_L307_L338 s) = v_data_available s"
  "v_next_buf (cksum_pclmul_L307_L338 s) = v_next_buf s"
  by (simp_all add: cksum_pclmul_L307_L338_def Let_def)

text \<open>Lines 340 to 376 of the source.\<close>

definition cksum_pclmul_L340_L376 :: "m128i simd_vars \<Rightarrow> m128i simd_vars" where
  "cksum_pclmul_L340_L376 s0 =
     (let s = s0;
          s = s\<lparr>v_data_offset := v_data_offset s + 4, v_ub := v_ub s \<or> INT_MAX < v_data_offset s + 4\<rparr>;
          s = s\<lparr>v_chorba4 := mm_loadu_si128 (v_buf s) (16 * (v_data_offset s mod pclmul_BUFLEN_WORDS + 4)),
              v_ub := v_ub s \<or> pclmul_BUFLEN_WORDS < v_data_offset s mod pclmul_BUFLEN_WORDS + 4 + 1\<rparr>;
          s = s\<lparr>v_chorba4 := mm_shuffle_epi8 (v_chorba4 s) pclmul_shuffle_constant XOR v_chorba1 s XOR v_chorba3 s\<rparr>;
          s = s\<lparr>v_bytes_read := v_bytes_read s - 16\<rparr>;
          s = s\<lparr>v_data_offset := v_data_offset s + 1, v_ub := v_ub s \<or> INT_MAX < v_data_offset s + 1\<rparr>;
          s = s\<lparr>v_data2 := mm_clmulepi64_si128 (v_data s) pclmul_five_mult_constant 0x00\<rparr>;
          s = s\<lparr>v_data := mm_clmulepi64_si128 (v_data s) pclmul_five_mult_constant 0x11\<rparr>;
          s = s\<lparr>v_data4 := mm_clmulepi64_si128 (v_data3 s) pclmul_five_mult_constant 0x00\<rparr>;
          s = s\<lparr>v_data3 := mm_clmulepi64_si128 (v_data3 s) pclmul_five_mult_constant 0x11\<rparr>;
          s = s\<lparr>v_data6 := mm_clmulepi64_si128 (v_data5 s) pclmul_five_mult_constant 0x00\<rparr>;
          s = s\<lparr>v_data5 := mm_clmulepi64_si128 (v_data5 s) pclmul_five_mult_constant 0x11\<rparr>;
          s = s\<lparr>v_data8 := mm_clmulepi64_si128 (v_data7 s) pclmul_five_mult_constant 0x00\<rparr>;
          s = s\<lparr>v_data7 := mm_clmulepi64_si128 (v_data7 s) pclmul_five_mult_constant 0x11\<rparr>;
          s = s\<lparr>v_data := mm_xor_si128 (v_data s) (v_data2 s)\<rparr>;
          s = s\<lparr>v_data2 := mm_loadu_si128 (v_buf s) (16 * (v_data_offset s mod pclmul_BUFLEN_WORDS)),
              v_ub := v_ub s \<or> pclmul_BUFLEN_WORDS < v_data_offset s mod pclmul_BUFLEN_WORDS + 1\<rparr>;
          s = s\<lparr>v_data2 := mm_shuffle_epi8 (v_data2 s) pclmul_shuffle_constant XOR v_chorba1 s XOR v_chorba3 s\<rparr>;
          s = s\<lparr>v_data := mm_xor_si128 (v_data s) (v_data2 s)\<rparr>;
          s = s\<lparr>v_data3 := mm_xor_si128 (v_data3 s) (v_data4 s)\<rparr>;
          s = s\<lparr>v_data4 := mm_loadu_si128 (v_buf s) (16 * (v_data_offset s mod pclmul_BUFLEN_WORDS + 1)),
              v_ub := v_ub s \<or> pclmul_BUFLEN_WORDS < v_data_offset s mod pclmul_BUFLEN_WORDS + 1 + 1\<rparr>;
          s = s\<lparr>v_data4 := mm_shuffle_epi8 (v_data4 s) pclmul_shuffle_constant XOR v_chorba2 s\<rparr>;
          s = s\<lparr>v_data3 := mm_xor_si128 (v_data3 s) (v_data4 s)\<rparr>;
          s = s\<lparr>v_data5 := mm_xor_si128 (v_data5 s) (v_data6 s)\<rparr>;
          s = s\<lparr>v_data6 := mm_loadu_si128 (v_buf s) (16 * (v_data_offset s mod pclmul_BUFLEN_WORDS + 2)),
              v_ub := v_ub s \<or> pclmul_BUFLEN_WORDS < v_data_offset s mod pclmul_BUFLEN_WORDS + 2 + 1\<rparr>;
          s = s\<lparr>v_data6 := mm_shuffle_epi8 (v_data6 s) pclmul_shuffle_constant XOR v_chorba1 s XOR v_chorba2 s\<rparr>;
          s = s\<lparr>v_data5 := mm_xor_si128 (v_data5 s) (v_data6 s)\<rparr>;
          s = s\<lparr>v_data7 := mm_xor_si128 (v_data7 s) (v_data8 s)\<rparr>;
          s = s\<lparr>v_data8 := mm_loadu_si128 (v_buf s) (16 * (v_data_offset s mod pclmul_BUFLEN_WORDS + 3)),
              v_ub := v_ub s \<or> pclmul_BUFLEN_WORDS < v_data_offset s mod pclmul_BUFLEN_WORDS + 3 + 1\<rparr>;
          s = s\<lparr>v_data8 := mm_shuffle_epi8 (v_data8 s) pclmul_shuffle_constant XOR v_chorba1 s XOR v_chorba2 s\<rparr>;
          s = s\<lparr>v_data7 := mm_xor_si128 (v_data7 s) (v_data8 s)\<rparr>;
          s = s\<lparr>v_bytes_read := v_bytes_read s - (16 * 4)\<rparr>
      in s)"

lemma cksum_pclmul_L340_L376_scalars [simp]:
  "v_bytes_read (cksum_pclmul_L340_L376 s) = v_bytes_read s - 80"
  "v_fp (cksum_pclmul_L340_L376 s) = v_fp s"
  "v_length (cksum_pclmul_L340_L376 s) = v_length s"
  "v_data_available (cksum_pclmul_L340_L376 s) = v_data_available s"
  "v_next_buf (cksum_pclmul_L340_L376 s) = v_next_buf s"
  by (simp_all add: cksum_pclmul_L340_L376_def Let_def)

text \<open>Lines 378 to 409 of the source.\<close>

definition cksum_pclmul_L378_L409 :: "m128i simd_vars \<Rightarrow> m128i simd_vars" where
  "cksum_pclmul_L378_L409 s0 =
     (let s = s0;
          s = s\<lparr>v_data_offset := v_data_offset s + 4, v_ub := v_ub s \<or> INT_MAX < v_data_offset s + 4\<rparr>;
          s = s\<lparr>v_data2 := mm_clmulepi64_si128 (v_data s) pclmul_five_mult_constant 0x00\<rparr>;
          s = s\<lparr>v_data := mm_clmulepi64_si128 (v_data s) pclmul_five_mult_constant 0x11\<rparr>;
          s = s\<lparr>v_data4 := mm_clmulepi64_si128 (v_data3 s) pclmul_five_mult_constant 0x00\<rparr>;
          s = s\<lparr>v_data3 := mm_clmulepi64_si128 (v_data3 s) pclmul_five_mult_constant 0x11\<rparr>;
          s = s\<lparr>v_data6 := mm_clmulepi64_si128 (v_data5 s) pclmul_five_mult_constant 0x00\<rparr>;
          s = s\<lparr>v_data5 := mm_clmulepi64_si128 (v_data5 s) pclmul_five_mult_constant 0x11\<rparr>;
          s = s\<lparr>v_data8 := mm_clmulepi64_si128 (v_data7 s) pclmul_five_mult_constant 0x00\<rparr>;
          s = s\<lparr>v_data7 := mm_clmulepi64_si128 (v_data7 s) pclmul_five_mult_constant 0x11\<rparr>;
          s = s\<lparr>v_data := mm_xor_si128 (v_data s) (v_data2 s)\<rparr>;
          s = s\<lparr>v_data2 := mm_loadu_si128 (v_buf s) (16 * (v_data_offset s mod pclmul_BUFLEN_WORDS)),
              v_ub := v_ub s \<or> pclmul_BUFLEN_WORDS < v_data_offset s mod pclmul_BUFLEN_WORDS + 1\<rparr>;
          s = s\<lparr>v_data2 := mm_shuffle_epi8 (v_data2 s) pclmul_shuffle_constant XOR v_chorba1 s\<rparr>;
          s = s\<lparr>v_data := mm_xor_si128 (v_data s) (v_data2 s)\<rparr>;
          s = s\<lparr>v_data3 := mm_xor_si128 (v_data3 s) (v_data4 s)\<rparr>;
          s = s\<lparr>v_data4 := mm_loadu_si128 (v_buf s) (16 * (v_data_offset s mod pclmul_BUFLEN_WORDS + 1)),
              v_ub := v_ub s \<or> pclmul_BUFLEN_WORDS < v_data_offset s mod pclmul_BUFLEN_WORDS + 1 + 1\<rparr>;
          s = s\<lparr>v_data4 := mm_shuffle_epi8 (v_data4 s) pclmul_shuffle_constant XOR v_chorba4 s XOR v_chorba2 s\<rparr>;
          s = s\<lparr>v_data3 := mm_xor_si128 (v_data3 s) (v_data4 s)\<rparr>;
          s = s\<lparr>v_data5 := mm_xor_si128 (v_data5 s) (v_data6 s)\<rparr>;
          s = s\<lparr>v_data6 := mm_loadu_si128 (v_buf s) (16 * (v_data_offset s mod pclmul_BUFLEN_WORDS + 2)),
              v_ub := v_ub s \<or> pclmul_BUFLEN_WORDS < v_data_offset s mod pclmul_BUFLEN_WORDS + 2 + 1\<rparr>;
          s = s\<lparr>v_data6 := mm_shuffle_epi8 (v_data6 s) pclmul_shuffle_constant XOR v_chorba2 s XOR v_chorba3 s\<rparr>;
          s = s\<lparr>v_data5 := mm_xor_si128 (v_data5 s) (v_data6 s)\<rparr>;
          s = s\<lparr>v_data7 := mm_xor_si128 (v_data7 s) (v_data8 s)\<rparr>;
          s = s\<lparr>v_data8 := mm_loadu_si128 (v_buf s) (16 * (v_data_offset s mod pclmul_BUFLEN_WORDS + 3)),
              v_ub := v_ub s \<or> pclmul_BUFLEN_WORDS < v_data_offset s mod pclmul_BUFLEN_WORDS + 3 + 1\<rparr>;
          s = s\<lparr>v_data8 := mm_shuffle_epi8 (v_data8 s) pclmul_shuffle_constant\<rparr>;
          s = s\<lparr>v_data7 := mm_xor_si128 (v_data7 s) (v_data8 s)\<rparr>;
          s = s\<lparr>v_bytes_read := v_bytes_read s - (16 * 4)\<rparr>
      in s)"

lemma cksum_pclmul_L378_L409_scalars [simp]:
  "v_bytes_read (cksum_pclmul_L378_L409 s) = v_bytes_read s - 64"
  "v_fp (cksum_pclmul_L378_L409 s) = v_fp s"
  "v_length (cksum_pclmul_L378_L409 s) = v_length s"
  "v_data_available (cksum_pclmul_L378_L409 s) = v_data_available s"
  "v_next_buf (cksum_pclmul_L378_L409 s) = v_next_buf s"
  by (simp_all add: cksum_pclmul_L378_L409_def Let_def)

text \<open>Lines 415 to 418 of the source.\<close>

definition cksum_pclmul_L415_L418 :: "m128i simd_vars \<Rightarrow> m128i simd_vars" where
  "cksum_pclmul_L415_L418 s0 =
     (let s = s0;
          s = s\<lparr>v_batch_size_read := of_nat (length (fst (fread (pclmul_BUFLEN div 2) (v_fp s)))),
              v_buf := store_bytes (v_buf s) (16 * v_next_buf s) (fst (fread (pclmul_BUFLEN div 2) (v_fp s))),
              v_fp := snd (fread (pclmul_BUFLEN div 2) (v_fp s)),
              v_ub := v_ub s \<or> 16 * pclmul_BUFLEN_WORDS < 16 * v_next_buf s + (pclmul_BUFLEN div 2)\<rparr>;
          s = s\<lparr>v_next_buf := v_next_buf s XOR ((pclmul_BUFLEN_WORDS div 2))\<rparr>;
          s = s\<lparr>v_data_available := (v_batch_size_read s \<noteq> 0)\<rparr>;
          s = s\<lparr>v_bytes_read := v_bytes_read s + v_batch_size_read s\<rparr>
      in s)"

text \<open>Line 425 of the source.\<close>

definition cksum_pclmul_L425_L425 :: "m128i simd_vars \<Rightarrow> m128i simd_vars" where
  "cksum_pclmul_L425_L425 s0 =
     (let s = s0;
          s = s\<lparr>v_length := v_length s + v_batch_size_read s\<rparr>
      in s)"

text \<open>\<^verbatim>\<open>if (bytes_read < (BUFLEN / 2) && data_available)\<close>, lines 413 to 426.\<close>

definition cksum_pclmul_if_L413 :: "m128i simd_vars \<Rightarrow> error + m128i simd_vars" where
  "cksum_pclmul_if_L413 s =
     (if v_bytes_read s < of_nat ((pclmul_BUFLEN div 2)) \<and> v_data_available s
      then err_seq
        [ok cksum_pclmul_L415_L418,
         (\<lambda>s. if v_length s + v_batch_size_read s < v_length s then Inl LENGTH_OVERFLOW else Inr s),
         ok cksum_pclmul_L425_L425] s
      else Inr s)"

text \<open>The body of \<^verbatim>\<open>while (bytes_read >= 512*2 + 64 + 16 * 8)\<close>, lines 125 to 427.\<close>

definition cksum_pclmul_while_L125_body :: "m128i simd_vars \<Rightarrow> error + m128i simd_vars" where
  "cksum_pclmul_while_L125_body =
     err_seq
        [ok cksum_pclmul_L127_L163,
         ok cksum_pclmul_L165_L196,
         ok cksum_pclmul_L198_L234,
         ok cksum_pclmul_L236_L267,
         ok cksum_pclmul_L269_L305,
         ok cksum_pclmul_L307_L338,
         ok cksum_pclmul_L340_L376,
         ok cksum_pclmul_L378_L409,
         cksum_pclmul_if_L413]"

lemma cksum_pclmul_if_L413_measure:
  assumes "cksum_pclmul_if_L413 s = Inr s'"
  shows "unat (v_bytes_read s') + 2 * length (pending (v_fp s'))
         \<le> unat (v_bytes_read s) + 2 * length (pending (v_fp s))"
proof (cases "v_bytes_read s < of_nat (pclmul_BUFLEN div 2) \<and> v_data_available s")
  case False
  then show ?thesis using assms by (auto simp: cksum_pclmul_if_L413_def split: if_splits)
next
  case True
  let ?n = "length (fst (fread (pclmul_BUFLEN div 2) (v_fp s)))"
  have n: "?n = min 32768 (length (pending (v_fp s)))"
    by (simp add: fread_def pclmul_BUFLEN_def min_def)
  have br: "unat (v_bytes_read s) < 32768"
    using True by (simp add: pclmul_BUFLEN_def word_less_nat_alt)
  have s': "v_bytes_read s' = v_bytes_read s + of_nat ?n"
       "pending (v_fp s') = drop 32768 (pending (v_fp s))"
    using assms True
    by (auto simp: cksum_pclmul_if_L413_def ok_def cksum_pclmul_L415_L418_def
        cksum_pclmul_L425_L425_def Let_def fread_def pclmul_BUFLEN_def split: if_splits)
  have "unat (v_bytes_read s + of_nat ?n) \<le> unat (v_bytes_read s) + ?n"
    by (rule unat_add_of_nat_le)
  then show ?thesis
    using s' n by simp
qed

lemma cksum_pclmul_while_L125_body_decreases:
  assumes "512 * 2 + 64 + 16 * 8 \<le> v_bytes_read s" "cksum_pclmul_while_L125_body s = Inr s'"
  shows "unat (v_bytes_read s') + 2 * length (pending (v_fp s'))
         < unat (v_bytes_read s) + 2 * length (pending (v_fp s))"
proof -
  define t where "t = cksum_pclmul_L378_L409 (cksum_pclmul_L340_L376 (cksum_pclmul_L307_L338
    (cksum_pclmul_L269_L305 (cksum_pclmul_L236_L267 (cksum_pclmul_L198_L234
    (cksum_pclmul_L165_L196 (cksum_pclmul_L127_L163 s)))))))"
  have t: "cksum_pclmul_if_L413 t = Inr s'"
    "v_bytes_read t = v_bytes_read s - 576" "v_fp t = v_fp s"
    using assms(2)
    by (auto simp: t_def cksum_pclmul_while_L125_body_def ok_def split: sum.splits)
  have "unat (v_bytes_read s - 576) < unat (v_bytes_read s)"
    using assms(1) by (intro word_sub_decreases[where n = 1216]) simp_all
  then show ?thesis
    using cksum_pclmul_if_L413_measure[OF t(1)] t(2,3) by simp
qed

function cksum_pclmul_while_L125 :: "m128i simd_vars \<Rightarrow> error + m128i simd_vars" where
  "cksum_pclmul_while_L125 s =
     (if 512 * 2 + 64 + 16 * 8 \<le> v_bytes_read s
      then (case cksum_pclmul_while_L125_body s of Inl e \<Rightarrow> Inl e | Inr s' \<Rightarrow> cksum_pclmul_while_L125 s')
      else Inr s)"
  by pat_completeness auto
termination
  apply (relation "measure (\<lambda>s. unat (v_bytes_read s) + 2 * length (pending (v_fp s)))")
   apply simp
  apply (simp add: cksum_pclmul_while_L125_body_decreases)
  done

declare cksum_pclmul_while_L125.simps [simp del]

text \<open>Lines 429 to 459 of the source.\<close>

definition cksum_pclmul_L429_L459 :: "m128i simd_vars \<Rightarrow> m128i simd_vars" where
  "cksum_pclmul_L429_L459 s0 =
     (let s = s0;
          s = s\<lparr>v_data_offset := v_data_offset s + 4, v_ub := v_ub s \<or> INT_MAX < v_data_offset s + 4\<rparr>;
          s = s\<lparr>v_data2 := mm_clmulepi64_si128 (v_data s) pclmul_four_mult_constant 0x00\<rparr>;
          s = s\<lparr>v_data := mm_clmulepi64_si128 (v_data s) pclmul_four_mult_constant 0x11\<rparr>;
          s = s\<lparr>v_data4 := mm_clmulepi64_si128 (v_data3 s) pclmul_four_mult_constant 0x00\<rparr>;
          s = s\<lparr>v_data3 := mm_clmulepi64_si128 (v_data3 s) pclmul_four_mult_constant 0x11\<rparr>;
          s = s\<lparr>v_data6 := mm_clmulepi64_si128 (v_data5 s) pclmul_four_mult_constant 0x00\<rparr>;
          s = s\<lparr>v_data5 := mm_clmulepi64_si128 (v_data5 s) pclmul_four_mult_constant 0x11\<rparr>;
          s = s\<lparr>v_data8 := mm_clmulepi64_si128 (v_data7 s) pclmul_four_mult_constant 0x00\<rparr>;
          s = s\<lparr>v_data7 := mm_clmulepi64_si128 (v_data7 s) pclmul_four_mult_constant 0x11\<rparr>;
          s = s\<lparr>v_data := mm_xor_si128 (v_data s) (v_data2 s)\<rparr>;
          s = s\<lparr>v_data2 := mm_loadu_si128 (v_buf s) (16 * (v_data_offset s mod pclmul_BUFLEN_WORDS)),
              v_ub := v_ub s \<or> pclmul_BUFLEN_WORDS < v_data_offset s mod pclmul_BUFLEN_WORDS + 1\<rparr>;
          s = s\<lparr>v_data2 := mm_shuffle_epi8 (v_data2 s) pclmul_shuffle_constant XOR v_chorba2 s XOR v_chorba4 s\<rparr>;
          s = s\<lparr>v_data := mm_xor_si128 (v_data s) (v_data2 s)\<rparr>;
          s = s\<lparr>v_data3 := mm_xor_si128 (v_data3 s) (v_data4 s)\<rparr>;
          s = s\<lparr>v_data4 := mm_loadu_si128 (v_buf s) (16 * (v_data_offset s mod pclmul_BUFLEN_WORDS + 1)),
              v_ub := v_ub s \<or> pclmul_BUFLEN_WORDS < v_data_offset s mod pclmul_BUFLEN_WORDS + 1 + 1\<rparr>;
          s = s\<lparr>v_data4 := mm_shuffle_epi8 (v_data4 s) pclmul_shuffle_constant XOR v_chorba2 s XOR v_chorba4 s\<rparr>;
          s = s\<lparr>v_data3 := mm_xor_si128 (v_data3 s) (v_data4 s)\<rparr>;
          s = s\<lparr>v_data5 := mm_xor_si128 (v_data5 s) (v_data6 s)\<rparr>;
          s = s\<lparr>v_data6 := mm_loadu_si128 (v_buf s) (16 * (v_data_offset s mod pclmul_BUFLEN_WORDS + 2)),
              v_ub := v_ub s \<or> pclmul_BUFLEN_WORDS < v_data_offset s mod pclmul_BUFLEN_WORDS + 2 + 1\<rparr>;
          s = s\<lparr>v_data6 := mm_shuffle_epi8 (v_data6 s) pclmul_shuffle_constant XOR v_chorba3 s\<rparr>;
          s = s\<lparr>v_data5 := mm_xor_si128 (v_data5 s) (v_data6 s)\<rparr>;
          s = s\<lparr>v_data7 := mm_xor_si128 (v_data7 s) (v_data8 s)\<rparr>;
          s = s\<lparr>v_data8 := mm_loadu_si128 (v_buf s) (16 * (v_data_offset s mod pclmul_BUFLEN_WORDS + 3)),
              v_ub := v_ub s \<or> pclmul_BUFLEN_WORDS < v_data_offset s mod pclmul_BUFLEN_WORDS + 3 + 1\<rparr>;
          s = s\<lparr>v_data8 := mm_shuffle_epi8 (v_data8 s) pclmul_shuffle_constant XOR v_chorba2 s XOR v_chorba3 s\<rparr>;
          s = s\<lparr>v_data7 := mm_xor_si128 (v_data7 s) (v_data8 s)\<rparr>;
          s = s\<lparr>v_bytes_read := v_bytes_read s - (16 * 4)\<rparr>
      in s)"

lemma cksum_pclmul_L429_L459_scalars [simp]:
  "v_bytes_read (cksum_pclmul_L429_L459 s) = v_bytes_read s - 64"
  "v_fp (cksum_pclmul_L429_L459 s) = v_fp s"
  "v_length (cksum_pclmul_L429_L459 s) = v_length s"
  "v_data_available (cksum_pclmul_L429_L459 s) = v_data_available s"
  "v_next_buf (cksum_pclmul_L429_L459 s) = v_next_buf s"
  by (simp_all add: cksum_pclmul_L429_L459_def Let_def)

text \<open>Lines 460 to 490 of the source.\<close>

definition cksum_pclmul_L460_L490 :: "m128i simd_vars \<Rightarrow> m128i simd_vars" where
  "cksum_pclmul_L460_L490 s0 =
     (let s = s0;
          s = s\<lparr>v_data_offset := v_data_offset s + 4, v_ub := v_ub s \<or> INT_MAX < v_data_offset s + 4\<rparr>;
          s = s\<lparr>v_data2 := mm_clmulepi64_si128 (v_data s) pclmul_four_mult_constant 0x00\<rparr>;
          s = s\<lparr>v_data := mm_clmulepi64_si128 (v_data s) pclmul_four_mult_constant 0x11\<rparr>;
          s = s\<lparr>v_data4 := mm_clmulepi64_si128 (v_data3 s) pclmul_four_mult_constant 0x00\<rparr>;
          s = s\<lparr>v_data3 := mm_clmulepi64_si128 (v_data3 s) pclmul_four_mult_constant 0x11\<rparr>;
          s = s\<lparr>v_data6 := mm_clmulepi64_si128 (v_data5 s) pclmul_four_mult_constant 0x00\<rparr>;
          s = s\<lparr>v_data5 := mm_clmulepi64_si128 (v_data5 s) pclmul_four_mult_constant 0x11\<rparr>;
          s = s\<lparr>v_data8 := mm_clmulepi64_si128 (v_data7 s) pclmul_four_mult_constant 0x00\<rparr>;
          s = s\<lparr>v_data7 := mm_clmulepi64_si128 (v_data7 s) pclmul_four_mult_constant 0x11\<rparr>;
          s = s\<lparr>v_data := mm_xor_si128 (v_data s) (v_data2 s)\<rparr>;
          s = s\<lparr>v_data2 := mm_loadu_si128 (v_buf s) (16 * (v_data_offset s mod pclmul_BUFLEN_WORDS)),
              v_ub := v_ub s \<or> pclmul_BUFLEN_WORDS < v_data_offset s mod pclmul_BUFLEN_WORDS + 1\<rparr>;
          s = s\<lparr>v_data2 := mm_shuffle_epi8 (v_data2 s) pclmul_shuffle_constant XOR v_chorba2 s XOR v_chorba3 s\<rparr>;
          s = s\<lparr>v_data := mm_xor_si128 (v_data s) (v_data2 s)\<rparr>;
          s = s\<lparr>v_data3 := mm_xor_si128 (v_data3 s) (v_data4 s)\<rparr>;
          s = s\<lparr>v_data4 := mm_loadu_si128 (v_buf s) (16 * (v_data_offset s mod pclmul_BUFLEN_WORDS + 1)),
              v_ub := v_ub s \<or> pclmul_BUFLEN_WORDS < v_data_offset s mod pclmul_BUFLEN_WORDS + 1 + 1\<rparr>;
          s = s\<lparr>v_data4 := mm_shuffle_epi8 (v_data4 s) pclmul_shuffle_constant XOR v_chorba2 s\<rparr>;
          s = s\<lparr>v_data3 := mm_xor_si128 (v_data3 s) (v_data4 s)\<rparr>;
          s = s\<lparr>v_data5 := mm_xor_si128 (v_data5 s) (v_data6 s)\<rparr>;
          s = s\<lparr>v_data6 := mm_loadu_si128 (v_buf s) (16 * (v_data_offset s mod pclmul_BUFLEN_WORDS + 2)),
              v_ub := v_ub s \<or> pclmul_BUFLEN_WORDS < v_data_offset s mod pclmul_BUFLEN_WORDS + 2 + 1\<rparr>;
          s = s\<lparr>v_data6 := mm_shuffle_epi8 (v_data6 s) pclmul_shuffle_constant XOR v_chorba3 s\<rparr>;
          s = s\<lparr>v_data5 := mm_xor_si128 (v_data5 s) (v_data6 s)\<rparr>;
          s = s\<lparr>v_data7 := mm_xor_si128 (v_data7 s) (v_data8 s)\<rparr>;
          s = s\<lparr>v_data8 := mm_loadu_si128 (v_buf s) (16 * (v_data_offset s mod pclmul_BUFLEN_WORDS + 3)),
              v_ub := v_ub s \<or> pclmul_BUFLEN_WORDS < v_data_offset s mod pclmul_BUFLEN_WORDS + 3 + 1\<rparr>;
          s = s\<lparr>v_data8 := mm_shuffle_epi8 (v_data8 s) pclmul_shuffle_constant XOR v_chorba3 s XOR v_chorba4 s\<rparr>;
          s = s\<lparr>v_data7 := mm_xor_si128 (v_data7 s) (v_data8 s)\<rparr>;
          s = s\<lparr>v_bytes_read := v_bytes_read s - (16 * 4)\<rparr>
      in s)"

lemma cksum_pclmul_L460_L490_scalars [simp]:
  "v_bytes_read (cksum_pclmul_L460_L490 s) = v_bytes_read s - 64"
  "v_fp (cksum_pclmul_L460_L490 s) = v_fp s"
  "v_length (cksum_pclmul_L460_L490 s) = v_length s"
  "v_data_available (cksum_pclmul_L460_L490 s) = v_data_available s"
  "v_next_buf (cksum_pclmul_L460_L490 s) = v_next_buf s"
  by (simp_all add: cksum_pclmul_L460_L490_def Let_def)

text \<open>Lines 491 to 521 of the source.\<close>

definition cksum_pclmul_L491_L521 :: "m128i simd_vars \<Rightarrow> m128i simd_vars" where
  "cksum_pclmul_L491_L521 s0 =
     (let s = s0;
          s = s\<lparr>v_data_offset := v_data_offset s + 4, v_ub := v_ub s \<or> INT_MAX < v_data_offset s + 4\<rparr>;
          s = s\<lparr>v_data2 := mm_clmulepi64_si128 (v_data s) pclmul_four_mult_constant 0x00\<rparr>;
          s = s\<lparr>v_data := mm_clmulepi64_si128 (v_data s) pclmul_four_mult_constant 0x11\<rparr>;
          s = s\<lparr>v_data4 := mm_clmulepi64_si128 (v_data3 s) pclmul_four_mult_constant 0x00\<rparr>;
          s = s\<lparr>v_data3 := mm_clmulepi64_si128 (v_data3 s) pclmul_four_mult_constant 0x11\<rparr>;
          s = s\<lparr>v_data6 := mm_clmulepi64_si128 (v_data5 s) pclmul_four_mult_constant 0x00\<rparr>;
          s = s\<lparr>v_data5 := mm_clmulepi64_si128 (v_data5 s) pclmul_four_mult_constant 0x11\<rparr>;
          s = s\<lparr>v_data8 := mm_clmulepi64_si128 (v_data7 s) pclmul_four_mult_constant 0x00\<rparr>;
          s = s\<lparr>v_data7 := mm_clmulepi64_si128 (v_data7 s) pclmul_four_mult_constant 0x11\<rparr>;
          s = s\<lparr>v_data := mm_xor_si128 (v_data s) (v_data2 s)\<rparr>;
          s = s\<lparr>v_data2 := mm_loadu_si128 (v_buf s) (16 * (v_data_offset s mod pclmul_BUFLEN_WORDS)),
              v_ub := v_ub s \<or> pclmul_BUFLEN_WORDS < v_data_offset s mod pclmul_BUFLEN_WORDS + 1\<rparr>;
          s = s\<lparr>v_data2 := mm_shuffle_epi8 (v_data2 s) pclmul_shuffle_constant\<rparr>;
          s = s\<lparr>v_data := mm_xor_si128 (v_data s) (v_data2 s)\<rparr>;
          s = s\<lparr>v_data3 := mm_xor_si128 (v_data3 s) (v_data4 s)\<rparr>;
          s = s\<lparr>v_data4 := mm_loadu_si128 (v_buf s) (16 * (v_data_offset s mod pclmul_BUFLEN_WORDS + 1)),
              v_ub := v_ub s \<or> pclmul_BUFLEN_WORDS < v_data_offset s mod pclmul_BUFLEN_WORDS + 1 + 1\<rparr>;
          s = s\<lparr>v_data4 := mm_shuffle_epi8 (v_data4 s) pclmul_shuffle_constant XOR v_chorba3 s\<rparr>;
          s = s\<lparr>v_data3 := mm_xor_si128 (v_data3 s) (v_data4 s)\<rparr>;
          s = s\<lparr>v_data5 := mm_xor_si128 (v_data5 s) (v_data6 s)\<rparr>;
          s = s\<lparr>v_data6 := mm_loadu_si128 (v_buf s) (16 * (v_data_offset s mod pclmul_BUFLEN_WORDS + 2)),
              v_ub := v_ub s \<or> pclmul_BUFLEN_WORDS < v_data_offset s mod pclmul_BUFLEN_WORDS + 2 + 1\<rparr>;
          s = s\<lparr>v_data6 := mm_shuffle_epi8 (v_data6 s) pclmul_shuffle_constant XOR v_chorba3 s\<rparr>;
          s = s\<lparr>v_data5 := mm_xor_si128 (v_data5 s) (v_data6 s)\<rparr>;
          s = s\<lparr>v_data7 := mm_xor_si128 (v_data7 s) (v_data8 s)\<rparr>;
          s = s\<lparr>v_data8 := mm_loadu_si128 (v_buf s) (16 * (v_data_offset s mod pclmul_BUFLEN_WORDS + 3)),
              v_ub := v_ub s \<or> pclmul_BUFLEN_WORDS < v_data_offset s mod pclmul_BUFLEN_WORDS + 3 + 1\<rparr>;
          s = s\<lparr>v_data8 := mm_shuffle_epi8 (v_data8 s) pclmul_shuffle_constant XOR v_chorba4 s\<rparr>;
          s = s\<lparr>v_data7 := mm_xor_si128 (v_data7 s) (v_data8 s)\<rparr>;
          s = s\<lparr>v_bytes_read := v_bytes_read s - (16 * 4)\<rparr>
      in s)"

lemma cksum_pclmul_L491_L521_scalars [simp]:
  "v_bytes_read (cksum_pclmul_L491_L521 s) = v_bytes_read s - 64"
  "v_fp (cksum_pclmul_L491_L521 s) = v_fp s"
  "v_length (cksum_pclmul_L491_L521 s) = v_length s"
  "v_data_available (cksum_pclmul_L491_L521 s) = v_data_available s"
  "v_next_buf (cksum_pclmul_L491_L521 s) = v_next_buf s"
  by (simp_all add: cksum_pclmul_L491_L521_def Let_def)

text \<open>Lines 522 to 552 of the source.\<close>

definition cksum_pclmul_L522_L552 :: "m128i simd_vars \<Rightarrow> m128i simd_vars" where
  "cksum_pclmul_L522_L552 s0 =
     (let s = s0;
          s = s\<lparr>v_data_offset := v_data_offset s + 4, v_ub := v_ub s \<or> INT_MAX < v_data_offset s + 4\<rparr>;
          s = s\<lparr>v_data2 := mm_clmulepi64_si128 (v_data s) pclmul_four_mult_constant 0x00\<rparr>;
          s = s\<lparr>v_data := mm_clmulepi64_si128 (v_data s) pclmul_four_mult_constant 0x11\<rparr>;
          s = s\<lparr>v_data4 := mm_clmulepi64_si128 (v_data3 s) pclmul_four_mult_constant 0x00\<rparr>;
          s = s\<lparr>v_data3 := mm_clmulepi64_si128 (v_data3 s) pclmul_four_mult_constant 0x11\<rparr>;
          s = s\<lparr>v_data6 := mm_clmulepi64_si128 (v_data5 s) pclmul_four_mult_constant 0x00\<rparr>;
          s = s\<lparr>v_data5 := mm_clmulepi64_si128 (v_data5 s) pclmul_four_mult_constant 0x11\<rparr>;
          s = s\<lparr>v_data8 := mm_clmulepi64_si128 (v_data7 s) pclmul_four_mult_constant 0x00\<rparr>;
          s = s\<lparr>v_data7 := mm_clmulepi64_si128 (v_data7 s) pclmul_four_mult_constant 0x11\<rparr>;
          s = s\<lparr>v_data := mm_xor_si128 (v_data s) (v_data2 s)\<rparr>;
          s = s\<lparr>v_data2 := mm_loadu_si128 (v_buf s) (16 * (v_data_offset s mod pclmul_BUFLEN_WORDS)),
              v_ub := v_ub s \<or> pclmul_BUFLEN_WORDS < v_data_offset s mod pclmul_BUFLEN_WORDS + 1\<rparr>;
          s = s\<lparr>v_data2 := mm_shuffle_epi8 (v_data2 s) pclmul_shuffle_constant XOR v_chorba3 s XOR v_chorba4 s\<rparr>;
          s = s\<lparr>v_data := mm_xor_si128 (v_data s) (v_data2 s)\<rparr>;
          s = s\<lparr>v_data3 := mm_xor_si128 (v_data3 s) (v_data4 s)\<rparr>;
          s = s\<lparr>v_data4 := mm_loadu_si128 (v_buf s) (16 * (v_data_offset s mod pclmul_BUFLEN_WORDS + 1)),
              v_ub := v_ub s \<or> pclmul_BUFLEN_WORDS < v_data_offset s mod pclmul_BUFLEN_WORDS + 1 + 1\<rparr>;
          s = s\<lparr>v_data4 := mm_shuffle_epi8 (v_data4 s) pclmul_shuffle_constant XOR v_chorba3 s XOR v_chorba4 s\<rparr>;
          s = s\<lparr>v_data3 := mm_xor_si128 (v_data3 s) (v_data4 s)\<rparr>;
          s = s\<lparr>v_data5 := mm_xor_si128 (v_data5 s) (v_data6 s)\<rparr>;
          s = s\<lparr>v_data6 := mm_loadu_si128 (v_buf s) (16 * (v_data_offset s mod pclmul_BUFLEN_WORDS + 2)),
              v_ub := v_ub s \<or> pclmul_BUFLEN_WORDS < v_data_offset s mod pclmul_BUFLEN_WORDS + 2 + 1\<rparr>;
          s = s\<lparr>v_data6 := mm_shuffle_epi8 (v_data6 s) pclmul_shuffle_constant XOR v_chorba3 s\<rparr>;
          s = s\<lparr>v_data5 := mm_xor_si128 (v_data5 s) (v_data6 s)\<rparr>;
          s = s\<lparr>v_data7 := mm_xor_si128 (v_data7 s) (v_data8 s)\<rparr>;
          s = s\<lparr>v_data8 := mm_loadu_si128 (v_buf s) (16 * (v_data_offset s mod pclmul_BUFLEN_WORDS + 3)),
              v_ub := v_ub s \<or> pclmul_BUFLEN_WORDS < v_data_offset s mod pclmul_BUFLEN_WORDS + 3 + 1\<rparr>;
          s = s\<lparr>v_data8 := mm_shuffle_epi8 (v_data8 s) pclmul_shuffle_constant XOR v_chorba3 s\<rparr>;
          s = s\<lparr>v_data7 := mm_xor_si128 (v_data7 s) (v_data8 s)\<rparr>;
          s = s\<lparr>v_bytes_read := v_bytes_read s - (16 * 4)\<rparr>
      in s)"

lemma cksum_pclmul_L522_L552_scalars [simp]:
  "v_bytes_read (cksum_pclmul_L522_L552 s) = v_bytes_read s - 64"
  "v_fp (cksum_pclmul_L522_L552 s) = v_fp s"
  "v_length (cksum_pclmul_L522_L552 s) = v_length s"
  "v_data_available (cksum_pclmul_L522_L552 s) = v_data_available s"
  "v_next_buf (cksum_pclmul_L522_L552 s) = v_next_buf s"
  by (simp_all add: cksum_pclmul_L522_L552_def Let_def)

text \<open>Lines 553 to 583 of the source.\<close>

definition cksum_pclmul_L553_L583 :: "m128i simd_vars \<Rightarrow> m128i simd_vars" where
  "cksum_pclmul_L553_L583 s0 =
     (let s = s0;
          s = s\<lparr>v_data_offset := v_data_offset s + 4, v_ub := v_ub s \<or> INT_MAX < v_data_offset s + 4\<rparr>;
          s = s\<lparr>v_data2 := mm_clmulepi64_si128 (v_data s) pclmul_four_mult_constant 0x00\<rparr>;
          s = s\<lparr>v_data := mm_clmulepi64_si128 (v_data s) pclmul_four_mult_constant 0x11\<rparr>;
          s = s\<lparr>v_data4 := mm_clmulepi64_si128 (v_data3 s) pclmul_four_mult_constant 0x00\<rparr>;
          s = s\<lparr>v_data3 := mm_clmulepi64_si128 (v_data3 s) pclmul_four_mult_constant 0x11\<rparr>;
          s = s\<lparr>v_data6 := mm_clmulepi64_si128 (v_data5 s) pclmul_four_mult_constant 0x00\<rparr>;
          s = s\<lparr>v_data5 := mm_clmulepi64_si128 (v_data5 s) pclmul_four_mult_constant 0x11\<rparr>;
          s = s\<lparr>v_data8 := mm_clmulepi64_si128 (v_data7 s) pclmul_four_mult_constant 0x00\<rparr>;
          s = s\<lparr>v_data7 := mm_clmulepi64_si128 (v_data7 s) pclmul_four_mult_constant 0x11\<rparr>;
          s = s\<lparr>v_data := mm_xor_si128 (v_data s) (v_data2 s)\<rparr>;
          s = s\<lparr>v_data2 := mm_loadu_si128 (v_buf s) (16 * (v_data_offset s mod pclmul_BUFLEN_WORDS)),
              v_ub := v_ub s \<or> pclmul_BUFLEN_WORDS < v_data_offset s mod pclmul_BUFLEN_WORDS + 1\<rparr>;
          s = s\<lparr>v_data2 := mm_shuffle_epi8 (v_data2 s) pclmul_shuffle_constant XOR v_chorba4 s\<rparr>;
          s = s\<lparr>v_data := mm_xor_si128 (v_data s) (v_data2 s)\<rparr>;
          s = s\<lparr>v_data3 := mm_xor_si128 (v_data3 s) (v_data4 s)\<rparr>;
          s = s\<lparr>v_data4 := mm_loadu_si128 (v_buf s) (16 * (v_data_offset s mod pclmul_BUFLEN_WORDS + 1)),
              v_ub := v_ub s \<or> pclmul_BUFLEN_WORDS < v_data_offset s mod pclmul_BUFLEN_WORDS + 1 + 1\<rparr>;
          s = s\<lparr>v_data4 := mm_shuffle_epi8 (v_data4 s) pclmul_shuffle_constant\<rparr>;
          s = s\<lparr>v_data3 := mm_xor_si128 (v_data3 s) (v_data4 s)\<rparr>;
          s = s\<lparr>v_data5 := mm_xor_si128 (v_data5 s) (v_data6 s)\<rparr>;
          s = s\<lparr>v_data6 := mm_loadu_si128 (v_buf s) (16 * (v_data_offset s mod pclmul_BUFLEN_WORDS + 2)),
              v_ub := v_ub s \<or> pclmul_BUFLEN_WORDS < v_data_offset s mod pclmul_BUFLEN_WORDS + 2 + 1\<rparr>;
          s = s\<lparr>v_data6 := mm_shuffle_epi8 (v_data6 s) pclmul_shuffle_constant XOR v_chorba4 s\<rparr>;
          s = s\<lparr>v_data5 := mm_xor_si128 (v_data5 s) (v_data6 s)\<rparr>;
          s = s\<lparr>v_data7 := mm_xor_si128 (v_data7 s) (v_data8 s)\<rparr>;
          s = s\<lparr>v_data8 := mm_loadu_si128 (v_buf s) (16 * (v_data_offset s mod pclmul_BUFLEN_WORDS + 3)),
              v_ub := v_ub s \<or> pclmul_BUFLEN_WORDS < v_data_offset s mod pclmul_BUFLEN_WORDS + 3 + 1\<rparr>;
          s = s\<lparr>v_data8 := mm_shuffle_epi8 (v_data8 s) pclmul_shuffle_constant XOR v_chorba4 s\<rparr>;
          s = s\<lparr>v_data7 := mm_xor_si128 (v_data7 s) (v_data8 s)\<rparr>;
          s = s\<lparr>v_bytes_read := v_bytes_read s - (16 * 4)\<rparr>
      in s)"

lemma cksum_pclmul_L553_L583_scalars [simp]:
  "v_bytes_read (cksum_pclmul_L553_L583 s) = v_bytes_read s - 64"
  "v_fp (cksum_pclmul_L553_L583 s) = v_fp s"
  "v_length (cksum_pclmul_L553_L583 s) = v_length s"
  "v_data_available (cksum_pclmul_L553_L583 s) = v_data_available s"
  "v_next_buf (cksum_pclmul_L553_L583 s) = v_next_buf s"
  by (simp_all add: cksum_pclmul_L553_L583_def Let_def)

text \<open>Lines 584 to 614 of the source.\<close>

definition cksum_pclmul_L584_L614 :: "m128i simd_vars \<Rightarrow> m128i simd_vars" where
  "cksum_pclmul_L584_L614 s0 =
     (let s = s0;
          s = s\<lparr>v_data_offset := v_data_offset s + 4, v_ub := v_ub s \<or> INT_MAX < v_data_offset s + 4\<rparr>;
          s = s\<lparr>v_data2 := mm_clmulepi64_si128 (v_data s) pclmul_four_mult_constant 0x00\<rparr>;
          s = s\<lparr>v_data := mm_clmulepi64_si128 (v_data s) pclmul_four_mult_constant 0x11\<rparr>;
          s = s\<lparr>v_data4 := mm_clmulepi64_si128 (v_data3 s) pclmul_four_mult_constant 0x00\<rparr>;
          s = s\<lparr>v_data3 := mm_clmulepi64_si128 (v_data3 s) pclmul_four_mult_constant 0x11\<rparr>;
          s = s\<lparr>v_data6 := mm_clmulepi64_si128 (v_data5 s) pclmul_four_mult_constant 0x00\<rparr>;
          s = s\<lparr>v_data5 := mm_clmulepi64_si128 (v_data5 s) pclmul_four_mult_constant 0x11\<rparr>;
          s = s\<lparr>v_data8 := mm_clmulepi64_si128 (v_data7 s) pclmul_four_mult_constant 0x00\<rparr>;
          s = s\<lparr>v_data7 := mm_clmulepi64_si128 (v_data7 s) pclmul_four_mult_constant 0x11\<rparr>;
          s = s\<lparr>v_data := mm_xor_si128 (v_data s) (v_data2 s)\<rparr>;
          s = s\<lparr>v_data2 := mm_loadu_si128 (v_buf s) (16 * (v_data_offset s mod pclmul_BUFLEN_WORDS)),
              v_ub := v_ub s \<or> pclmul_BUFLEN_WORDS < v_data_offset s mod pclmul_BUFLEN_WORDS + 1\<rparr>;
          s = s\<lparr>v_data2 := mm_shuffle_epi8 (v_data2 s) pclmul_shuffle_constant\<rparr>;
          s = s\<lparr>v_data := mm_xor_si128 (v_data s) (v_data2 s)\<rparr>;
          s = s\<lparr>v_data3 := mm_xor_si128 (v_data3 s) (v_data4 s)\<rparr>;
          s = s\<lparr>v_data4 := mm_loadu_si128 (v_buf s) (16 * (v_data_offset s mod pclmul_BUFLEN_WORDS + 1)),
              v_ub := v_ub s \<or> pclmul_BUFLEN_WORDS < v_data_offset s mod pclmul_BUFLEN_WORDS + 1 + 1\<rparr>;
          s = s\<lparr>v_data4 := mm_shuffle_epi8 (v_data4 s) pclmul_shuffle_constant XOR v_chorba4 s\<rparr>;
          s = s\<lparr>v_data3 := mm_xor_si128 (v_data3 s) (v_data4 s)\<rparr>;
          s = s\<lparr>v_data5 := mm_xor_si128 (v_data5 s) (v_data6 s)\<rparr>;
          s = s\<lparr>v_data6 := mm_loadu_si128 (v_buf s) (16 * (v_data_offset s mod pclmul_BUFLEN_WORDS + 2)),
              v_ub := v_ub s \<or> pclmul_BUFLEN_WORDS < v_data_offset s mod pclmul_BUFLEN_WORDS + 2 + 1\<rparr>;
          s = s\<lparr>v_data6 := mm_shuffle_epi8 (v_data6 s) pclmul_shuffle_constant XOR v_chorba4 s\<rparr>;
          s = s\<lparr>v_data5 := mm_xor_si128 (v_data5 s) (v_data6 s)\<rparr>;
          s = s\<lparr>v_data7 := mm_xor_si128 (v_data7 s) (v_data8 s)\<rparr>;
          s = s\<lparr>v_data8 := mm_loadu_si128 (v_buf s) (16 * (v_data_offset s mod pclmul_BUFLEN_WORDS + 3)),
              v_ub := v_ub s \<or> pclmul_BUFLEN_WORDS < v_data_offset s mod pclmul_BUFLEN_WORDS + 3 + 1\<rparr>;
          s = s\<lparr>v_data8 := mm_shuffle_epi8 (v_data8 s) pclmul_shuffle_constant XOR v_chorba4 s\<rparr>;
          s = s\<lparr>v_data7 := mm_xor_si128 (v_data7 s) (v_data8 s)\<rparr>;
          s = s\<lparr>v_bytes_read := v_bytes_read s - (16 * 4)\<rparr>
      in s)"

lemma cksum_pclmul_L584_L614_scalars [simp]:
  "v_bytes_read (cksum_pclmul_L584_L614 s) = v_bytes_read s - 64"
  "v_fp (cksum_pclmul_L584_L614 s) = v_fp s"
  "v_length (cksum_pclmul_L584_L614 s) = v_length s"
  "v_data_available (cksum_pclmul_L584_L614 s) = v_data_available s"
  "v_next_buf (cksum_pclmul_L584_L614 s) = v_next_buf s"
  by (simp_all add: cksum_pclmul_L584_L614_def Let_def)

text \<open>Lines 615 to 645 of the source.\<close>

definition cksum_pclmul_L615_L645 :: "m128i simd_vars \<Rightarrow> m128i simd_vars" where
  "cksum_pclmul_L615_L645 s0 =
     (let s = s0;
          s = s\<lparr>v_data_offset := v_data_offset s + 4, v_ub := v_ub s \<or> INT_MAX < v_data_offset s + 4\<rparr>;
          s = s\<lparr>v_data2 := mm_clmulepi64_si128 (v_data s) pclmul_four_mult_constant 0x00\<rparr>;
          s = s\<lparr>v_data := mm_clmulepi64_si128 (v_data s) pclmul_four_mult_constant 0x11\<rparr>;
          s = s\<lparr>v_data4 := mm_clmulepi64_si128 (v_data3 s) pclmul_four_mult_constant 0x00\<rparr>;
          s = s\<lparr>v_data3 := mm_clmulepi64_si128 (v_data3 s) pclmul_four_mult_constant 0x11\<rparr>;
          s = s\<lparr>v_data6 := mm_clmulepi64_si128 (v_data5 s) pclmul_four_mult_constant 0x00\<rparr>;
          s = s\<lparr>v_data5 := mm_clmulepi64_si128 (v_data5 s) pclmul_four_mult_constant 0x11\<rparr>;
          s = s\<lparr>v_data8 := mm_clmulepi64_si128 (v_data7 s) pclmul_four_mult_constant 0x00\<rparr>;
          s = s\<lparr>v_data7 := mm_clmulepi64_si128 (v_data7 s) pclmul_four_mult_constant 0x11\<rparr>;
          s = s\<lparr>v_data := mm_xor_si128 (v_data s) (v_data2 s)\<rparr>;
          s = s\<lparr>v_data2 := mm_loadu_si128 (v_buf s) (16 * (v_data_offset s mod pclmul_BUFLEN_WORDS)),
              v_ub := v_ub s \<or> pclmul_BUFLEN_WORDS < v_data_offset s mod pclmul_BUFLEN_WORDS + 1\<rparr>;
          s = s\<lparr>v_data2 := mm_shuffle_epi8 (v_data2 s) pclmul_shuffle_constant\<rparr>;
          s = s\<lparr>v_data := mm_xor_si128 (v_data s) (v_data2 s)\<rparr>;
          s = s\<lparr>v_data3 := mm_xor_si128 (v_data3 s) (v_data4 s)\<rparr>;
          s = s\<lparr>v_data4 := mm_loadu_si128 (v_buf s) (16 * (v_data_offset s mod pclmul_BUFLEN_WORDS + 1)),
              v_ub := v_ub s \<or> pclmul_BUFLEN_WORDS < v_data_offset s mod pclmul_BUFLEN_WORDS + 1 + 1\<rparr>;
          s = s\<lparr>v_data4 := mm_shuffle_epi8 (v_data4 s) pclmul_shuffle_constant\<rparr>;
          s = s\<lparr>v_data3 := mm_xor_si128 (v_data3 s) (v_data4 s)\<rparr>;
          s = s\<lparr>v_data5 := mm_xor_si128 (v_data5 s) (v_data6 s)\<rparr>;
          s = s\<lparr>v_data6 := mm_loadu_si128 (v_buf s) (16 * (v_data_offset s mod pclmul_BUFLEN_WORDS + 2)),
              v_ub := v_ub s \<or> pclmul_BUFLEN_WORDS < v_data_offset s mod pclmul_BUFLEN_WORDS + 2 + 1\<rparr>;
          s = s\<lparr>v_data6 := mm_shuffle_epi8 (v_data6 s) pclmul_shuffle_constant\<rparr>;
          s = s\<lparr>v_data5 := mm_xor_si128 (v_data5 s) (v_data6 s)\<rparr>;
          s = s\<lparr>v_data7 := mm_xor_si128 (v_data7 s) (v_data8 s)\<rparr>;
          s = s\<lparr>v_data8 := mm_loadu_si128 (v_buf s) (16 * (v_data_offset s mod pclmul_BUFLEN_WORDS + 3)),
              v_ub := v_ub s \<or> pclmul_BUFLEN_WORDS < v_data_offset s mod pclmul_BUFLEN_WORDS + 3 + 1\<rparr>;
          s = s\<lparr>v_data8 := mm_shuffle_epi8 (v_data8 s) pclmul_shuffle_constant\<rparr>;
          s = s\<lparr>v_data7 := mm_xor_si128 (v_data7 s) (v_data8 s)\<rparr>;
          s = s\<lparr>v_bytes_read := v_bytes_read s - (16 * 4)\<rparr>
      in s)"

lemma cksum_pclmul_L615_L645_scalars [simp]:
  "v_bytes_read (cksum_pclmul_L615_L645 s) = v_bytes_read s - 64"
  "v_fp (cksum_pclmul_L615_L645 s) = v_fp s"
  "v_length (cksum_pclmul_L615_L645 s) = v_length s"
  "v_data_available (cksum_pclmul_L615_L645 s) = v_data_available s"
  "v_next_buf (cksum_pclmul_L615_L645 s) = v_next_buf s"
  by (simp_all add: cksum_pclmul_L615_L645_def Let_def)

text \<open>Lines 646 to 676 of the source.\<close>

definition cksum_pclmul_L646_L676 :: "m128i simd_vars \<Rightarrow> m128i simd_vars" where
  "cksum_pclmul_L646_L676 s0 =
     (let s = s0;
          s = s\<lparr>v_data_offset := v_data_offset s + 4, v_ub := v_ub s \<or> INT_MAX < v_data_offset s + 4\<rparr>;
          s = s\<lparr>v_data2 := mm_clmulepi64_si128 (v_data s) pclmul_four_mult_constant 0x00\<rparr>;
          s = s\<lparr>v_data := mm_clmulepi64_si128 (v_data s) pclmul_four_mult_constant 0x11\<rparr>;
          s = s\<lparr>v_data4 := mm_clmulepi64_si128 (v_data3 s) pclmul_four_mult_constant 0x00\<rparr>;
          s = s\<lparr>v_data3 := mm_clmulepi64_si128 (v_data3 s) pclmul_four_mult_constant 0x11\<rparr>;
          s = s\<lparr>v_data6 := mm_clmulepi64_si128 (v_data5 s) pclmul_four_mult_constant 0x00\<rparr>;
          s = s\<lparr>v_data5 := mm_clmulepi64_si128 (v_data5 s) pclmul_four_mult_constant 0x11\<rparr>;
          s = s\<lparr>v_data8 := mm_clmulepi64_si128 (v_data7 s) pclmul_four_mult_constant 0x00\<rparr>;
          s = s\<lparr>v_data7 := mm_clmulepi64_si128 (v_data7 s) pclmul_four_mult_constant 0x11\<rparr>;
          s = s\<lparr>v_data := mm_xor_si128 (v_data s) (v_data2 s)\<rparr>;
          s = s\<lparr>v_data2 := mm_loadu_si128 (v_buf s) (16 * (v_data_offset s mod pclmul_BUFLEN_WORDS)),
              v_ub := v_ub s \<or> pclmul_BUFLEN_WORDS < v_data_offset s mod pclmul_BUFLEN_WORDS + 1\<rparr>;
          s = s\<lparr>v_data2 := mm_shuffle_epi8 (v_data2 s) pclmul_shuffle_constant\<rparr>;
          s = s\<lparr>v_data := mm_xor_si128 (v_data s) (v_data2 s)\<rparr>;
          s = s\<lparr>v_data3 := mm_xor_si128 (v_data3 s) (v_data4 s)\<rparr>;
          s = s\<lparr>v_data4 := mm_loadu_si128 (v_buf s) (16 * (v_data_offset s mod pclmul_BUFLEN_WORDS + 1)),
              v_ub := v_ub s \<or> pclmul_BUFLEN_WORDS < v_data_offset s mod pclmul_BUFLEN_WORDS + 1 + 1\<rparr>;
          s = s\<lparr>v_data4 := mm_shuffle_epi8 (v_data4 s) pclmul_shuffle_constant\<rparr>;
          s = s\<lparr>v_data3 := mm_xor_si128 (v_data3 s) (v_data4 s)\<rparr>;
          s = s\<lparr>v_data5 := mm_xor_si128 (v_data5 s) (v_data6 s)\<rparr>;
          s = s\<lparr>v_data6 := mm_loadu_si128 (v_buf s) (16 * (v_data_offset s mod pclmul_BUFLEN_WORDS + 2)),
              v_ub := v_ub s \<or> pclmul_BUFLEN_WORDS < v_data_offset s mod pclmul_BUFLEN_WORDS + 2 + 1\<rparr>;
          s = s\<lparr>v_data6 := mm_shuffle_epi8 (v_data6 s) pclmul_shuffle_constant\<rparr>;
          s = s\<lparr>v_data5 := mm_xor_si128 (v_data5 s) (v_data6 s)\<rparr>;
          s = s\<lparr>v_data7 := mm_xor_si128 (v_data7 s) (v_data8 s)\<rparr>;
          s = s\<lparr>v_data8 := mm_loadu_si128 (v_buf s) (16 * (v_data_offset s mod pclmul_BUFLEN_WORDS + 3)),
              v_ub := v_ub s \<or> pclmul_BUFLEN_WORDS < v_data_offset s mod pclmul_BUFLEN_WORDS + 3 + 1\<rparr>;
          s = s\<lparr>v_data8 := mm_shuffle_epi8 (v_data8 s) pclmul_shuffle_constant\<rparr>;
          s = s\<lparr>v_data7 := mm_xor_si128 (v_data7 s) (v_data8 s)\<rparr>;
          s = s\<lparr>v_bytes_read := v_bytes_read s - (16 * 4)\<rparr>
      in s)"

lemma cksum_pclmul_L646_L676_scalars [simp]:
  "v_bytes_read (cksum_pclmul_L646_L676 s) = v_bytes_read s - 64"
  "v_fp (cksum_pclmul_L646_L676 s) = v_fp s"
  "v_length (cksum_pclmul_L646_L676 s) = v_length s"
  "v_data_available (cksum_pclmul_L646_L676 s) = v_data_available s"
  "v_next_buf (cksum_pclmul_L646_L676 s) = v_next_buf s"
  by (simp_all add: cksum_pclmul_L646_L676_def Let_def)

text \<open>Lines 680 to 683 of the source.\<close>

definition cksum_pclmul_L680_L683 :: "m128i simd_vars \<Rightarrow> m128i simd_vars" where
  "cksum_pclmul_L680_L683 s0 =
     (let s = s0;
          s = s\<lparr>v_batch_size_read := of_nat (length (fst (fread (pclmul_BUFLEN div 2) (v_fp s)))),
              v_buf := store_bytes (v_buf s) (16 * v_next_buf s) (fst (fread (pclmul_BUFLEN div 2) (v_fp s))),
              v_fp := snd (fread (pclmul_BUFLEN div 2) (v_fp s)),
              v_ub := v_ub s \<or> 16 * pclmul_BUFLEN_WORDS < 16 * v_next_buf s + (pclmul_BUFLEN div 2)\<rparr>;
          s = s\<lparr>v_next_buf := v_next_buf s XOR ((pclmul_BUFLEN_WORDS div 2))\<rparr>;
          s = s\<lparr>v_data_available := (v_batch_size_read s \<noteq> 0)\<rparr>;
          s = s\<lparr>v_bytes_read := v_bytes_read s + v_batch_size_read s\<rparr>
      in s)"

text \<open>Line 690 of the source.\<close>

definition cksum_pclmul_L690_L690 :: "m128i simd_vars \<Rightarrow> m128i simd_vars" where
  "cksum_pclmul_L690_L690 s0 =
     (let s = s0;
          s = s\<lparr>v_length := v_length s + v_batch_size_read s\<rparr>
      in s)"

text \<open>\<^verbatim>\<open>if (bytes_read < (BUFLEN / 2) && data_available)\<close>, lines 678 to 691.\<close>

definition cksum_pclmul_if_L678 :: "m128i simd_vars \<Rightarrow> error + m128i simd_vars" where
  "cksum_pclmul_if_L678 s =
     (if v_bytes_read s < of_nat ((pclmul_BUFLEN div 2)) \<and> v_data_available s
      then err_seq
        [ok cksum_pclmul_L680_L683,
         (\<lambda>s. if v_length s + v_batch_size_read s < v_length s then Inl LENGTH_OVERFLOW else Inr s),
         ok cksum_pclmul_L690_L690] s
      else Inr s)"

text \<open>\<^verbatim>\<open>if (bytes_read >= 512*2 + 64 + 16 * 8)\<close>, lines 123 to 692.\<close>

definition cksum_pclmul_if_L123 :: "m128i simd_vars \<Rightarrow> error + m128i simd_vars" where
  "cksum_pclmul_if_L123 s =
     (if 512 * 2 + 64 + 16 * 8 \<le> v_bytes_read s
      then err_seq
        [cksum_pclmul_while_L125,
         ok cksum_pclmul_L429_L459,
         ok cksum_pclmul_L460_L490,
         ok cksum_pclmul_L491_L521,
         ok cksum_pclmul_L522_L552,
         ok cksum_pclmul_L553_L583,
         ok cksum_pclmul_L584_L614,
         ok cksum_pclmul_L615_L645,
         ok cksum_pclmul_L646_L676,
         cksum_pclmul_if_L678] s
      else Inr s)"

text \<open>Lines 696 to 736 of the source.\<close>

definition cksum_pclmul_L696_L736 :: "m128i simd_vars \<Rightarrow> m128i simd_vars" where
  "cksum_pclmul_L696_L736 s0 =
     (let s = s0;
          s = s\<lparr>v_data_offset := v_data_offset s + 4, v_ub := v_ub s \<or> INT_MAX < v_data_offset s + 4\<rparr>;
          s = s\<lparr>v_data2 := mm_clmulepi64_si128 (v_data s) pclmul_four_mult_constant 0x00\<rparr>;
          s = s\<lparr>v_data := mm_clmulepi64_si128 (v_data s) pclmul_four_mult_constant 0x11\<rparr>;
          s = s\<lparr>v_data4 := mm_clmulepi64_si128 (v_data3 s) pclmul_four_mult_constant 0x00\<rparr>;
          s = s\<lparr>v_data3 := mm_clmulepi64_si128 (v_data3 s) pclmul_four_mult_constant 0x11\<rparr>;
          s = s\<lparr>v_data6 := mm_clmulepi64_si128 (v_data5 s) pclmul_four_mult_constant 0x00\<rparr>;
          s = s\<lparr>v_data5 := mm_clmulepi64_si128 (v_data5 s) pclmul_four_mult_constant 0x11\<rparr>;
          s = s\<lparr>v_data8 := mm_clmulepi64_si128 (v_data7 s) pclmul_four_mult_constant 0x00\<rparr>;
          s = s\<lparr>v_data7 := mm_clmulepi64_si128 (v_data7 s) pclmul_four_mult_constant 0x11\<rparr>;
          s = s\<lparr>v_data := mm_xor_si128 (v_data s) (v_data2 s)\<rparr>;
          s = s\<lparr>v_data2 := mm_loadu_si128 (v_buf s) (16 * (v_data_offset s mod pclmul_BUFLEN_WORDS)),
              v_ub := v_ub s \<or> pclmul_BUFLEN_WORDS < v_data_offset s mod pclmul_BUFLEN_WORDS + 1\<rparr>;
          s = s\<lparr>v_data2 := mm_shuffle_epi8 (v_data2 s) pclmul_shuffle_constant\<rparr>;
          s = s\<lparr>v_data := mm_xor_si128 (v_data s) (v_data2 s)\<rparr>;
          s = s\<lparr>v_data3 := mm_xor_si128 (v_data3 s) (v_data4 s)\<rparr>;
          s = s\<lparr>v_data4 := mm_loadu_si128 (v_buf s) (16 * (v_data_offset s mod pclmul_BUFLEN_WORDS + 1)),
              v_ub := v_ub s \<or> pclmul_BUFLEN_WORDS < v_data_offset s mod pclmul_BUFLEN_WORDS + 1 + 1\<rparr>;
          s = s\<lparr>v_data4 := mm_shuffle_epi8 (v_data4 s) pclmul_shuffle_constant\<rparr>;
          s = s\<lparr>v_data3 := mm_xor_si128 (v_data3 s) (v_data4 s)\<rparr>;
          s = s\<lparr>v_data5 := mm_xor_si128 (v_data5 s) (v_data6 s)\<rparr>;
          s = s\<lparr>v_data6 := mm_loadu_si128 (v_buf s) (16 * (v_data_offset s mod pclmul_BUFLEN_WORDS + 2)),
              v_ub := v_ub s \<or> pclmul_BUFLEN_WORDS < v_data_offset s mod pclmul_BUFLEN_WORDS + 2 + 1\<rparr>;
          s = s\<lparr>v_data6 := mm_shuffle_epi8 (v_data6 s) pclmul_shuffle_constant\<rparr>;
          s = s\<lparr>v_data5 := mm_xor_si128 (v_data5 s) (v_data6 s)\<rparr>;
          s = s\<lparr>v_data7 := mm_xor_si128 (v_data7 s) (v_data8 s)\<rparr>;
          s = s\<lparr>v_data8 := mm_loadu_si128 (v_buf s) (16 * (v_data_offset s mod pclmul_BUFLEN_WORDS + 3)),
              v_ub := v_ub s \<or> pclmul_BUFLEN_WORDS < v_data_offset s mod pclmul_BUFLEN_WORDS + 3 + 1\<rparr>;
          s = s\<lparr>v_data8 := mm_shuffle_epi8 (v_data8 s) pclmul_shuffle_constant\<rparr>;
          s = s\<lparr>v_data7 := mm_xor_si128 (v_data7 s) (v_data8 s)\<rparr>;
          s = s\<lparr>v_bytes_read := v_bytes_read s - (16 * 4)\<rparr>
      in s)"

lemma cksum_pclmul_L696_L736_scalars [simp]:
  "v_bytes_read (cksum_pclmul_L696_L736 s) = v_bytes_read s - 64"
  "v_fp (cksum_pclmul_L696_L736 s) = v_fp s"
  "v_length (cksum_pclmul_L696_L736 s) = v_length s"
  "v_data_available (cksum_pclmul_L696_L736 s) = v_data_available s"
  "v_next_buf (cksum_pclmul_L696_L736 s) = v_next_buf s"
  by (simp_all add: cksum_pclmul_L696_L736_def Let_def)

text \<open>The body of \<^verbatim>\<open>while (bytes_read >= 16 * 8)\<close>, lines 694 to 737.\<close>

definition cksum_pclmul_while_L694_body :: "m128i simd_vars \<Rightarrow> error + m128i simd_vars" where
  "cksum_pclmul_while_L694_body =
     err_seq
        [ok cksum_pclmul_L696_L736]"

function cksum_pclmul_while_L694 :: "m128i simd_vars \<Rightarrow> error + m128i simd_vars" where
  "cksum_pclmul_while_L694 s =
     (if 16 * 8 \<le> v_bytes_read s
      then (case cksum_pclmul_while_L694_body s of Inl e \<Rightarrow> Inl e | Inr s' \<Rightarrow> cksum_pclmul_while_L694 s')
      else Inr s)"
  by pat_completeness auto
termination
  apply (relation "measure (\<lambda>s. unat (v_bytes_read s))")
   apply simp
  apply (clarsimp simp: cksum_pclmul_while_L694_body_def ok_def)
  apply (rule word_sub_decreases[where n = 128]; simp)
  done

declare cksum_pclmul_while_L694.simps [simp del]

text \<open>Lines 740 to 751 of the source.\<close>

definition cksum_pclmul_L740_L751 :: "m128i simd_vars \<Rightarrow> m128i simd_vars" where
  "cksum_pclmul_L740_L751 s0 =
     (let s = s0;
          s = s\<lparr>v_data := mm_shuffle_epi8 (v_data s) pclmul_shuffle_constant\<rparr>;
          s = s\<lparr>v_buf := mm_storeu_si128 (v_buf s) (16 * (v_data_offset s mod pclmul_BUFLEN_WORDS)) (v_data s),
              v_ub := v_ub s \<or> pclmul_BUFLEN_WORDS < v_data_offset s mod pclmul_BUFLEN_WORDS + 1\<rparr>;
          s = s\<lparr>v_data3 := mm_shuffle_epi8 (v_data3 s) pclmul_shuffle_constant\<rparr>;
          s = s\<lparr>v_buf := mm_storeu_si128 (v_buf s) (16 * (v_data_offset s mod pclmul_BUFLEN_WORDS + 1)) (v_data3 s),
              v_ub := v_ub s \<or> pclmul_BUFLEN_WORDS < v_data_offset s mod pclmul_BUFLEN_WORDS + 1 + 1\<rparr>;
          s = s\<lparr>v_data5 := mm_shuffle_epi8 (v_data5 s) pclmul_shuffle_constant\<rparr>;
          s = s\<lparr>v_buf := mm_storeu_si128 (v_buf s) (16 * (v_data_offset s mod pclmul_BUFLEN_WORDS + 2)) (v_data5 s),
              v_ub := v_ub s \<or> pclmul_BUFLEN_WORDS < v_data_offset s mod pclmul_BUFLEN_WORDS + 2 + 1\<rparr>;
          s = s\<lparr>v_data7 := mm_shuffle_epi8 (v_data7 s) pclmul_shuffle_constant\<rparr>;
          s = s\<lparr>v_buf := mm_storeu_si128 (v_buf s) (16 * (v_data_offset s mod pclmul_BUFLEN_WORDS + 3)) (v_data7 s),
              v_ub := v_ub s \<or> pclmul_BUFLEN_WORDS < v_data_offset s mod pclmul_BUFLEN_WORDS + 3 + 1\<rparr>
      in s)"

lemma cksum_pclmul_L740_L751_scalars [simp]:
  "v_bytes_read (cksum_pclmul_L740_L751 s) = v_bytes_read s"
  "v_fp (cksum_pclmul_L740_L751 s) = v_fp s"
  "v_length (cksum_pclmul_L740_L751 s) = v_length s"
  "v_data_available (cksum_pclmul_L740_L751 s) = v_data_available s"
  "v_next_buf (cksum_pclmul_L740_L751 s) = v_next_buf s"
  by (simp_all add: cksum_pclmul_L740_L751_def Let_def)

text \<open>\<^verbatim>\<open>if (bytes_read >= 16 * 8)\<close>, lines 103 to 752.\<close>

definition cksum_pclmul_if_L103 :: "m128i simd_vars \<Rightarrow> error + m128i simd_vars" where
  "cksum_pclmul_if_L103 s =
     (if 16 * 8 \<le> v_bytes_read s
      then err_seq
        [ok cksum_pclmul_L105_L120,
         cksum_pclmul_if_L123,
         cksum_pclmul_while_L694,
         ok cksum_pclmul_L740_L751] s
      else Inr s)"

text \<open>Lines 757 to 761 of the source.\<close>

definition cksum_pclmul_L757_L761 :: "m128i simd_vars \<Rightarrow> m128i simd_vars" where
  "cksum_pclmul_L757_L761 s0 =
     (let s = s0;
          s = s\<lparr>v_data := mm_loadu_si128 (v_buf s) (16 * (v_data_offset s mod pclmul_BUFLEN_WORDS)),
              v_ub := v_ub s \<or> pclmul_BUFLEN_WORDS < v_data_offset s mod pclmul_BUFLEN_WORDS + 1\<rparr>;
          s = s\<lparr>v_data := mm_shuffle_epi8 (v_data s) pclmul_shuffle_constant\<rparr>;
          s = s\<lparr>v_xor_crc := mm_set_epi32 (ucast (v_crc s)) 0 0 0\<rparr>;
          s = s\<lparr>v_crc := 0\<rparr>;
          s = s\<lparr>v_data := mm_xor_si128 (v_data s) (v_xor_crc s)\<rparr>
      in s)"

lemma cksum_pclmul_L757_L761_scalars [simp]:
  "v_bytes_read (cksum_pclmul_L757_L761 s) = v_bytes_read s"
  "v_fp (cksum_pclmul_L757_L761 s) = v_fp s"
  "v_length (cksum_pclmul_L757_L761 s) = v_length s"
  "v_data_available (cksum_pclmul_L757_L761 s) = v_data_available s"
  "v_next_buf (cksum_pclmul_L757_L761 s) = v_next_buf s"
  by (simp_all add: cksum_pclmul_L757_L761_def Let_def)

text \<open>Lines 764 to 775 of the source.\<close>

definition cksum_pclmul_L764_L775 :: "m128i simd_vars \<Rightarrow> m128i simd_vars" where
  "cksum_pclmul_L764_L775 s0 =
     (let s = s0;
          s = s\<lparr>v_data_offset := v_data_offset s + 1, v_ub := v_ub s \<or> INT_MAX < v_data_offset s + 1\<rparr>;
          s = s\<lparr>v_data2 := mm_clmulepi64_si128 (v_data s) pclmul_single_mult_constant 0x00\<rparr>;
          s = s\<lparr>v_data := mm_clmulepi64_si128 (v_data s) pclmul_single_mult_constant 0x11\<rparr>;
          s = s\<lparr>v_fold_data := mm_loadu_si128 (v_buf s) (16 * (v_data_offset s mod pclmul_BUFLEN_WORDS)),
              v_ub := v_ub s \<or> pclmul_BUFLEN_WORDS < v_data_offset s mod pclmul_BUFLEN_WORDS + 1\<rparr>;
          s = s\<lparr>v_fold_data := mm_shuffle_epi8 (v_fold_data s) pclmul_shuffle_constant\<rparr>;
          s = s\<lparr>v_data := mm_xor_si128 (v_data s) (v_data2 s)\<rparr>;
          s = s\<lparr>v_data := mm_xor_si128 (v_data s) (v_fold_data s)\<rparr>;
          s = s\<lparr>v_bytes_read := v_bytes_read s - 16\<rparr>
      in s)"

lemma cksum_pclmul_L764_L775_scalars [simp]:
  "v_bytes_read (cksum_pclmul_L764_L775 s) = v_bytes_read s - 16"
  "v_fp (cksum_pclmul_L764_L775 s) = v_fp s"
  "v_length (cksum_pclmul_L764_L775 s) = v_length s"
  "v_data_available (cksum_pclmul_L764_L775 s) = v_data_available s"
  "v_next_buf (cksum_pclmul_L764_L775 s) = v_next_buf s"
  by (simp_all add: cksum_pclmul_L764_L775_def Let_def)

text \<open>The body of \<^verbatim>\<open>while (bytes_read >= 32)\<close>, lines 762 to 776.\<close>

definition cksum_pclmul_while_L762_body :: "m128i simd_vars \<Rightarrow> error + m128i simd_vars" where
  "cksum_pclmul_while_L762_body =
     err_seq
        [ok cksum_pclmul_L764_L775]"

function cksum_pclmul_while_L762 :: "m128i simd_vars \<Rightarrow> error + m128i simd_vars" where
  "cksum_pclmul_while_L762 s =
     (if 32 \<le> v_bytes_read s
      then (case cksum_pclmul_while_L762_body s of Inl e \<Rightarrow> Inl e | Inr s' \<Rightarrow> cksum_pclmul_while_L762 s')
      else Inr s)"
  by pat_completeness auto
termination
  apply (relation "measure (\<lambda>s. unat (v_bytes_read s))")
   apply simp
  apply (clarsimp simp: cksum_pclmul_while_L762_body_def ok_def)
  apply (rule word_sub_decreases[where n = 32]; simp)
  done

declare cksum_pclmul_while_L762.simps [simp del]

text \<open>Lines 777 to 779 of the source.\<close>

definition cksum_pclmul_L777_L779 :: "m128i simd_vars \<Rightarrow> m128i simd_vars" where
  "cksum_pclmul_L777_L779 s0 =
     (let s = s0;
          s = s\<lparr>v_data := mm_shuffle_epi8 (v_data s) pclmul_shuffle_constant\<rparr>;
          s = s\<lparr>v_buf := mm_storeu_si128 (v_buf s) (16 * (v_data_offset s mod pclmul_BUFLEN_WORDS)) (v_data s),
              v_ub := v_ub s \<or> pclmul_BUFLEN_WORDS < v_data_offset s mod pclmul_BUFLEN_WORDS + 1\<rparr>
      in s)"

lemma cksum_pclmul_L777_L779_scalars [simp]:
  "v_bytes_read (cksum_pclmul_L777_L779 s) = v_bytes_read s"
  "v_fp (cksum_pclmul_L777_L779 s) = v_fp s"
  "v_length (cksum_pclmul_L777_L779 s) = v_length s"
  "v_data_available (cksum_pclmul_L777_L779 s) = v_data_available s"
  "v_next_buf (cksum_pclmul_L777_L779 s) = v_next_buf s"
  by (simp_all add: cksum_pclmul_L777_L779_def Let_def)

text \<open>\<^verbatim>\<open>if (bytes_read >= 32)\<close>, lines 755 to 780.\<close>

definition cksum_pclmul_if_L755 :: "m128i simd_vars \<Rightarrow> error + m128i simd_vars" where
  "cksum_pclmul_if_L755 s =
     (if 32 \<le> v_bytes_read s
      then err_seq
        [ok cksum_pclmul_L757_L761,
         cksum_pclmul_while_L762,
         ok cksum_pclmul_L777_L779] s
      else Inr s)"

text \<open>Lines 783 to 784 of the source.\<close>

definition cksum_pclmul_L783_L784 :: "m128i simd_vars \<Rightarrow> m128i simd_vars" where
  "cksum_pclmul_L783_L784 s0 =
     (let s = s0;
          s = s\<lparr>v_cp := v_data_offset s mod pclmul_BUFLEN_WORDS\<rparr>
      in s)"

lemma cksum_pclmul_L783_L784_scalars [simp]:
  "v_bytes_read (cksum_pclmul_L783_L784 s) = v_bytes_read s"
  "v_fp (cksum_pclmul_L783_L784 s) = v_fp s"
  "v_length (cksum_pclmul_L783_L784 s) = v_length s"
  "v_data_available (cksum_pclmul_L783_L784 s) = v_data_available s"
  "v_next_buf (cksum_pclmul_L783_L784 s) = v_next_buf s"
  by (simp_all add: cksum_pclmul_L783_L784_def Let_def)

text \<open>The last loop, lines 785 to 786: \<^verbatim>\<open>while (bytes_read--) crc = (crc << 8) ^ crctab[0][((crc >> 24) ^ *cp++) & 0xFF];\<close>\<close>

function cksum_pclmul_while_L785 :: "m128i simd_vars \<Rightarrow> m128i simd_vars" where
  "cksum_pclmul_while_L785 s =
     (if v_bytes_read s \<noteq> 0
      then cksum_pclmul_while_L785
             (s\<lparr>v_bytes_read := v_bytes_read s - 1,
                v_crc := crc_byte_rule (v_crc s) (ucast (v_buf s (v_cp s))),
                v_cp := v_cp s + 1,
                v_ub := v_ub s \<or> 16 * pclmul_BUFLEN_WORDS \<le> v_cp s\<rparr>)
      else s\<lparr>v_bytes_read := v_bytes_read s - 1\<rparr>)"
  by pat_completeness auto
termination
  apply (relation "measure (\<lambda>s. unat (v_bytes_read s))")
   apply simp
  apply (simp add: unat_minus_one unat_gt_0)
  done

declare cksum_pclmul_while_L785.simps [simp del]

text \<open>\<^verbatim>\<open>if (bytes_read > 0)\<close>, lines 74 to 787.\<close>

definition cksum_pclmul_if_L74 :: "m128i simd_vars \<Rightarrow> error + m128i simd_vars" where
  "cksum_pclmul_if_L74 s =
     (if 0 < v_bytes_read s
      then err_seq
        [ok cksum_pclmul_L77_L91,
         (\<lambda>s. if v_length s + v_bytes_read s < v_length s then Inl LENGTH_OVERFLOW else Inr s),
         ok cksum_pclmul_L98_L98,
         cksum_pclmul_if_L103,
         cksum_pclmul_if_L755,
         ok cksum_pclmul_L783_L784,
         ok cksum_pclmul_while_L785] s
      else Inr s)"

text \<open>The statements of \<^verbatim>\<open>cksum_pclmul\<close> from the declarations to the end of \<^verbatim>\<open>if (bytes_read > 0)\<close>.\<close>

definition cksum_pclmul_body :: "m128i simd_vars \<Rightarrow> error + m128i simd_vars" where
  "cksum_pclmul_body =
     err_seq
        [ok cksum_pclmul_L40_L73,
         cksum_pclmul_if_L74]"

text \<open>
  \<^verbatim>\<open>cksum_pclmul (fp, crc_out, length_out)\<close>. The first argument is what the stack frame
  holds when the function is entered: the values of the variables that have no
  initialiser and the contents of \<^verbatim>\<open>buf\<close>. A null \<^verbatim>\<open>fp\<close> is \<open>None\<close>; the two result pointers
  are the pair that is returned, \<^verbatim>\<open>*crc_out = crc; *length_out = length;\<close>, when the
  function returns \<^verbatim>\<open>!ferror (fp)\<close> as true.
\<close>

definition cksum_pclmul :: "m128i simd_vars \<Rightarrow> FILE option \<Rightarrow> error + (u64 \<times> u64)" where
  "cksum_pclmul stack fpo =
     (case fpo of
        None \<Rightarrow> Inl INVALID_ARGUMENT
      | Some fp \<Rightarrow>
          (case cksum_pclmul_body (stack\<lparr>v_fp := fp, v_ub := False\<rparr>) of
             Inl e \<Rightarrow> Inl e
           | Inr s \<Rightarrow>
               if v_ub s then Inl UNDEFINED_BEHAVIOR
               else if ferror (v_fp s) then Inl IO_ERROR
               else Inr (v_crc s, v_length s)))"

section \<open>The reference of the specification\<close>

text \<open>
  The byte rule as the specification states it, on a 32-bit register:
  \<open>state \<leftarrow> (state \<lless> 8) XOR T\<^sub>0[((state \<ggreater> 24) XOR byte) AND 0xFF]\<close>, with \<open>T\<^sub>0\<close> the first
  of the eight tables. \<open>crc_bytes state bs\<close> applies it to the bytes of \<open>bs\<close> in
  order; the CRC of a message is \<open>crc_bytes 0\<close> of it.
\<close>

definition crc_update :: "u32 \<Rightarrow> u8 \<Rightarrow> u32" where
  "crc_update state byte =
     push_bit 8 state
     XOR ucast (crctab 0 (unat ((drop_bit 24 state XOR ucast byte) AND 0xFF)))"

definition crc_bytes :: "u32 \<Rightarrow> u8 list \<Rightarrow> u32" where
  "crc_bytes state bs = foldl crc_update state bs"

text \<open>
  The length bytes of the final fold. \<open>length_bytes_le n\<close> is the minimal encoding of
  \<open>n\<close> with the least significant byte first (no trailing zero byte, empty for 0);
  \<open>length_bytes_be n\<close> is the minimal big-endian encoding that the specification names
  (most significant byte first, no leading zero byte, empty for 0).
\<close>

function length_bytes_le :: "nat \<Rightarrow> u8 list" where
  "length_bytes_le n = (if n = 0 then [] else of_nat (n mod 256) # length_bytes_le (n div 256))"
  by pat_completeness auto
termination
  by (relation "measure (\<lambda>n. n)") auto

declare length_bytes_le.simps [simp del]

definition length_bytes_be :: "nat \<Rightarrow> u8 list" where
  "length_bytes_be n = rev (length_bytes_le n)"

section \<open>Polynomials over GF(2) modulo the generator\<close>

text \<open>
  The generator is \<open>G(x) = x\<^sup>3\<^sup>2 + x\<^sup>2\<^sup>6 + \<dots> + x + 1\<close>; its low 32 bits are the constant
  \<open>0x04C11DB7\<close>. A remainder modulo \<open>G\<close> is a polynomial of degree below 32, held in a
  32-bit word with the coefficient of \<open>x\<^sup>i\<close> in bit \<open>i\<close>.

  \<open>xtime p\<close> is \<open>x \<cdot> p mod G\<close>: the shift, and \<open>G\<close> subtracted once when the degree
  reaches 32. \<open>poly_rem cs\<close> is the remainder modulo \<open>G\<close> of the polynomial whose
  coefficients are \<open>cs\<close>, highest degree first: long division, one coefficient at a
  time, by \<open>rem (x \<cdot> P + c) = x \<cdot> rem P + c mod G\<close>.
\<close>

definition xtime :: "u32 \<Rightarrow> u32" where
  "xtime p = (if bit p 31 then push_bit 1 p XOR 0x04C11DB7 else push_bit 1 p)"

definition poly_rem_step :: "u32 \<Rightarrow> bool \<Rightarrow> u32" where
  "poly_rem_step p c = xtime p XOR (if c then 1 else 0)"

definition poly_rem :: "bool list \<Rightarrow> u32" where
  "poly_rem cs = foldl poly_rem_step 0 cs"

text \<open>
  The bits of a byte, most significant first (the ordering is unreflected), the
  polynomial of a message, and the CRC of a message as the specification defines it:
  the remainder of \<open>M(x) \<cdot> x\<^sup>3\<^sup>2\<close> modulo \<open>G\<close>. \<open>x_pow_mod n\<close> is \<open>x\<^sup>n mod G\<close>.
\<close>

definition byte_bits :: "u8 \<Rightarrow> bool list" where
  "byte_bits b = [bit b 7, bit b 6, bit b 5, bit b 4, bit b 3, bit b 2, bit b 1, bit b 0]"

definition message_poly :: "u8 list \<Rightarrow> bool list" where
  "message_poly bs = concat (map byte_bits bs)"

definition poly_crc :: "u8 list \<Rightarrow> u32" where
  "poly_crc bs = poly_rem (message_poly bs @ replicate 32 False)"

definition x_pow_mod :: "nat \<Rightarrow> u32" where
  "x_pow_mod n = poly_rem (True # replicate n False)"

chapter \<open>Verification\<close>

section \<open>The table and the byte rule as linear maps\<close>

lemma GEN_val: "GEN = 0x04C11DB7" by (simp add: GEN_def BIT_def)

lemma BIT_and_iff: "BIT i AND m \<noteq> 0 \<longleftrightarrow> bit m i"
  unfolding BIT_def
  by (metis and.commute and_exp_eq_0_iff_not_bit push_bit_of_1)

definition sel :: "u64 \<Rightarrow> nat \<Rightarrow> u64" where
  "sel m i = (if bit m i then fill_r i else 0)"

lemma crc_remainder_step_sel: "crc_remainder_step m rem i = rem XOR sel m i"
  by (simp add: crc_remainder_step_def BIT_and_iff sel_def)

lemma crc_remainder_sel:
  "crc_remainder m = (sel m 0 XOR sel m 1 XOR sel m 2 XOR sel m 3 XOR sel m 4 XOR sel m 5 XOR sel m 6 XOR sel m 7) AND 0xFFFFFFFF"
  by (simp only: crc_remainder_def foldl.simps crc_remainder_step_sel xor.left_neutral xor.assoc)

lemma sel_xor: "sel (a XOR b) i = sel a i XOR sel b i"
  by (simp add: sel_def bit_xor_iff)

lemma crc_remainder_xor: "crc_remainder (a XOR b) = crc_remainder a XOR crc_remainder b"
  by (simp only: crc_remainder_sel sel_xor bit.conj_xor_distrib2 xor.assoc xor.left_commute xor.commute)

lemma and_FF: "(x::'a::len word) AND 0xFF = take_bit 8 x"
  by (simp add: take_bit_eq_mask mask_eq_exp_minus_1)

lemma and_FFFFFFFF: "(x::'a::len word) AND 0xFFFFFFFF = take_bit 32 x"
  by (simp add: take_bit_eq_mask mask_eq_exp_minus_1)

lemma sel_mask: "i < 8 \<Longrightarrow> sel (m AND 0xFF) i = sel m i"
  unfolding and_FF by (simp add: sel_def bit_simps)

lemma crc_remainder_mask: "crc_remainder (m AND 0xFF) = crc_remainder m"
  by (simp only: crc_remainder_sel) (simp add: sel_mask del: fill_r.simps)

lemma crc_remainder_0: "crc_remainder 0 = 0"
  by (simp only: crc_remainder_sel) (simp add: sel_def)

lemma crc_remainder_lt: "crc_remainder m AND 0xFFFFFFFF = crc_remainder m"
  by (simp add: crc_remainder_def and.assoc)

definition R :: "u32 \<Rightarrow> u32" where
  "R x = ucast (crc_remainder (ucast x))"

definition Z :: "u32 \<Rightarrow> u32" where
  "Z s = push_bit 8 s XOR R (drop_bit 24 s)"

lemma ucast_xor_w: "(ucast (a XOR b :: 'a::len word) :: 'b::len word) = ucast a XOR ucast b"
  by (rule bit_word_eqI) (auto simp: bit_simps)

lemma ucast_and_w: "(ucast (a AND b :: 'a::len word) :: 'b::len word) = ucast a AND ucast b"
  by (rule bit_word_eqI) (auto simp: bit_simps)

lemma R_xor: "R (a XOR b) = R a XOR R b"
  by (simp add: R_def ucast_xor_w crc_remainder_xor)

lemma R_0: "R 0 = 0"
  by (simp add: R_def crc_remainder_0)

lemma ucast_FF: "(ucast (0xFF :: u32) :: u64) = 0xFF" by simp

lemma R_mask: "R (x AND 0xFF) = R x"
  by (simp add: R_def ucast_and_w crc_remainder_mask)

lemma crc_remainder_ucast: "(ucast (ucast (crc_remainder m) :: u32) :: u64) = crc_remainder m"
proof -
  have "(ucast (ucast (crc_remainder m) :: u32) :: u64) = crc_remainder m AND mask 32"
    by (rule bit_word_eqI) (auto simp: bit_simps)
  also have "\<dots> = crc_remainder m" using crc_remainder_lt[of m] by (simp add: mask_eq_exp_minus_1)
  finally show ?thesis .
qed

lemma Z_xor: "Z (a XOR b) = Z a XOR Z b"
  by (simp add: Z_def R_xor push_bit_xor drop_bit_xor xor.assoc xor.left_commute) 

lemma Z_0: "Z 0 = 0" by (simp add: Z_def R_0)

lemma R_eqI: "x AND 0xFF = y AND 0xFF \<Longrightarrow> R x = R y"
  by (metis R_mask)

lemma low8_eqI: "(\<And>i. i < 8 \<Longrightarrow> bit x i = bit y i) \<Longrightarrow> (x::u32) AND 0xFF = y AND 0xFF"
  unfolding and_FF by (rule bit_word_eqI) (auto simp: bit_simps)

lemma R_drop_push8: "R (drop_bit 24 (push_bit 8 x)) = R (drop_bit 16 x)"
  by (rule R_eqI, rule low8_eqI) (auto simp: bit_simps)

lemma R_drop_push16: "R (drop_bit 24 (push_bit 16 x)) = R (drop_bit 8 x)"
  by (rule R_eqI, rule low8_eqI) (auto simp: bit_simps)

lemma R_drop_push24: "R (drop_bit 24 (push_bit 24 x)) = R x"
  by (rule R_eqI, rule low8_eqI) (auto simp: bit_simps)

lemma Z_push8: "Z (push_bit 8 x) = push_bit 16 x XOR R (drop_bit 16 x)"
  by (simp add: Z_def R_drop_push8)

lemma Z_push16: "Z (push_bit 16 x) = push_bit 24 x XOR R (drop_bit 8 x)"
  by (simp add: Z_def R_drop_push16)

lemma Z_push24: "Z (push_bit 24 x) = R x"
  by (simp add: Z_def R_drop_push24)

definition Z2 :: "u32 \<Rightarrow> u32" where "Z2 x = Z (Z x)"
definition Z4 :: "u32 \<Rightarrow> u32" where "Z4 x = Z2 (Z2 x)"

lemma Z4_expand:
  "Z4 x = Z (Z (Z (R (drop_bit 24 x)))) XOR Z (Z (R (drop_bit 16 x))) XOR Z (R (drop_bit 8 x)) XOR R x"
proof -
  have 1: "Z x = push_bit 8 x XOR R (drop_bit 24 x)" by (simp add: Z_def)
  have 2: "Z (Z x) = push_bit 16 x XOR R (drop_bit 16 x) XOR Z (R (drop_bit 24 x))"
    by (simp add: 1 Z_xor Z_push8 xor.assoc)
  have 3: "Z (Z (Z x)) = push_bit 24 x XOR R (drop_bit 8 x) XOR Z (R (drop_bit 16 x)) XOR Z (Z (R (drop_bit 24 x)))"
    by (simp add: 2 Z_xor Z_push16 xor.assoc)
  have 4: "Z (Z (Z (Z x))) = R x XOR Z (R (drop_bit 8 x)) XOR Z (Z (R (drop_bit 16 x))) XOR Z (Z (Z (R (drop_bit 24 x))))"
    by (simp add: 3 Z_xor Z_push24 xor.assoc)
  show ?thesis by (simp add: Z4_def Z2_def 4 xor.assoc xor.left_commute xor.commute)
qed

lemma Z2_xor: "Z2 (a XOR b) = Z2 a XOR Z2 b" by (simp add: Z2_def Z_xor)
lemma Z4_xor: "Z4 (a XOR b) = Z4 a XOR Z4 b" by (simp add: Z4_def Z2_xor)

text \<open>bytes enter at the top\<close>
lemma Z_byte_low:
  assumes "k \<le> 16"
  shows "Z (y XOR push_bit k (ucast (b :: u8))) = Z y XOR push_bit (k + 8) (ucast b)"
proof -
  have "drop_bit 24 (push_bit k (ucast b :: u32)) AND 0xFF = 0 AND 0xFF"
    apply (rule low8_eqI) using assms by (auto simp: bit_simps dest: bit_imp_le_length)
  then have "R (drop_bit 24 (push_bit k (ucast b :: u32))) = 0" using R_eqI R_0 by metis
  then show ?thesis by (simp add: Z_xor Z_def[of "push_bit k (ucast b)"] push_bit_add add.commute)
qed

lemma crctab0_unat: "crctab 0 (unat (x :: u64)) = crc_remainder x" by simp
lemma crctab0_unat32: "crctab 0 (unat (x :: u32)) = crc_remainder (ucast x)" by simp

lemma crc_update_Z: "crc_update s b = Z (s XOR push_bit 24 (ucast b))"
proof -
  have "crc_update s b = push_bit 8 s XOR R (drop_bit 24 s XOR ucast b)"
    by (simp add: crc_update_def R_def crc_remainder_mask ucast_and_w)
  moreover have "R (drop_bit 24 (s XOR push_bit 24 (ucast b))) = R (drop_bit 24 s XOR ucast b)"
    by (rule R_eqI, rule low8_eqI) (auto simp: bit_simps)
  moreover have "push_bit 8 (s XOR push_bit 24 (ucast b)) = push_bit 8 s"
    by (rule bit_word_eqI) (auto simp: bit_simps)
  ultimately show ?thesis by (simp add: Z_def)
qed

definition be32 :: "u8 \<Rightarrow> u8 \<Rightarrow> u8 \<Rightarrow> u8 \<Rightarrow> u32" where
  "be32 b0 b1 b2 b3 = push_bit 24 (ucast b0) XOR push_bit 16 (ucast b1) XOR push_bit 8 (ucast b2) XOR ucast b3"

lemma and_FF00: "(x :: u32) AND 0xFF00 = push_bit 8 (take_bit 8 (drop_bit 8 x))"
proof -
  have "(0xFF00 :: u32) = push_bit 8 (mask 8)" by (simp add: push_bit_eq_mult mask_eq_exp_minus_1)
  show ?thesis unfolding \<open>(0xFF00 :: u32) = push_bit 8 (mask 8)\<close>
    by (rule bit_word_eqI) (auto simp: bit_simps)
qed

lemma htobe32_alt:
  "htobe32 x = push_bit 24 (take_bit 8 x) OR push_bit 16 (take_bit 8 (drop_bit 8 x))
               OR push_bit 8 (take_bit 8 (drop_bit 16 x)) OR take_bit 8 (drop_bit 24 x)"
  unfolding htobe32_def and_FF and_FF00 by (simp add: drop_bit_drop_bit)

lemma load_u32_b0: "take_bit 8 (load_u32 b0 b1 b2 b3) = ucast b0"
  unfolding load_u32_def by (rule bit_word_eqI) (auto simp: bit_simps dest: bit_imp_le_length)
lemma load_u32_b1: "take_bit 8 (drop_bit 8 (load_u32 b0 b1 b2 b3)) = ucast b1"
  unfolding load_u32_def by (rule bit_word_eqI) (auto simp: bit_simps dest: bit_imp_le_length)
lemma load_u32_b2: "take_bit 8 (drop_bit 16 (load_u32 b0 b1 b2 b3)) = ucast b2"
  unfolding load_u32_def by (rule bit_word_eqI) (auto simp: bit_simps dest: bit_imp_le_length)
lemma load_u32_b3: "take_bit 8 (drop_bit 24 (load_u32 b0 b1 b2 b3)) = ucast b3"
  unfolding load_u32_def by (rule bit_word_eqI) (auto simp: bit_simps dest: bit_imp_le_length)

lemma or_xor_disj: "(a :: 'a::len word) AND b = 0 \<Longrightarrow> a OR b = a XOR b"
  by (rule bit_word_eqI) (auto simp: bit_simps bit_eq_iff)

lemma be32_or: "push_bit 24 (ucast (b0::u8)) OR push_bit 16 (ucast (b1::u8)) OR push_bit 8 (ucast (b2::u8)) OR ucast (b3::u8) = be32 b0 b1 b2 b3"
  unfolding be32_def by (rule bit_word_eqI) (auto simp: bit_simps dest: bit_imp_le_length)

lemma htobe32_load: "htobe32 (load_u32 b0 b1 b2 b3) = be32 b0 b1 b2 b3"
  by (simp only: htobe32_alt load_u32_b0 load_u32_b1 load_u32_b2 load_u32_b3 be32_or)

lemma Z_b16: "Z (y XOR push_bit 16 (ucast (b::u8))) = Z y XOR push_bit 24 (ucast b)"
  using Z_byte_low[of 16 y b] by simp
lemma Z_b8: "Z (y XOR push_bit 8 (ucast (b::u8))) = Z y XOR push_bit 16 (ucast b)"
  using Z_byte_low[of 8 y b] by simp
lemma Z_b0: "Z (y XOR ucast (b::u8)) = Z y XOR push_bit 8 (ucast b)"
  using Z_byte_low[of 0 y b] by simp

lemma crc_bytes4: "crc_bytes s [b0, b1, b2, b3] = Z4 (s XOR be32 b0 b1 b2 b3)"
proof -
  let ?y = "s XOR push_bit 24 (ucast b0)"
  have 0: "s XOR be32 b0 b1 b2 b3 = ((?y XOR push_bit 16 (ucast b1)) XOR push_bit 8 (ucast b2)) XOR ucast b3"
    by (simp only: be32_def xor.assoc)
  have 1: "Z (s XOR be32 b0 b1 b2 b3) = ((Z ?y XOR push_bit 24 (ucast b1)) XOR push_bit 16 (ucast b2)) XOR push_bit 8 (ucast b3)"
    by (simp only: 0 Z_b16 Z_b8 Z_b0)
  have 2: "Z (Z (s XOR be32 b0 b1 b2 b3)) = (Z (Z ?y XOR push_bit 24 (ucast b1)) XOR push_bit 24 (ucast b2)) XOR push_bit 16 (ucast b3)"
    by (simp only: 1 Z_b16 Z_b8)
  have 3: "Z (Z (Z (s XOR be32 b0 b1 b2 b3))) = Z (Z (Z ?y XOR push_bit 24 (ucast b1)) XOR push_bit 24 (ucast b2)) XOR push_bit 24 (ucast b3)"
    by (simp only: 2 Z_b16)
  have "crc_bytes s [b0, b1, b2, b3] = Z (Z (Z (Z ?y XOR push_bit 24 (ucast b1)) XOR push_bit 24 (ucast b2)) XOR push_bit 24 (ucast b3))"
    by (simp only: crc_bytes_def foldl.simps crc_update_Z)
  also have "\<dots> = Z4 (s XOR be32 b0 b1 b2 b3)"
    by (simp only: Z4_def Z2_def 3)
  finally show ?thesis .
qed

lemma crc_bytes_append: "crc_bytes s (xs @ ys) = crc_bytes (crc_bytes s xs) ys"
  by (simp add: crc_bytes_def)

lemma crc_bytes8:
  "crc_bytes s [b0, b1, b2, b3, b4, b5, b6, b7] = Z4 (Z4 (s XOR be32 b0 b1 b2 b3)) XOR Z4 (be32 b4 b5 b6 b7)"
proof -
  have "crc_bytes s ([b0, b1, b2, b3] @ [b4, b5, b6, b7]) = crc_bytes (crc_bytes s [b0, b1, b2, b3]) [b4, b5, b6, b7]"
    by (rule crc_bytes_append)
  then show ?thesis by (simp add: crc_bytes4 Z4_xor)
qed

lemma crc_remainder_cong: "take_bit 8 x = take_bit 8 y \<Longrightarrow> crc_remainder x = crc_remainder y"
proof -
  assume a: "take_bit 8 x = take_bit 8 y"
  have "crc_remainder x = crc_remainder (take_bit 8 x)" by (simp only: and_FF[symmetric] crc_remainder_mask)
  also have "\<dots> = crc_remainder (take_bit 8 y)" by (simp only: a)
  also have "\<dots> = crc_remainder y" by (simp only: and_FF[symmetric] crc_remainder_mask)
  finally show ?thesis .
qed

lemma R_ucast64: "R (ucast (i :: u64)) = ucast (crc_remainder i)"
proof -
  have "crc_remainder (ucast (ucast i :: u32)) = crc_remainder i"
    by (rule crc_remainder_cong, rule bit_word_eqI) (auto simp: bit_simps)
  then show ?thesis by (simp add: R_def)
qed

lemma crctab_gen_0: "crctab_gen 0 i = R (ucast i)"
  by (simp add: crctab_gen_step_def R_ucast64 crc_remainder_mask)

lemma crctab_gen_Suc: "crctab_gen (Suc k) i = Z (crctab_gen k i)"
proof -
  have "crctab_gen (Suc k) i = crctab_gen_step (crctab_gen k i) 0" by simp
  also have "\<dots> = ucast (ucast (push_bit 8 (crctab_gen k i)) :: u64) XOR ucast (crc_remainder (ucast (drop_bit 24 (crctab_gen k i))))"
    by (simp add: crctab_gen_step_def crc_remainder_mask ucast_xor_w)
  also have "ucast (ucast (push_bit 8 (crctab_gen k i)) :: u64) = push_bit 8 (crctab_gen k i)"
    by (rule bit_word_eqI) (auto simp: bit_simps)
  finally show ?thesis by (simp add: Z_def R_def)
qed

lemma crctab_eq_gen: "crctab k n = ucast (crctab_gen k (of_nat n))"
proof (cases k)
  case 0
  then show ?thesis by (simp add: crctab_gen_0 R_ucast64 crc_remainder_ucast del: crctab_gen.simps)
next
  case (Suc j)
  then show ?thesis by simp
qed

lemma crctab_unat: "crctab k (unat (idx :: u64)) = ucast (crctab_gen k idx)"
  by (simp add: crctab_eq_gen)

lemma crctab_gen_low8: "take_bit 8 x = take_bit 8 y \<Longrightarrow> crctab_gen k x = crctab_gen k y"
proof (induction k)
  case 0
  then have "crc_remainder x = crc_remainder y" by (rule crc_remainder_cong)
  then show ?case by (simp add: crctab_gen_0 R_ucast64 del: crctab_gen.simps)
next
  case (Suc k)
  then show ?case by (simp add: crctab_gen_Suc del: crctab_gen.simps)
qed

definition TT :: "nat \<Rightarrow> u32 \<Rightarrow> u32" where
  "TT k x = crctab_gen k (ucast x)"

lemma TT_0: "TT 0 x = R x"
proof -
  have "R (ucast (ucast x :: u64)) = R x"
    by (rule R_eqI, rule low8_eqI) (auto simp: bit_simps)
  then show ?thesis by (simp add: TT_def crctab_gen_0 del: crctab_gen.simps)
qed

lemma TT_Suc: "TT (Suc k) x = Z (TT k x)"
  by (simp add: TT_def crctab_gen_Suc del: crctab_gen.simps)

lemma crctab_idx64:
  "crctab k (unat (drop_bit j (crc :: u64) AND 0xFF)) = ucast (TT k (drop_bit j (ucast crc :: u32)))" if "j \<le> 24"
proof -
  have "take_bit 8 (drop_bit j crc AND 0xFF) = take_bit 8 (ucast (drop_bit j (ucast crc :: u32)) :: u64)"
    unfolding and_FF using that by (intro bit_word_eqI) (auto simp: bit_simps)
  then have "crctab_gen k (drop_bit j crc AND 0xFF) = crctab_gen k (ucast (drop_bit j (ucast crc :: u32)))"
    by (rule crctab_gen_low8)
  then show ?thesis by (simp only: crctab_unat TT_def)
qed

lemma crctab_idx32:
  "crctab k (unat (drop_bit j (w :: u32) AND 0xFF)) = ucast (TT k (drop_bit j w))"
proof -
  have "take_bit 8 (of_nat (unat (drop_bit j w AND 0xFF)) :: u64) = take_bit 8 (ucast (drop_bit j w) :: u64)"
    unfolding and_FF by (intro bit_word_eqI) (auto simp: bit_simps)
  then have "crctab_gen k (of_nat (unat (drop_bit j w AND 0xFF))) = crctab_gen k (ucast (drop_bit j w))"
    by (rule crctab_gen_low8)
  then show ?thesis by (simp only: crctab_eq_gen TT_def)
qed

lemma ucast_ucast_32_64_32: "(ucast (ucast (x :: u32) :: u64) :: u32) = x"
  by (rule bit_word_eqI) (auto simp: bit_simps)

lemma Z4_TT: "Z4 (TT k x) = TT (Suc (Suc (Suc (Suc k)))) x"
  by (simp add: Z4_def Z2_def TT_Suc)

lemma Z4_Z4_expand:
  "Z4 (Z4 c) = TT 7 (drop_bit 24 c) XOR TT 6 (drop_bit 16 c) XOR TT 5 (drop_bit 8 c) XOR TT 4 c"
proof -
  have e: "Z4 c = TT 3 (drop_bit 24 c) XOR TT 2 (drop_bit 16 c) XOR TT 1 (drop_bit 8 c) XOR TT 0 c"
    by (simp add: Z4_expand TT_0 TT_Suc numeral_eq_Suc)
  show ?thesis
    by (simp only: e Z4_xor Z4_TT) (simp add: numeral_eq_Suc)
qed

lemma Z4_expand_TT:
  "Z4 c = TT 3 (drop_bit 24 c) XOR TT 2 (drop_bit 16 c) XOR TT 1 (drop_bit 8 c) XOR TT 0 c"
  by (simp add: Z4_expand TT_0 TT_Suc numeral_eq_Suc)

lemma idx64_24: "crctab k (unat (drop_bit 24 (crc :: u64) AND 0xFF)) = ucast (TT k (drop_bit 24 (ucast crc :: u32)))"
  by (rule crctab_idx64) simp
lemma idx64_16: "crctab k (unat (drop_bit 16 (crc :: u64) AND 0xFF)) = ucast (TT k (drop_bit 16 (ucast crc :: u32)))"
  by (rule crctab_idx64) simp
lemma idx64_8: "crctab k (unat (drop_bit 8 (crc :: u64) AND 0xFF)) = ucast (TT k (drop_bit 8 (ucast crc :: u32)))"
  by (rule crctab_idx64) simp
lemma idx64_0: "crctab k (unat ((crc :: u64) AND 0xFF)) = ucast (TT k (ucast crc :: u32))"
  using crctab_idx64[of 0 k crc] by simp
lemma idx32_0: "crctab k (unat ((w :: u32) AND 0xFF)) = ucast (TT k w)"
  using crctab_idx32[of k 0 w] by simp

lemma slice8_round_ucast:
  "ucast (slice8_round crc first second) = Z4 (Z4 (ucast crc XOR htobe32 first)) XOR Z4 (htobe32 second)"
proof -
  let ?c = "crc XOR ucast (htobe32 first)"
  have c32: "(ucast ?c :: u32) = ucast crc XOR htobe32 first"
    by (simp add: ucast_xor_w ucast_ucast_32_64_32)
  have "slice8_round crc first second =
       ucast (TT 7 (drop_bit 24 (ucast ?c :: u32))) XOR ucast (TT 6 (drop_bit 16 (ucast ?c :: u32)))
       XOR ucast (TT 5 (drop_bit 8 (ucast ?c :: u32))) XOR ucast (TT 4 (ucast ?c :: u32))
       XOR ucast (TT 3 (drop_bit 24 (htobe32 second))) XOR ucast (TT 2 (drop_bit 16 (htobe32 second)))
       XOR ucast (TT 1 (drop_bit 8 (htobe32 second))) XOR ucast (TT 0 (htobe32 second))"
    by (simp only: slice8_round_def Let_def idx64_24 idx64_16 idx64_8 crctab_idx32)
       (simp only: idx64_0 idx32_0)
  then have "(ucast (slice8_round crc first second) :: u32) =
       TT 7 (drop_bit 24 (ucast ?c :: u32)) XOR TT 6 (drop_bit 16 (ucast ?c :: u32))
       XOR TT 5 (drop_bit 8 (ucast ?c :: u32)) XOR TT 4 (ucast ?c :: u32)
       XOR TT 3 (drop_bit 24 (htobe32 second)) XOR TT 2 (drop_bit 16 (htobe32 second))
       XOR TT 1 (drop_bit 8 (htobe32 second)) XOR TT 0 (htobe32 second)"
    by (simp only: ucast_xor_w ucast_ucast_32_64_32)
  moreover have "Z4 (Z4 (ucast crc XOR htobe32 first)) XOR Z4 (htobe32 second) =
       TT 7 (drop_bit 24 (ucast ?c :: u32)) XOR TT 6 (drop_bit 16 (ucast ?c :: u32))
       XOR TT 5 (drop_bit 8 (ucast ?c :: u32)) XOR TT 4 (ucast ?c :: u32)
       XOR TT 3 (drop_bit 24 (htobe32 second)) XOR TT 2 (drop_bit 16 (htobe32 second))
       XOR TT 1 (drop_bit 8 (htobe32 second)) XOR TT 0 (htobe32 second)"
    by (simp only: c32 Z4_Z4_expand) (simp only: Z4_expand_TT xor.assoc)
  ultimately show ?thesis by simp
qed

lemma slice8_round_crc_bytes:
  "ucast (slice8_round crc (load_u32 b0 b1 b2 b3) (load_u32 b4 b5 b6 b7))
     = crc_bytes (ucast crc) [b0, b1, b2, b3, b4, b5, b6, b7]"
  by (simp only: slice8_round_ucast htobe32_load crc_bytes8)

lemma crc_byte_rule_ucast: "ucast (crc_byte_rule crc (ucast (b::u8))) = crc_update (ucast crc) b"
proof -
  have "crc_remainder (drop_bit 24 crc XOR ucast b) = crc_remainder (ucast (drop_bit 24 (ucast crc :: u32) XOR (ucast b :: u32)))"
    by (rule crc_remainder_cong, rule bit_word_eqI) (auto simp: bit_simps)
  moreover have "(ucast (push_bit 8 crc) :: u32) = push_bit 8 (ucast crc)"
    by (rule bit_word_eqI) (auto simp: bit_simps)
  ultimately show ?thesis
    by (simp add: crc_byte_rule_def crc_update_def ucast_xor_w ucast_and_w crc_remainder_mask)
qed

lemma crc_byte_rule_ucast': "ucast (crc_byte_rule crc t) = crc_update (ucast crc) (ucast t)"
proof -
  have "crc_remainder (drop_bit 24 crc XOR t) = crc_remainder (ucast (drop_bit 24 (ucast crc :: u32) XOR (ucast (ucast t :: u8) :: u32)))"
    by (rule crc_remainder_cong, rule bit_word_eqI) (auto simp: bit_simps)
  moreover have "(ucast (push_bit 8 crc) :: u32) = push_bit 8 (ucast crc)"
    by (rule bit_word_eqI) (auto simp: bit_simps)
  ultimately show ?thesis
    by (simp add: crc_byte_rule_def crc_update_def ucast_xor_w ucast_and_w crc_remainder_mask)
qed

lemma tail_crc_bytes:
  "ucast (foldl (\<lambda>crc b. crc_byte_rule crc (ucast b)) crc cp) = crc_bytes (ucast crc) cp"
proof (induction cp arbitrary: crc)
  case Nil
  then show ?case by (simp add: crc_bytes_def)
next
  case (Cons b cp)
  have "ucast (foldl (\<lambda>crc b. crc_byte_rule crc (ucast b)) (crc_byte_rule crc (ucast b)) cp)
        = crc_bytes (ucast (crc_byte_rule crc (ucast b))) cp"
    by (rule Cons.IH)
  then show ?case by (simp add: crc_byte_rule_ucast crc_bytes_def)
qed

lemma slice8_block_eq:
  "slice8_block crc bs =
     (case bs of
        b0 # b1 # b2 # b3 # b4 # b5 # b6 # b7 # rest \<Rightarrow>
          slice8_block (slice8_round crc (load_u32 b0 b1 b2 b3) (load_u32 b4 b5 b6 b7)) rest
      | _ \<Rightarrow> foldl (\<lambda>crc b. crc_byte_rule crc (ucast b)) crc bs)"
  by (auto split: list.splits)

lemma slice8_block_crc_bytes: "ucast (slice8_block crc bs) = crc_bytes (ucast crc) bs"
proof (induction crc bs rule: slice8_block.induct)
  case (1 crc b0 b1 b2 b3 b4 b5 b6 b7 rest)
  have "crc_bytes (ucast crc) ([b0, b1, b2, b3, b4, b5, b6, b7] @ rest)
        = crc_bytes (crc_bytes (ucast crc) [b0, b1, b2, b3, b4, b5, b6, b7]) rest"
    by (rule crc_bytes_append)
  with 1 show ?case by (simp add: slice8_round_crc_bytes)
qed (simp_all only: slice8_block.simps tail_crc_bytes)


section \<open>The scalar backend computes the byte rule\<close>

lemma slice8_round_eq:
  "slice8_round crc (load_u32 b0 b1 b2 b3) (load_u32 b4 b5 b6 b7)
     = ucast (crc_bytes (ucast crc) [b0, b1, b2, b3, b4, b5, b6, b7])"
proof -
  let ?c = "crc XOR ucast (htobe32 (load_u32 b0 b1 b2 b3))"
  let ?s = "htobe32 (load_u32 b4 b5 b6 b7)"
  have "slice8_round crc (load_u32 b0 b1 b2 b3) (load_u32 b4 b5 b6 b7) =
       ucast (TT 7 (drop_bit 24 (ucast ?c :: u32))) XOR ucast (TT 6 (drop_bit 16 (ucast ?c :: u32)))
       XOR ucast (TT 5 (drop_bit 8 (ucast ?c :: u32))) XOR ucast (TT 4 (ucast ?c :: u32))
       XOR ucast (TT 3 (drop_bit 24 ?s)) XOR ucast (TT 2 (drop_bit 16 ?s))
       XOR ucast (TT 1 (drop_bit 8 ?s)) XOR ucast (TT 0 ?s)"
    by (simp only: slice8_round_def Let_def idx64_24 idx64_16 idx64_8 crctab_idx32)
       (simp only: idx64_0 idx32_0)
  also have "\<dots> = ucast (TT 7 (drop_bit 24 (ucast ?c :: u32)) XOR TT 6 (drop_bit 16 (ucast ?c :: u32))
       XOR TT 5 (drop_bit 8 (ucast ?c :: u32)) XOR TT 4 (ucast ?c :: u32)
       XOR TT 3 (drop_bit 24 ?s) XOR TT 2 (drop_bit 16 ?s)
       XOR TT 1 (drop_bit 8 ?s) XOR TT 0 ?s)"
    by (simp only: ucast_xor_w)
  finally have "slice8_round crc (load_u32 b0 b1 b2 b3) (load_u32 b4 b5 b6 b7)
      = ucast (ucast (slice8_round crc (load_u32 b0 b1 b2 b3) (load_u32 b4 b5 b6 b7)) :: u32)"
    by (simp only: ucast_ucast_32_64_32)
  then show ?thesis by (simp only: slice8_round_crc_bytes)
qed

lemma no_wrap_add:
  assumes "unat (len :: u64) + n < 2 ^ 64"
  shows "\<not> len + of_nat n < len" and "unat (len + of_nat n) = unat len + n"
proof -
  have n: "n < 2 ^ 64" using assms by simp
  then have un: "unat (of_nat n :: u64) = n" by (simp add: unat_of_nat)
  have "unat len + unat (of_nat n :: u64) < 2 ^ LENGTH(64)" using assms un by simp
  then have "len \<le> len + of_nat n" by (simp add: no_olen_add_nat)
  then show "\<not> len + of_nat n < len" by simp
  show "unat (len + of_nat n) = unat len + n"
    using assms un by (simp add: unat_add_lem[THEN iffD1])
qed

lemma slice8_loop_correct:
  assumes "unat len + length (pending fp) < 2 ^ 64" and "eof_ind fp \<longrightarrow> pending fp = []"
  shows "\<exists>c fp'. slice8_loop fp crc len = Inr (c, len + of_nat (length (pending fp)), fp')
           \<and> ucast c = crc_bytes (ucast crc) (pending fp) \<and> err_ind fp' = err_ind fp"
  using assms
proof (induction fp crc len rule: slice8_loop.induct)
  case (1 fp crc len)
  let ?buf = "fst (fread BUFLEN fp)"
  let ?fp' = "snd (fread BUFLEN fp)"
  have buf_eq: "?buf = take BUFLEN (pending fp)" by (simp add: fread_def)
  let ?n = "(of_nat (length ?buf) :: u64)"
  show ?case
  proof (cases "pending fp = []")
    case True
    then show ?thesis
      by (subst slice8_loop.simps) (simp add: fread_def Let_def crc_bytes_def)
  next
    case False
    have lb: "length ?buf \<le> length (pending fp)" by (simp add: buf_eq)
    have pos: "0 < length ?buf" using False unfolding buf_eq by (simp add: BUFLEN_def)
    have small: "unat len + length ?buf < 2 ^ 64" using "1.prems"(1) lb by linarith
    have nz: "0 < ?n"
    proof -
      have "unat ?n = length ?buf" using small by (simp add: unat_of_nat)
      then show ?thesis using pos by (simp add: word_less_nat_alt)
    qed
    have nowrap: "\<not> len + ?n < len" using no_wrap_add(1)[OF small] .
    show ?thesis
    proof (cases "feof ?fp'")
      case True
      then have "length (pending fp) < BUFLEN" using False "1.prems"(2) by (auto simp: feof_def fread_def)
      then have all: "?buf = pending fp" by (simp add: buf_eq)
      have "slice8_loop fp crc len = Inr (slice8_block crc ?buf, len + ?n, ?fp')"
        using nz nowrap True by (subst slice8_loop.simps) (simp add: Let_def fread_def)
      then show ?thesis using all by (simp add: slice8_block_crc_bytes fread_def)
    next
      case nf: False
      have step: "slice8_loop fp crc len = slice8_loop ?fp' (slice8_block crc ?buf) (len + ?n)"
        using nz nowrap nf by (subst slice8_loop.simps) (simp add: Let_def fread_def)
      have p': "pending ?fp' = drop BUFLEN (pending fp)" by (simp add: fread_def)
      have a1: "unat (len + ?n) + length (pending ?fp') < 2 ^ 64"
      proof -
        have "length ?buf + length (pending ?fp') = length (pending fp)" by (simp add: buf_eq p')
        then show ?thesis using "1.prems"(1) no_wrap_add(2)[OF small] by simp
      qed
      have a2: "eof_ind ?fp' \<longrightarrow> pending ?fp' = []" using nf by (simp add: feof_def)
      have "\<exists>c fp''. slice8_loop ?fp' (slice8_block crc ?buf) (len + ?n)
               = Inr (c, (len + ?n) + of_nat (length (pending ?fp')), fp'')
             \<and> ucast c = crc_bytes (ucast (slice8_block crc ?buf)) (pending ?fp')
             \<and> err_ind fp'' = err_ind ?fp'"
        using "1.IH"[OF refl refl refl _ nowrap nf a1 a2] nz by simp
      then obtain c fp'' where r: "slice8_loop ?fp' (slice8_block crc ?buf) (len + ?n)
               = Inr (c, (len + ?n) + of_nat (length (pending ?fp')), fp'')"
             and c: "ucast c = crc_bytes (ucast (slice8_block crc ?buf)) (pending ?fp')"
             and e: "err_ind fp'' = err_ind ?fp'" by blast
      have len_eq: "(len + ?n) + of_nat (length (pending ?fp')) = len + of_nat (length (pending fp))"
      proof -
        have "length ?buf + length (drop BUFLEN (pending fp)) = length (pending fp)" by (simp add: buf_eq)
        then have "(of_nat (length ?buf) :: u64) + of_nat (length (drop BUFLEN (pending fp))) = of_nat (length (pending fp))"
          by (metis of_nat_add)
        then show ?thesis by (simp add: p' add.assoc)
      qed
      have "crc_bytes (ucast (slice8_block crc ?buf)) (pending ?fp') = crc_bytes (ucast crc) (?buf @ drop BUFLEN (pending fp))"
        by (simp only: crc_bytes_append slice8_block_crc_bytes p')
      then have c': "ucast c = crc_bytes (ucast crc) (pending fp)" using c by (simp add: buf_eq)
      show ?thesis using step r len_eq c' e by (simp add: fread_def)
    qed
  qed
qed

section \<open>The driver folds the length and complements\<close>

lemma cksum_slice8_correct:
  assumes "length bs < 2 ^ 64"
  shows "\<exists>c. cksum_slice8 (Some (fopen_bytes bs)) = Inr (c, of_nat (length bs))
             \<and> ucast c = crc_bytes 0 bs"
proof -
  have "\<exists>c fp'. slice8_loop (fopen_bytes bs) 0 0 = Inr (c, 0 + of_nat (length (pending (fopen_bytes bs))), fp')
           \<and> ucast c = crc_bytes (ucast (0::u64)) (pending (fopen_bytes bs)) \<and> err_ind fp' = err_ind (fopen_bytes bs)"
    by (rule slice8_loop_correct) (use assms in \<open>simp_all add: fopen_bytes_def\<close>)
  then obtain c fp' where "slice8_loop (fopen_bytes bs) 0 0 = Inr (c, of_nat (length bs), fp')"
     and "ucast c = crc_bytes 0 bs" and "err_ind fp' = False"
    by (auto simp: fopen_bytes_def)
  then show ?thesis by (simp add: cksum_slice8_def ferror_def)
qed

lemma crc_byte_rule_ucast_any: "ucast (crc_byte_rule crc t) = crc_update (ucast crc) (ucast t)"
  by (rule crc_byte_rule_ucast')

lemma length_bytes_le_unat:
  "(t :: u64) \<noteq> 0 \<Longrightarrow> length_bytes_le (unat t) = ucast t # length_bytes_le (unat (drop_bit 8 t))"
proof -
  assume "t \<noteq> 0"
  then have "unat t \<noteq> 0" by (simp add: unat_eq_0)
  moreover have "(of_nat (unat t mod 256) :: u8) = ucast t"
  proof -
    have m: "unat t mod 256 = take_bit 8 (unat t)" by (simp add: take_bit_eq_mod)
    show ?thesis unfolding m by (rule bit_word_eqI) (auto simp: bit_simps)
  qed
  moreover have "unat t div 256 = unat (drop_bit 8 t)"
    by (simp add: drop_bit_eq_div unat_div)
  ultimately show ?thesis by (subst length_bytes_le.simps) simp
qed

lemma length_fold_crc_bytes:
  "ucast (length_fold crc total_bytes) = crc_bytes (ucast crc) (length_bytes_le (unat total_bytes))"
proof (induction crc total_bytes rule: length_fold.induct)
  case (1 crc total_bytes)
  show ?case
  proof (cases "total_bytes = 0")
    case True
    then show ?thesis
      by (subst length_fold.simps, subst length_bytes_le.simps) (simp add: crc_bytes_def)
  next
    case False
    have "ucast (length_fold crc total_bytes)
          = crc_bytes (ucast (crc_byte_rule crc total_bytes)) (length_bytes_le (unat (drop_bit 8 total_bytes)))"
      using False "1.IH" by (subst length_fold.simps) simp
    then show ?thesis
      by (simp add: length_bytes_le_unat[OF False] crc_byte_rule_ucast' crc_bytes_def)
  qed
qed

lemma ucast_not_mask32: "(ucast (NOT (x :: u64) AND 0xFFFFFFFF) :: u32) = NOT (ucast x)"
  unfolding and_FFFFFFFF by (rule bit_word_eqI) (auto simp: bit_simps)

lemma crc_sum_stream_correct:
  assumes "length bs < 2 ^ 64"
  shows "fst (crc_sum_stream ext None (Some (fopen_bytes bs)))
         = Inr (NOT (crc_bytes 0 (bs @ length_bytes_le (length bs))), of_nat (length bs))"
proof -
  obtain c where c: "cksum_slice8 (Some (fopen_bytes bs)) = Inr (c, of_nat (length bs))"
     and cc: "ucast c = crc_bytes 0 bs"
    using cksum_slice8_correct[OF assms] by blast
  have u: "unat (of_nat (length bs) :: u64) = length bs" using assms by (simp add: unat_of_nat)
  have "ucast (length_fold c (of_nat (length bs))) = crc_bytes 0 (bs @ length_bytes_le (length bs))"
    by (simp add: length_fold_crc_bytes cc u crc_bytes_append)
  then show ?thesis
    by (simp add: crc_sum_stream_def select_cksum_fp_def call_cksum_fp_def c ucast_not_mask32)
qed

section \<open>Evaluating the table on concrete entries\<close>

lemma fill_r_numeral:
  "fill_r (numeral n) =
     push_bit 1 (fill_r (pred_numeral n)) XOR (if fill_r (pred_numeral n) AND SBIT \<noteq> 0 then GEN else 0)"
  by (simp only: numeral_eq_Suc fill_r.simps)

lemma fill_r_1:
  "fill_r 1 = push_bit 1 (fill_r 0) XOR (if fill_r 0 AND SBIT \<noteq> 0 then GEN else 0)"
  by (simp only: One_nat_def fill_r.simps)

lemma fill_r_0v: "fill_r 0 = 0x04C11DB7"
  by (simp add: GEN_val)

lemma fill_r_1v: "fill_r 1 = 0x09823B6E"
  by (simp add: fill_r_1 GEN_val SBIT_def BIT_def)

lemma fill_r_2v: "fill_r 2 = 0x130476DC"
  by (simp add: fill_r_numeral fill_r_1v GEN_val SBIT_def BIT_def)

lemma fill_r_3v: "fill_r 3 = 0x2608EDB8"
  by (simp add: fill_r_numeral fill_r_2v GEN_val SBIT_def BIT_def)

lemma fill_r_4v: "fill_r 4 = 0x4C11DB70"
  by (simp add: fill_r_numeral fill_r_3v GEN_val SBIT_def BIT_def)

lemma fill_r_5v: "fill_r 5 = 0x9823B6E0"
  by (simp add: fill_r_numeral fill_r_4v GEN_val SBIT_def BIT_def)

lemma fill_r_6v: "fill_r 6 = 0x134867077"
  by (simp add: fill_r_numeral fill_r_5v GEN_val SBIT_def BIT_def)

lemma fill_r_7v: "fill_r 7 = 0x2690CE0EE"
  by (simp add: fill_r_numeral fill_r_6v GEN_val SBIT_def BIT_def)

lemmas fill_r_vals =
  fill_r_0v fill_r_1v fill_r_2v fill_r_3v fill_r_4v fill_r_5v fill_r_6v fill_r_7v

lemma crc_remainder_eval:
  "crc_remainder m =
     ((if bit m 0 then 0x04C11DB7 else 0) XOR (if bit m 1 then 0x09823B6E else 0)
      XOR (if bit m 2 then 0x130476DC else 0) XOR (if bit m 3 then 0x2608EDB8 else 0)
      XOR (if bit m 4 then 0x4C11DB70 else 0) XOR (if bit m 5 then 0x9823B6E0 else 0)
      XOR (if bit m 6 then 0x134867077 else 0) XOR (if bit m 7 then 0x2690CE0EE else 0))
     AND 0xFFFFFFFF"
  by (simp only: crc_remainder_sel sel_def fill_r_vals)

lemma crctab_gen_numeral:
  "crctab_gen (numeral k) i = crctab_gen_step (crctab_gen (pred_numeral k) i) 0"
  by (simp only: numeral_eq_Suc crctab_gen.simps)

lemma crctab_gen_1: "crctab_gen 1 i = crctab_gen_step (crctab_gen 0 i) 0"
  by (simp only: One_nat_def crctab_gen.simps)

lemma crctab_numeral: "crctab (numeral k) i = ucast (crctab_gen (numeral k) (of_nat i))"
  by (simp only: numeral_eq_Suc crctab.simps)

lemma crctab_1: "crctab 1 i = ucast (crctab_gen 1 (of_nat i))"
  by (simp only: One_nat_def crctab.simps)

lemmas crctab_eval =
  crctab_numeral crctab_1 crctab_gen_numeral crctab_gen_1 crctab_gen_step_def crc_remainder_eval

section \<open>The byte rule is polynomial division\<close>

lemma xtime_xor: "xtime (a XOR b) = xtime a XOR xtime b"
  by (simp add: xtime_def bit_xor_iff push_bit_xor xor.assoc xor.left_commute xor.commute)

lemma xtime_0: "xtime 0 = 0"
  by (simp add: xtime_def)

lemma xtime_pow_xor: "(xtime ^^ n) (a XOR b) = (xtime ^^ n) a XOR (xtime ^^ n) b"
  by (induction n) (simp_all add: xtime_xor)

lemma xtime_pow_0: "(xtime ^^ n) 0 = 0"
  by (induction n) (simp_all add: xtime_0)

lemma xtime_pow_if: "(xtime ^^ n) (if c then v else 0) = (if c then (xtime ^^ n) v else 0)"
  by (simp add: xtime_pow_0)

lemma xtime_pow_small:
  "k \<le> 32 \<Longrightarrow> take_bit (32 - k) p = p \<Longrightarrow> (xtime ^^ k) p = push_bit k p"
proof (induction k)
  case 0
  then show ?case by simp
next
  case (Suc k)
  have "bit p n \<Longrightarrow> n < 32 - Suc k" for n
    using Suc.prems(2) by (metis bit_take_bit_iff)
  then have nb: "\<not> bit p (31 - k)" using Suc.prems(1) by fastforce
  have tk: "take_bit (32 - k) p = p"
    by (rule bit_word_eqI) (use \<open>\<And>n. bit p n \<Longrightarrow> n < 32 - Suc k\<close> in \<open>fastforce simp: bit_simps\<close>)
  have ih: "(xtime ^^ k) p = push_bit k p" using Suc.IH Suc.prems(1) tk by simp
  have nb': "\<not> bit (push_bit k p) 31" using nb Suc.prems(1) by (auto simp: bit_simps)
  have "(xtime ^^ Suc k) p = xtime (push_bit k p)" by (simp add: ih)
  also have "\<dots> = push_bit 1 (push_bit k p)" using nb' by (simp only: xtime_def if_False)
  also have "\<dots> = push_bit (Suc k) p" by (simp add: push_bit_push_bit)
  finally show ?case .
qed

lemma and_FFFFFF: "(x::'a::len word) AND 0xFFFFFF = take_bit 24 x"
  by (simp add: take_bit_eq_mask mask_eq_exp_minus_1)

lemma split_top_byte: "(s :: u32) = push_bit 24 (drop_bit 24 s) XOR take_bit 24 s"
  by (rule bit_word_eqI) (auto simp: bit_simps)

definition bitsel :: "u32 \<Rightarrow> nat \<Rightarrow> u32 \<Rightarrow> u32" where
  "bitsel t i v = (if bit t i then v else 0)"

lemma push24_decomp:
  "push_bit 24 (t :: u32) =
     bitsel t 0 (push_bit 24 1) XOR bitsel t 1 (push_bit 25 1) XOR bitsel t 2 (push_bit 26 1)
     XOR bitsel t 3 (push_bit 27 1) XOR bitsel t 4 (push_bit 28 1) XOR bitsel t 5 (push_bit 29 1)
     XOR bitsel t 6 (push_bit 30 1) XOR bitsel t 7 (push_bit 31 1)"
proof (rule bit_word_eqI)
  fix n assume "n < LENGTH(32)"
  have b: "bit (bitsel t i (push_bit j 1)) n \<longleftrightarrow> bit t i \<and> n = j \<and> j < 32" for i j
    by (auto simp: bitsel_def bit_simps)
  show "bit (push_bit 24 t) n = bit (bitsel t 0 (push_bit 24 1) XOR bitsel t 1 (push_bit 25 1) XOR bitsel t 2 (push_bit 26 1)
     XOR bitsel t 3 (push_bit 27 1) XOR bitsel t 4 (push_bit 28 1) XOR bitsel t 5 (push_bit 29 1)
     XOR bitsel t 6 (push_bit 30 1) XOR bitsel t 7 (push_bit 31 1)) n"
  proof -
    consider "n < 24" | "n = 24" | "n = 25" | "n = 26" | "n = 27" | "n = 28" | "n = 29" | "n = 30" | "n = 31"
      using \<open>n < LENGTH(32)\<close> by fastforce
    then show ?thesis
      unfolding bit_xor_iff b
      by cases (simp_all add: bit_push_bit_iff)
  qed
qed

lemma xtime8_unfold: "(xtime ^^ 8) x = xtime (xtime (xtime (xtime (xtime (xtime (xtime (xtime x)))))))"
  by (simp add: numeral_eq_Suc)

lemma xtime8_basis:
  "(xtime ^^ 8) (push_bit 24 1) = 0x04C11DB7" "(xtime ^^ 8) (push_bit 25 1) = 0x09823B6E"
  "(xtime ^^ 8) (push_bit 26 1) = 0x130476DC" "(xtime ^^ 8) (push_bit 27 1) = 0x2608EDB8"
  "(xtime ^^ 8) (push_bit 28 1) = 0x4C11DB70" "(xtime ^^ 8) (push_bit 29 1) = 0x9823B6E0"
  "(xtime ^^ 8) (push_bit 30 1) = 0x34867077" "(xtime ^^ 8) (push_bit 31 1) = 0x690CE0EE"
  by (simp_all add: xtime8_unfold xtime_def)

lemma R_bitsel:
  "R t = bitsel t 0 0x04C11DB7 XOR bitsel t 1 0x09823B6E XOR bitsel t 2 0x130476DC
     XOR bitsel t 3 0x2608EDB8 XOR bitsel t 4 0x4C11DB70 XOR bitsel t 5 0x9823B6E0
     XOR bitsel t 6 0x34867077 XOR bitsel t 7 0x690CE0EE"
proof -
  have b: "bit (ucast t :: u64) i = bit t i" if "i < 8" for i
    using that by (auto simp: bit_simps dest: bit_imp_le_length)
  have u: "(ucast (x AND 0xFFFFFFFF :: u64) :: u32) = ucast x" for x
    unfolding and_FFFFFFFF by (rule bit_word_eqI) (auto simp: bit_simps)
  have i: "(ucast (if c then (v :: u64) else 0) :: u32) = (if c then ucast v else 0)" for c v
    by simp
  show ?thesis
    unfolding R_def crc_remainder_eval u ucast_xor_w i bitsel_def
    by (simp add: b)
qed

lemma xtime8_top: "(xtime ^^ 8) (push_bit 24 t) = R t"
  by (subst push24_decomp) (simp only: xtime_pow_xor bitsel_def xtime_pow_if xtime8_basis R_bitsel)

lemma Z_is_xtime8: "Z s = (xtime ^^ 8) s"
proof -
  have lo: "(xtime ^^ 8) (take_bit 24 s) = push_bit 8 (take_bit 24 s)"
    by (rule xtime_pow_small) (simp_all add: min_def)
  have lo': "push_bit 8 (take_bit 24 s) = push_bit 8 s"
    by (rule bit_word_eqI) (auto simp: bit_simps)
  have "(xtime ^^ 8) s = (xtime ^^ 8) (push_bit 24 (drop_bit 24 s) XOR take_bit 24 s)"
    using split_top_byte[of s] by simp
  also have "\<dots> = R (drop_bit 24 s) XOR push_bit 8 s"
    by (simp only: xtime_pow_xor xtime8_top lo lo')
  finally show ?thesis by (simp add: Z_def xor.commute)
qed

lemma poly_rem_zeros: "foldl poly_rem_step p (replicate n False) = (xtime ^^ n) p"
proof (induction n arbitrary: p)
  case 0
  then show ?case by simp
next
  case (Suc n)
  have "foldl poly_rem_step p (replicate (Suc n) False) = foldl poly_rem_step (xtime p) (replicate n False)"
    by (simp add: poly_rem_step_def)
  then show ?case by (simp add: Suc.IH funpow_swap1)
qed

lemma ucast8_decomp:
  "(ucast (b :: u8) :: u32) =
     push_bit 7 (bitsel (ucast b) 7 1) XOR push_bit 6 (bitsel (ucast b) 6 1) XOR push_bit 5 (bitsel (ucast b) 5 1)
     XOR push_bit 4 (bitsel (ucast b) 4 1) XOR push_bit 3 (bitsel (ucast b) 3 1) XOR push_bit 2 (bitsel (ucast b) 2 1)
     XOR push_bit 1 (bitsel (ucast b) 1 1) XOR bitsel (ucast b) 0 1"
proof (rule bit_word_eqI)
  fix n assume n: "n < LENGTH(32)"
  let ?t = "ucast b :: u32"
  have b: "bit (push_bit j (bitsel ?t i 1)) n \<longleftrightarrow> bit ?t i \<and> n = j \<and> j < 32" for i j
    by (auto simp: bitsel_def bit_simps)
  have b0: "bit (bitsel ?t i 1) n \<longleftrightarrow> bit ?t i \<and> n = 0" for i
    by (auto simp: bitsel_def bit_simps)
  consider "n \<ge> 8" | "n = 0" | "n = 1" | "n = 2" | "n = 3" | "n = 4" | "n = 5" | "n = 6" | "n = 7"
    by fastforce
  then show "bit ?t n = bit (push_bit 7 (bitsel ?t 7 1) XOR push_bit 6 (bitsel ?t 6 1) XOR push_bit 5 (bitsel ?t 5 1)
     XOR push_bit 4 (bitsel ?t 4 1) XOR push_bit 3 (bitsel ?t 3 1) XOR push_bit 2 (bitsel ?t 2 1)
     XOR push_bit 1 (bitsel ?t 1 1) XOR bitsel ?t 0 1) n"
    unfolding bit_xor_iff b b0
    by cases (auto simp: bit_ucast_iff dest: bit_imp_le_length)
qed

lemma xtime_bitsel_0: "xtime (x XOR bitsel t i 1) = xtime x XOR push_bit 1 (bitsel t i 1)"
proof -
  have "xtime (bitsel t i 1) = push_bit 1 (bitsel t i 1)"
    by (simp add: bitsel_def xtime_def)
  then show ?thesis by (simp only: xtime_xor)
qed

lemma xtime_push_bitsel:
  "j < 31 \<Longrightarrow> xtime (x XOR push_bit j (bitsel t i 1)) = xtime x XOR push_bit (Suc j) (bitsel t i 1)"
proof -
  assume j: "j < 31"
  have "\<not> bit (push_bit j (bitsel t i 1) :: u32) 31" using j by (auto simp: bitsel_def bit_simps)
  then have "xtime (push_bit j (bitsel t i 1)) = push_bit 1 (push_bit j (bitsel t i 1))"
    by (simp only: xtime_def if_False)
  then show ?thesis by (simp add: xtime_xor)
qed

lemma xtime_bitsel_1: "xtime (x XOR push_bit 1 (bitsel t i 1)) = xtime x XOR push_bit 2 (bitsel t i 1)"
  using xtime_push_bitsel[of 1 x t i] by (simp add: numeral_eq_Suc)
lemma xtime_bitsel_2: "xtime (x XOR push_bit 2 (bitsel t i 1)) = xtime x XOR push_bit 3 (bitsel t i 1)"
  using xtime_push_bitsel[of 2 x t i] by (simp add: numeral_eq_Suc)
lemma xtime_bitsel_3: "xtime (x XOR push_bit 3 (bitsel t i 1)) = xtime x XOR push_bit 4 (bitsel t i 1)"
  using xtime_push_bitsel[of 3 x t i] by (simp add: numeral_eq_Suc)
lemma xtime_bitsel_4: "xtime (x XOR push_bit 4 (bitsel t i 1)) = xtime x XOR push_bit 5 (bitsel t i 1)"
  using xtime_push_bitsel[of 4 x t i] by (simp add: numeral_eq_Suc)
lemma xtime_bitsel_5: "xtime (x XOR push_bit 5 (bitsel t i 1)) = xtime x XOR push_bit 6 (bitsel t i 1)"
  using xtime_push_bitsel[of 5 x t i] by (simp add: numeral_eq_Suc)
lemma xtime_bitsel_6: "xtime (x XOR push_bit 6 (bitsel t i 1)) = xtime x XOR push_bit 7 (bitsel t i 1)"
  using xtime_push_bitsel[of 6 x t i] by (simp add: numeral_eq_Suc)

lemmas xtime_bitsel = xtime_bitsel_0 xtime_bitsel_1 xtime_bitsel_2 xtime_bitsel_3 xtime_bitsel_4
  xtime_bitsel_5 xtime_bitsel_6

lemma foldl_byte_bits:
  "foldl poly_rem_step p (byte_bits b) = (xtime ^^ 8) p XOR ucast b"
proof -
  let ?t = "ucast b :: u32"
  have s: "poly_rem_step q (bit b i) = xtime q XOR bitsel ?t i 1" if "i < 8" for q i
    using that by (simp add: poly_rem_step_def bitsel_def bit_simps)
  have "foldl poly_rem_step p (byte_bits b) =
     xtime (xtime (xtime (xtime (xtime (xtime (xtime (xtime p XOR bitsel ?t 7 1) XOR bitsel ?t 6 1) XOR bitsel ?t 5 1)
       XOR bitsel ?t 4 1) XOR bitsel ?t 3 1) XOR bitsel ?t 2 1) XOR bitsel ?t 1 1) XOR bitsel ?t 0 1"
    by (simp add: byte_bits_def s)
  also have "\<dots> = (xtime ^^ 8) p XOR
     (push_bit 7 (bitsel ?t 7 1) XOR push_bit 6 (bitsel ?t 6 1) XOR push_bit 5 (bitsel ?t 5 1)
     XOR push_bit 4 (bitsel ?t 4 1) XOR push_bit 3 (bitsel ?t 3 1) XOR push_bit 2 (bitsel ?t 2 1)
     XOR push_bit 1 (bitsel ?t 1 1) XOR bitsel ?t 0 1)"
    by (simp only: xtime8_unfold xtime_bitsel) (simp only: xor.assoc)
  also have "\<dots> = (xtime ^^ 8) p XOR ?t"
    by (simp only: ucast8_decomp[symmetric])
  finally show ?thesis .
qed

lemma xtime_pow_add: "(xtime ^^ (m + n)) p = (xtime ^^ m) ((xtime ^^ n) p)"
  by (simp add: funpow_add)

lemma xtime24_byte: "(xtime ^^ 24) (ucast (b :: u8)) = push_bit 24 (ucast b)"
proof (rule xtime_pow_small)
  show "take_bit (32 - 24) (ucast b :: u32) = ucast b"
    by (rule bit_word_eqI) (auto simp: bit_simps dest: bit_imp_le_length)
qed simp

lemma message_poly_snoc: "message_poly (bs @ [b]) = message_poly bs @ byte_bits b"
  by (simp add: message_poly_def)

lemma poly_rem_snoc:
  "poly_rem (message_poly (bs @ [b])) = (xtime ^^ 8) (poly_rem (message_poly bs)) XOR ucast b"
  by (simp add: poly_rem_def message_poly_snoc foldl_byte_bits)

lemma poly_crc_xtime32: "poly_crc bs = (xtime ^^ 32) (poly_rem (message_poly bs))"
  by (simp add: poly_crc_def poly_rem_def poly_rem_zeros)

lemma poly_crc_snoc: "poly_crc (bs @ [b]) = crc_update (poly_crc bs) b"
proof -
  let ?P = "poly_rem (message_poly bs)"
  have "poly_crc (bs @ [b]) = (xtime ^^ 32) ((xtime ^^ 8) ?P) XOR (xtime ^^ 32) (ucast b)"
    by (simp only: poly_crc_xtime32 poly_rem_snoc xtime_pow_xor)
  also have "(xtime ^^ 32) ((xtime ^^ 8) ?P) = (xtime ^^ 8) ((xtime ^^ 32) ?P)"
    by (simp only: xtime_pow_add[symmetric] add.commute)
  also have "(xtime ^^ 32) (ucast b) = (xtime ^^ 8) ((xtime ^^ 24) (ucast b))"
    using xtime_pow_add[of 8 24 "ucast b"] by simp
  finally have "poly_crc (bs @ [b]) = Z (poly_crc bs XOR push_bit 24 (ucast b))"
    by (simp only: xtime24_byte Z_is_xtime8 xtime_pow_xor poly_crc_xtime32)
  then show ?thesis by (simp only: crc_update_Z)
qed

lemma poly_crc_is_crc_bytes: "poly_crc bs = crc_bytes 0 bs"
proof (induction bs rule: rev_induct)
  case Nil
  show ?case by (simp add: poly_crc_xtime32 message_poly_def poly_rem_def xtime_pow_0 crc_bytes_def)
next
  case (snoc b bs)
  then show ?case by (simp add: poly_crc_snoc crc_bytes_def)
qed

lemma crc_update_zero_byte: "crc_update s 0 = Z s"
  by (simp add: crc_update_Z)

lemma crc_bytes_zero_tail: "crc_bytes s (replicate k 0) = (Z ^^ k) s"
proof (induction k arbitrary: s)
  case 0
  then show ?case by (simp add: crc_bytes_def)
next
  case (Suc k)
  have "crc_bytes s (replicate (Suc k) 0) = crc_bytes (Z s) (replicate k 0)"
    by (simp add: crc_bytes_def crc_update_zero_byte)
  then show ?case by (simp add: Suc.IH funpow_swap1)
qed

lemma crctab_gen_Z: "crctab_gen k i = (Z ^^ k) (R (ucast i))"
  by (induction k) (simp_all add: crctab_gen_0 crctab_gen_Suc del: crctab_gen.simps)

lemma crc_bytes_single: "crc_bytes 0 [b] = R (ucast b)"
  by (simp add: crc_bytes_def crc_update_Z Z_push24)

lemma crctab_is_crc_bytes:
  "crctab k i = ucast (crc_bytes 0 (of_nat i # replicate k 0))"
proof -
  have "R (ucast (of_nat i :: u64)) = R (ucast (of_nat i :: u8))"
    by (rule R_eqI, rule low8_eqI) (auto simp: bit_simps)
  moreover have "crc_bytes 0 ((of_nat i :: u8) # replicate k 0) = crc_bytes (crc_bytes 0 [of_nat i]) (replicate k 0)"
    by (simp add: crc_bytes_def)
  ultimately show ?thesis
    by (simp only: crctab_eq_gen crctab_gen_Z crc_bytes_zero_tail crc_bytes_single)
qed

lemma crctab_32bit: "crctab k i < 2 ^ 32"
proof -
  have "crctab k i = ucast (crctab_gen k (of_nat i))" by (rule crctab_eq_gen)
  moreover have "(ucast (x :: u32) :: u64) < 2 ^ 32" for x
  proof -
    have "(ucast x :: u64) = ucast x AND mask 32"
      by (rule bit_word_eqI) (auto simp: bit_simps dest: bit_imp_le_length)
    moreover have "(ucast x :: u64) AND mask 32 < 2 ^ 32"
      by (rule and_mask_less') simp
    ultimately show ?thesis by simp
  qed
  ultimately show ?thesis by simp
qed

section \<open>Powers of x modulo the generator\<close>

definition mulmod_step :: "u32 \<Rightarrow> u32 \<Rightarrow> bool \<Rightarrow> u32" where
  "mulmod_step a acc c = xtime acc XOR (if c then a else 0)"

definition word_coeffs :: "u32 \<Rightarrow> bool list" where
  "word_coeffs v = message_poly [ucast (drop_bit 24 v), ucast (drop_bit 16 v), ucast (drop_bit 8 v), ucast v]"

definition mulmod :: "u32 \<Rightarrow> u32 \<Rightarrow> u32" where
  "mulmod a v = foldl (mulmod_step a) 0 (word_coeffs v)"

lemma x_pow_mod_funpow: "x_pow_mod n = (xtime ^^ n) 1"
  by (simp add: x_pow_mod_def poly_rem_def poly_rem_zeros poly_rem_step_def xtime_0)

lemma mulmod_step_shift:
  "mulmod_step ((xtime ^^ m) 1) ((xtime ^^ m) q) c = (xtime ^^ m) (poly_rem_step q c)"
proof -
  have "xtime ((xtime ^^ m) q) = (xtime ^^ m) (xtime q)" by (simp add: funpow_swap1)
  then show ?thesis
    by (simp add: mulmod_step_def poly_rem_step_def xtime_pow_xor xtime_pow_0)
qed

lemma foldl_mulmod_shift:
  "foldl (mulmod_step ((xtime ^^ m) 1)) ((xtime ^^ m) q) cs = (xtime ^^ m) (foldl poly_rem_step q cs)"
  by (induction cs arbitrary: q) (simp_all add: mulmod_step_shift)

lemma poly_rem_word_coeffs: "poly_rem (word_coeffs v) = v"
proof -
  let ?b3 = "ucast (drop_bit 24 v) :: u8" and ?b2 = "ucast (drop_bit 16 v) :: u8"
  and ?b1 = "ucast (drop_bit 8 v) :: u8" and ?b0 = "ucast v :: u8"
  have s: "poly_rem (message_poly (bs @ [b])) = (xtime ^^ 8) (poly_rem (message_poly bs)) XOR ucast b" for bs b
    by (rule poly_rem_snoc)
  have e: "poly_rem (message_poly []) = 0" by (simp add: poly_rem_def message_poly_def)
  have 1: "poly_rem (message_poly [?b3]) = ucast ?b3"
    using s[of "[]" ?b3] by (simp add: e xtime_pow_0)
  have 2: "poly_rem (message_poly [?b3, ?b2]) = push_bit 8 (ucast ?b3) XOR ucast ?b2"
  proof -
    have "(xtime ^^ 8) (ucast ?b3 :: u32) = push_bit 8 (ucast ?b3)"
      by (rule xtime_pow_small) (simp, rule bit_word_eqI, auto simp: bit_simps dest: bit_imp_le_length)
    then show ?thesis using s[of "[?b3]" ?b2] by (simp add: 1)
  qed
  have 3: "poly_rem (message_poly [?b3, ?b2, ?b1]) = push_bit 16 (ucast ?b3) XOR push_bit 8 (ucast ?b2) XOR ucast ?b1"
  proof -
    have "(xtime ^^ 8) (push_bit 8 (ucast ?b3) XOR ucast ?b2 :: u32) = push_bit 8 (push_bit 8 (ucast ?b3) XOR ucast ?b2)"
      by (rule xtime_pow_small) (simp, rule bit_word_eqI, auto simp: bit_simps dest: bit_imp_le_length)
    then show ?thesis using s[of "[?b3, ?b2]" ?b1] by (simp add: 2 push_bit_xor xor.assoc)
  qed
  have 4: "poly_rem (message_poly [?b3, ?b2, ?b1, ?b0])
      = push_bit 24 (ucast ?b3) XOR push_bit 16 (ucast ?b2) XOR push_bit 8 (ucast ?b1) XOR ucast ?b0"
  proof -
    have "(xtime ^^ 8) (push_bit 16 (ucast ?b3) XOR push_bit 8 (ucast ?b2) XOR ucast ?b1 :: u32)
           = push_bit 8 (push_bit 16 (ucast ?b3) XOR push_bit 8 (ucast ?b2) XOR ucast ?b1)"
      by (rule xtime_pow_small) (simp, rule bit_word_eqI, auto simp: bit_simps dest: bit_imp_le_length)
    then show ?thesis using s[of "[?b3, ?b2, ?b1]" ?b0] by (simp add: 3 push_bit_xor xor.assoc)
  qed
  have "push_bit 24 (ucast ?b3) XOR push_bit 16 (ucast ?b2) XOR push_bit 8 (ucast ?b1) XOR ucast ?b0 = v"
  proof (rule bit_word_eqI)
    fix n assume "n < LENGTH(32)"
    then consider "n < 8" | "8 \<le> n \<and> n < 16" | "16 \<le> n \<and> n < 24" | "24 \<le> n \<and> n < 32"
      by fastforce
    then show "bit (push_bit 24 (ucast ?b3) XOR push_bit 16 (ucast ?b2) XOR push_bit 8 (ucast ?b1) XOR ucast ?b0 :: u32) n
        = bit v n"
      by cases (auto simp: bit_simps)
  qed
  then show ?thesis using 4 by (simp add: word_coeffs_def)
qed

lemma mulmod_x_pow: "mulmod (x_pow_mod m) v = (xtime ^^ m) v"
proof -
  have "foldl (mulmod_step ((xtime ^^ m) 1)) ((xtime ^^ m) 0) (word_coeffs v)
        = (xtime ^^ m) (foldl poly_rem_step 0 (word_coeffs v))"
    by (rule foldl_mulmod_shift)
  then show ?thesis
    using poly_rem_word_coeffs[of v]
    by (simp add: mulmod_def x_pow_mod_funpow xtime_pow_0 poly_rem_def)
qed

lemma x_pow_mod_add: "x_pow_mod (m + n) = mulmod (x_pow_mod m) (x_pow_mod n)"
  by (simp add: mulmod_x_pow) (simp add: x_pow_mod_funpow funpow_add)


lemmas mulmod_eval = mulmod_def word_coeffs_def message_poly_def byte_bits_def mulmod_step_def xtime_def

lemma x_pow_mod_32: "x_pow_mod 32 = 0x04C11DB7"
proof -
  have "x_pow_mod 32 = ((xtime ^^ 8) ^^ 4) 1"
    by (simp only: x_pow_mod_funpow funpow_mult) simp
  also have "\<dots> = (xtime ^^ 8) ((xtime ^^ 8) ((xtime ^^ 8) ((xtime ^^ 8) 1)))"
    by (simp add: numeral_eq_Suc)
  also have "\<dots> = 0x04C11DB7"
    by (simp only: xtime8_unfold) (simp add: xtime_def)
  finally show ?thesis .
qed

lemma x_pow_mod_64: "x_pow_mod 64 = 0x490D678D"
proof -
  have "x_pow_mod (32 + 32) = mulmod 0x04C11DB7 0x04C11DB7"
    by (simp only: x_pow_mod_add x_pow_mod_32 x_pow_mod_32)
  also have "\<dots> = 0x490D678D"
    by (simp add: mulmod_eval)
  finally show ?thesis by simp
qed

lemma x_pow_mod_128: "x_pow_mod 128 = 0xE8A45605"
proof -
  have "x_pow_mod (64 + 64) = mulmod 0x490D678D 0x490D678D"
    by (simp only: x_pow_mod_add x_pow_mod_64 x_pow_mod_64)
  also have "\<dots> = 0xE8A45605"
    by (simp add: mulmod_eval)
  finally show ?thesis by simp
qed

lemma x_pow_mod_192: "x_pow_mod 192 = 0xC5B9CD4C"
proof -
  have "x_pow_mod (128 + 64) = mulmod 0xE8A45605 0x490D678D"
    by (simp only: x_pow_mod_add x_pow_mod_128 x_pow_mod_64)
  also have "\<dots> = 0xC5B9CD4C"
    by (simp add: mulmod_eval)
  finally show ?thesis by simp
qed

lemma x_pow_mod_256: "x_pow_mod 256 = 0x75BE46B7"
proof -
  have "x_pow_mod (128 + 128) = mulmod 0xE8A45605 0xE8A45605"
    by (simp only: x_pow_mod_add x_pow_mod_128 x_pow_mod_128)
  also have "\<dots> = 0x75BE46B7"
    by (simp add: mulmod_eval)
  finally show ?thesis by simp
qed

lemma x_pow_mod_320: "x_pow_mod 320 = 0x569700E5"
proof -
  have "x_pow_mod (256 + 64) = mulmod 0x75BE46B7 0x490D678D"
    by (simp only: x_pow_mod_add x_pow_mod_256 x_pow_mod_64)
  also have "\<dots> = 0x569700E5"
    by (simp add: mulmod_eval)
  finally show ?thesis by simp
qed

lemma x_pow_mod_512: "x_pow_mod 512 = 0xE6228B11"
proof -
  have "x_pow_mod (256 + 256) = mulmod 0x75BE46B7 0x75BE46B7"
    by (simp only: x_pow_mod_add x_pow_mod_256 x_pow_mod_256)
  also have "\<dots> = 0xE6228B11"
    by (simp add: mulmod_eval)
  finally show ?thesis by simp
qed

lemma x_pow_mod_576: "x_pow_mod 576 = 0x8833794C"
proof -
  have "x_pow_mod (512 + 64) = mulmod 0xE6228B11 0x490D678D"
    by (simp only: x_pow_mod_add x_pow_mod_512 x_pow_mod_64)
  also have "\<dots> = 0x8833794C"
    by (simp add: mulmod_eval)
  finally show ?thesis by simp
qed

lemma x_pow_mod_640: "x_pow_mod 640 = 0xF91A84E2"
proof -
  have "x_pow_mod (512 + 128) = mulmod 0xE6228B11 0xE8A45605"
    by (simp only: x_pow_mod_add x_pow_mod_512 x_pow_mod_128)
  also have "\<dots> = 0xF91A84E2"
    by (simp add: mulmod_eval)
  finally show ?thesis by simp
qed

lemma x_pow_mod_704: "x_pow_mod 704 = 0xE2CA9D03"
proof -
  have "x_pow_mod (640 + 64) = mulmod 0xF91A84E2 0x490D678D"
    by (simp only: x_pow_mod_add x_pow_mod_640 x_pow_mod_64)
  also have "\<dots> = 0xE2CA9D03"
    by (simp add: mulmod_eval)
  finally show ?thesis by simp
qed

lemma x_pow_mod_1024: "x_pow_mod 1024 = 0x567FDDEB"
proof -
  have "x_pow_mod (512 + 512) = mulmod 0xE6228B11 0xE6228B11"
    by (simp only: x_pow_mod_add x_pow_mod_512 x_pow_mod_512)
  also have "\<dots> = 0x567FDDEB"
    by (simp add: mulmod_eval)
  finally show ?thesis by simp
qed

lemma x_pow_mod_1088: "x_pow_mod 1088 = 0x10BD4D7C"
proof -
  have "x_pow_mod (1024 + 64) = mulmod 0x567FDDEB 0x490D678D"
    by (simp only: x_pow_mod_add x_pow_mod_1024 x_pow_mod_64)
  also have "\<dots> = 0x10BD4D7C"
    by (simp add: mulmod_eval)
  finally show ?thesis by simp
qed

lemma x_pow_mod_2048: "x_pow_mod 2048 = 0x88FE2237"
proof -
  have "x_pow_mod (1024 + 1024) = mulmod 0x567FDDEB 0x567FDDEB"
    by (simp only: x_pow_mod_add x_pow_mod_1024 x_pow_mod_1024)
  also have "\<dots> = 0x88FE2237"
    by (simp add: mulmod_eval)
  finally show ?thesis by simp
qed

lemma x_pow_mod_2112: "x_pow_mod 2112 = 0xCBCF3BCB"
proof -
  have "x_pow_mod (2048 + 64) = mulmod 0x88FE2237 0x490D678D"
    by (simp only: x_pow_mod_add x_pow_mod_2048 x_pow_mod_64)
  also have "\<dots> = 0xCBCF3BCB"
    by (simp add: mulmod_eval)
  finally show ?thesis by simp
qed

lemma x_pow_mod_3072: "x_pow_mod 3072 = 0x3CD4B4ED"
proof -
  have "x_pow_mod (2048 + 1024) = mulmod 0x88FE2237 0x567FDDEB"
    by (simp only: x_pow_mod_add x_pow_mod_2048 x_pow_mod_1024)
  also have "\<dots> = 0x3CD4B4ED"
    by (simp add: mulmod_eval)
  finally show ?thesis by simp
qed

lemma x_pow_mod_3136: "x_pow_mod 3136 = 0x1D97B060"
proof -
  have "x_pow_mod (3072 + 64) = mulmod 0x3CD4B4ED 0x490D678D"
    by (simp only: x_pow_mod_add x_pow_mod_3072 x_pow_mod_64)
  also have "\<dots> = 0x1D97B060"
    by (simp add: mulmod_eval)
  finally show ?thesis by simp
qed

lemma x_pow_mod_4096: "x_pow_mod 4096 = 0x0E857E71"
proof -
  have "x_pow_mod (2048 + 2048) = mulmod 0x88FE2237 0x88FE2237"
    by (simp only: x_pow_mod_add x_pow_mod_2048 x_pow_mod_2048)
  also have "\<dots> = 0x0E857E71"
    by (simp add: mulmod_eval)
  finally show ?thesis by simp
qed

lemma x_pow_mod_4160: "x_pow_mod 4160 = 0x10D44E4E"
proof -
  have "x_pow_mod (4096 + 64) = mulmod 0x0E857E71 0x490D678D"
    by (simp only: x_pow_mod_add x_pow_mod_4096 x_pow_mod_64)
  also have "\<dots> = 0x10D44E4E"
    by (simp add: mulmod_eval)
  finally show ?thesis by simp
qed

lemma x_pow_mod_6144: "x_pow_mod 6144 = 0x413686A0"
proof -
  have "x_pow_mod (3072 + 3072) = mulmod 0x3CD4B4ED 0x3CD4B4ED"
    by (simp only: x_pow_mod_add x_pow_mod_3072 x_pow_mod_3072)
  also have "\<dots> = 0x413686A0"
    by (simp add: mulmod_eval)
  finally show ?thesis by simp
qed

lemma x_pow_mod_6208: "x_pow_mod 6208 = 0x9DEF026A"
proof -
  have "x_pow_mod (6144 + 64) = mulmod 0x413686A0 0x490D678D"
    by (simp only: x_pow_mod_add x_pow_mod_6144 x_pow_mod_64)
  also have "\<dots> = 0x9DEF026A"
    by (simp add: mulmod_eval)
  finally show ?thesis by simp
qed

chapter \<open>The claims\<close>

section \<open>C3: the dispatch\<close>

text \<open>
  The order that the specification gives for the selection (it is also the order of the
  chain that is commented out in \<^verbatim>\<open>crc_sum_stream\<close>): the first probe that succeeds
  decides.
\<close>

definition spec_best_available :: "platform \<Rightarrow> backend" where
  "spec_best_available p =
     (if avx512_supported p then CKSUM_AVX512
      else if avx2_supported p then CKSUM_AVX2
      else if pclmul_supported p then CKSUM_PCLMUL
      else if vmull_supported p then CKSUM_VMULL
      else CKSUM_SLICE8)"

definition full_platform :: platform where
  "full_platform =
     \<lparr>USE_PCLMUL_CRC32 = True, GL_CRC_X86_64_PCLMUL = True, USE_AVX2_CRC32 = True,
      USE_AVX512_CRC32 = True, USE_VMULL_CRC32 = False,
      cpu_pclmul = True, cpu_avx = True, cpu_avx2 = True, cpu_vpclmulqdq = True,
      cpu_avx512bw = True, cpu_avx512f = True, hwcap_pmull = False\<rparr>"

text \<open>
  C3 as stated fails: on a machine where the AVX-512 probe succeeds, the first call of
  \<^verbatim>\<open>crc_sum_stream\<close> still stores \<^verbatim>\<open>cksum_slice8\<close>, not the backend that the order of the
  specification gives.
\<close>

theorem C3_dispatch_counterexample:
  "avx512_supported full_platform
   \<and> spec_best_available full_platform = CKSUM_AVX512
   \<and> (\<forall>ext stream. snd (crc_sum_stream ext None stream) = Some CKSUM_SLICE8)
   \<and> select_cksum_fp None \<noteq> spec_best_available full_platform"
  by (simp add: avx512_supported_def spec_best_available_def full_platform_def
      crc_sum_stream_def select_cksum_fp_def Let_def split: sum.splits prod.splits)

text \<open>
  C3, amended: on the first call (the static pointer is null) the backend selected is the
  scalar slice-by-8 one, whatever the machine supports; the selection is stored, and a
  call that finds a stored backend uses it and leaves it stored, so every later call runs
  the backend of the first. What a call that finds the backend \<open>f\<close> stored writes is the
  result of running \<open>f\<close> on the stream (\<^verbatim>\<open>cksum_slice8\<close> of this file when \<open>f\<close> is that one,
  the function of the other translation unit otherwise), with the length folded in and
  the complement taken, and its failure when \<open>f\<close> fails; a second call after a call that
  found \<open>f\<close> is a call that finds \<open>f\<close>; and a stored backend other than \<^verbatim>\<open>cksum_slice8\<close>
  that fails makes the call fail, whatever \<^verbatim>\<open>cksum_slice8\<close> would return.
\<close>

theorem C3_dispatch_slice8_memoized:
  "select_cksum_fp None = CKSUM_SLICE8
   \<and> snd (crc_sum_stream ext None stream) = Some CKSUM_SLICE8
   \<and> select_cksum_fp (Some f) = f
   \<and> snd (crc_sum_stream ext (Some f) stream) = Some f
   \<and> crc_sum_stream ext (snd (crc_sum_stream ext None stream)) stream' =
       crc_sum_stream ext None stream'
   \<and> fst (crc_sum_stream ext None stream) =
       (case cksum_slice8 stream of
          Inl e \<Rightarrow> Inl e
        | Inr (crc, total_bytes) \<Rightarrow>
            Inr (ucast (NOT (length_fold crc total_bytes) AND 0xFFFFFFFF), total_bytes))
   \<and> fst (crc_sum_stream ext (Some f) stream) =
       (case (if f = CKSUM_SLICE8 then cksum_slice8 stream else ext f stream) of
          Inl e \<Rightarrow> Inl e
        | Inr (crc, total_bytes) \<Rightarrow>
            Inr (ucast (NOT (length_fold crc total_bytes) AND 0xFFFFFFFF), total_bytes))
   \<and> crc_sum_stream ext (snd (crc_sum_stream ext (Some f) stream)) stream' =
       crc_sum_stream ext (Some f) stream'
   \<and> fst (crc_sum_stream (\<lambda>g fpo. Inl IO_ERROR) (Some CKSUM_PCLMUL) stream) = Inl IO_ERROR
   \<and> fst (crc_sum_stream (\<lambda>g fpo. Inr (0, 0)) (Some CKSUM_AVX512) None) = Inr (0xFFFFFFFF, 0)
   \<and> fst (crc_sum_stream (\<lambda>g fpo. Inr (0, 0)) None None) = Inl INVALID_ARGUMENT"
proof -
  have lf: "length_fold 0 0 = 0"
    by (subst length_fold.simps) simp
  have m: "ucast (NOT (0 :: u64) AND 0xFFFFFFFF) = (0xFFFFFFFF :: u32)"
    by simp
  show ?thesis
    by (simp add: crc_sum_stream_def select_cksum_fp_def call_cksum_fp_def Let_def lf m
        cksum_slice8_def split: sum.splits prod.splits)
qed

section \<open>C8: the reference vector "123456789"\<close>

lemma slice8_round_12345678: "slice8_round 0 0x34333231 0x38373635 = 552040866"
  by (simp only: slice8_round_def Let_def) (simp add: htobe32_def crctab_eval)

lemma slice8_block_123456789:
  "slice8_block 0 [0x31, 0x32, 0x33, 0x34, 0x35, 0x36, 0x37, 0x38, 0x39] = 139748018559"
  apply (simp only: slice8_block.simps foldl.simps)
  apply (simp add: load_u32_def slice8_round_12345678 crc_byte_rule_def crctab_eval)
  done

lemma slice8_loop_123456789:
  "slice8_loop (fopen_bytes [0x31, 0x32, 0x33, 0x34, 0x35, 0x36, 0x37, 0x38, 0x39]) 0 0
   = Inr (139748018559, 9, \<lparr>pending = [], eof_ind = True, err_ind = False\<rparr>)"
  by (subst slice8_loop.simps)
     (simp add: fopen_bytes_def fread_def BUFLEN_def feof_def Let_def slice8_block_123456789
        del: slice8_block.simps)

lemma length_fold_123456789: "length_fold 139748018559 9 = 35776146808814"
  apply (subst length_fold.simps)
  apply (subst length_fold.simps)
  apply (simp add: crc_byte_rule_def crctab_eval)
  done

lemma crc_sum_stream_123456789:
  "crc_sum_stream ext None
     (Some (fopen_bytes [0x31, 0x32, 0x33, 0x34, 0x35, 0x36, 0x37, 0x38, 0x39]))
   = (Inr (0x377A6011, 9), Some CKSUM_SLICE8)"
  by (simp add: crc_sum_stream_def select_cksum_fp_def call_cksum_fp_def cksum_slice8_def
      slice8_loop_123456789 ferror_def length_fold_123456789)

text \<open>
  C8 as stated fails: the pipeline does not yield \<open>0x765E7680\<close> on the nine bytes
  \<open>0x31 \<dots> 0x39\<close>.
\<close>

theorem C8_reference_vector_counterexample:
  "\<forall>ext. fst (crc_sum_stream ext None
              (Some (fopen_bytes [0x31, 0x32, 0x33, 0x34, 0x35, 0x36, 0x37, 0x38, 0x39])))
         \<noteq> Inr (0x765E7680, 9)"
  by (simp add: crc_sum_stream_123456789)

text \<open>
  C8, amended: running the full pipeline (the backend, then the length fold, then the
  complement) on the nine bytes \<open>0x31 \<dots> 0x39\<close> of "123456789" yields the checksum
  \<open>0x377A6011\<close> (930766865) and the length 9.
\<close>

theorem C8_reference_vector:
  "fst (crc_sum_stream ext None
          (Some (fopen_bytes [0x31, 0x32, 0x33, 0x34, 0x35, 0x36, 0x37, 0x38, 0x39])))
   = Inr (0x377A6011, 9)"
  by (simp add: crc_sum_stream_123456789)

section \<open>C5: one slice-by-8 round is eight applications of the byte rule\<close>

text \<open>
  C5: for every CRC state and every eight bytes, one round of the slice-by-8 loop (the
  first four bytes, read as a big-endian word, XORed into the state; then \<open>T\<^sub>7 \<dots> T\<^sub>4\<close> of
  the bytes of the state combined with \<open>T\<^sub>3 \<dots> T\<^sub>0\<close> of the bytes of the second word) yields
  the state that the byte rule yields on the eight bytes in order. The state of the code
  is a \<^verbatim>\<open>uint_fast32_t\<close>: the round depends on its low 32 bits only and returns a value
  below \<open>2\<^sup>3\<^sup>2\<close>. Hence a buffer, with its tail of 0 to 7 bytes done by the byte rule, and
  a whole stream are processed as the byte rule would: the low 32 bits of the value that
  \<^verbatim>\<open>cksum_slice8\<close> stores are the byte-by-byte CRC of the input, and the length is its
  number of bytes.
\<close>

theorem C5_slice8_round_is_byte_rule:
  "slice8_round crc (load_u32 b0 b1 b2 b3) (load_u32 b4 b5 b6 b7)
     = ucast (crc_bytes (ucast crc) [b0, b1, b2, b3, b4, b5, b6, b7])
   \<and> ucast (slice8_block crc buf) = crc_bytes (ucast crc) buf
   \<and> (length bs < 2 ^ 64 \<longrightarrow>
        (\<exists>c. cksum_slice8 (Some (fopen_bytes bs)) = Inr (c, of_nat (length bs))
             \<and> ucast c = crc_bytes 0 bs))"
  using slice8_round_eq slice8_block_crc_bytes cksum_slice8_correct by blast

theorem C5_slice8_round_is_byte_rule_witness:
  "length [0x31, 0x32, 0x33, 0x34, 0x35, 0x36, 0x37, 0x38, 0x39 :: u8] < 2 ^ 64
   \<and> cksum_slice8 (Some (fopen_bytes [0x31, 0x32, 0x33, 0x34, 0x35, 0x36, 0x37, 0x38, 0x39]))
       = Inr (139748018559, 9)
   \<and> crc_bytes 0 [0x31, 0x32, 0x33, 0x34, 0x35, 0x36, 0x37, 0x38, 0x39] = 0x89A1897F"
proof -
  let ?bs = "[0x31, 0x32, 0x33, 0x34, 0x35, 0x36, 0x37, 0x38, 0x39 :: u8]"
  have l: "length ?bs < 2 ^ 64" by simp
  have e: "cksum_slice8 (Some (fopen_bytes ?bs)) = Inr (139748018559, 9)"
    by (simp add: cksum_slice8_def slice8_loop_123456789 ferror_def)
  from C5_slice8_round_is_byte_rule[where bs = ?bs] l
  obtain c where "cksum_slice8 (Some (fopen_bytes ?bs)) = Inr (c, of_nat (length ?bs))"
    and "ucast c = crc_bytes 0 ?bs" by blast
  with e have "crc_bytes 0 ?bs = ucast (139748018559 :: u64)" by simp
  then show ?thesis using l e by simp
qed

section \<open>C2: the final post-processing\<close>

lemma crc_update_0_0: "crc_update 0 0 = 0"
  by (simp add: crc_update_Z Z_0)

lemma crc_bytes_zeros: "crc_bytes 0 (replicate n 0) = 0"
  by (induction n) (simp_all add: crc_bytes_def crc_update_0_0)

lemma length_bytes_le_256: "length_bytes_le 256 = [0, 1]"
  apply (subst length_bytes_le.simps)
  apply (subst length_bytes_le.simps)
  apply (subst length_bytes_le.simps)
  apply simp
  done

lemma crc_bytes_0_1: "crc_bytes 0 [0, 1] = 0x04C11DB7"
  by (simp add: crc_bytes_def crc_update_def crc_remainder_eval)

lemma crc_bytes_1_0: "crc_bytes 0 [1, 0] = 0xD219C1DC"
  by (simp add: crc_bytes_def crc_update_def crc_remainder_eval)

text \<open>
  C2 as stated fails: for the input of 256 zero bytes the length bytes that are folded in
  are \<open>0x00, 0x01\<close> (least significant first), and the checksum differs from the
  complement of the CRC of the data followed by the big-endian bytes \<open>0x01, 0x00\<close>.
\<close>

theorem C2_length_fold_counterexample:
  "\<forall>ext. fst (crc_sum_stream ext None (Some (fopen_bytes (replicate 256 0))))
         \<noteq> Inr (NOT (crc_bytes 0 (replicate 256 0 @ length_bytes_be 256)), 256)"
proof -
  have "crc_bytes 0 (replicate 256 0 @ length_bytes_le 256) = 0x04C11DB7"
    by (simp only: crc_bytes_append crc_bytes_zeros length_bytes_le_256 crc_bytes_0_1)
  moreover have "crc_bytes 0 (replicate 256 0 @ length_bytes_be 256) = 0xD219C1DC"
    by (simp only: crc_bytes_append crc_bytes_zeros length_bytes_be_def length_bytes_le_256
        rev.simps append.simps crc_bytes_1_0)
  moreover have "fst (crc_sum_stream ext None (Some (fopen_bytes (replicate 256 0))))
         = Inr (NOT (crc_bytes 0 (replicate 256 0 @ length_bytes_le (length (replicate 256 (0::u8))))),
                of_nat (length (replicate 256 (0::u8))))" for ext
    by (rule crc_sum_stream_correct) simp
  ultimately show ?thesis by simp
qed

text \<open>
  C2, amended: for every input \<open>data\<close> of byte-length \<open>\<ell>\<close> (below \<open>2\<^sup>6\<^sup>4\<close>), the checksum
  that \<^verbatim>\<open>crc_sum_stream\<close> emits is the bitwise complement, on 32 bits, of the CRC of
  \<open>data\<close> followed by the length bytes, where the length bytes are the minimal
  little-endian encoding of \<open>\<ell>\<close> (least significant byte first, no trailing zero byte,
  empty when \<open>\<ell> = 0\<close>), each folded in with the \<open>T\<^sub>0\<close> byte rule; the length reported is \<open>\<ell>\<close>.
\<close>

theorem C2_length_fold_little_endian:
  "length bs < 2 ^ 64 \<Longrightarrow>
   fst (crc_sum_stream ext None (Some (fopen_bytes bs)))
     = Inr (NOT (crc_bytes 0 (bs @ length_bytes_le (length bs))), of_nat (length bs))"
  by (rule crc_sum_stream_correct)

theorem C2_length_fold_little_endian_witness:
  "length (replicate 256 (0::u8)) < 2 ^ 64
   \<and> fst (crc_sum_stream (\<lambda>f stream. Inl IO_ERROR) None (Some (fopen_bytes (replicate 256 0))))
       = Inr (0xFB3EE248, 256)"
proof -
  have l: "length (replicate 256 (0::u8)) < 2 ^ 64" by simp
  have "crc_bytes 0 (replicate 256 0 @ length_bytes_le 256) = 0x04C11DB7"
    by (simp only: crc_bytes_append crc_bytes_zeros length_bytes_le_256 crc_bytes_0_1)
  then show ?thesis
    using C2_length_fold_little_endian[OF l, of "\<lambda>f stream. Inl IO_ERROR"] by simp
qed

section \<open>C4: the construction of the table\<close>

text \<open>
  C4: the generator polynomial has the low bits \<open>0x04C11DB7\<close>; the entry
  \<^verbatim>\<open>crctab[0][i]\<close> is the CRC of the single byte \<open>i\<close>, that is the remainder of
  \<open>i \<cdot> x\<^sup>3\<^sup>2\<close> modulo \<open>G\<close>; the entry \<^verbatim>\<open>crctab[k][i]\<close> is the CRC of the byte \<open>i\<close> followed
  by \<open>k\<close> zero bytes; and every entry is a 32-bit value. The CRC of a message is the
  remainder of its polynomial times \<open>x\<^sup>3\<^sup>2\<close> (\<open>poly_crc\<close>), which is what the byte rule
  computes from 0 (\<open>crc_bytes 0\<close>). The table has the entries with \<open>k < 8\<close> and
  \<open>i < 256\<close>; the equations hold for the generator's loops at every index.
\<close>

theorem C4_crctab_is_crc_of_byte_and_zeros:
  "GEN = 0x04C11DB7
   \<and> crctab 0 i = ucast (poly_rem (byte_bits (of_nat i) @ replicate 32 False))
   \<and> crctab k i = ucast (poly_crc (of_nat i # replicate k 0))
   \<and> crctab k i = ucast (crc_bytes 0 (of_nat i # replicate k 0))
   \<and> crctab k i < 2 ^ 32"
proof -
  have "crctab 0 i = ucast (crc_bytes 0 (of_nat i # replicate 0 0))"
    by (rule crctab_is_crc_bytes)
  then have "crctab 0 i = ucast (poly_crc [of_nat i])"
    by (simp add: poly_crc_is_crc_bytes)
  then have "crctab 0 i = ucast (poly_rem (byte_bits (of_nat i) @ replicate 32 False))"
    by (simp add: poly_crc_def message_poly_def)
  then show ?thesis
    using crctab_is_crc_bytes[of k i] crctab_32bit[of k i] GEN_val
    by (simp add: poly_crc_is_crc_bytes)
qed

section \<open>C6: the folding constants\<close>

text \<open>
  C6 as stated fails: \<open>x\<^sup>2\<^sup>0\<^sup>4\<^sup>8\<close> and \<open>x\<^sup>2\<^sup>1\<^sup>1\<^sup>2\<close> modulo \<open>G\<close> (the exponents \<open>256 \<cdot> 8\<close> and
  \<open>256 \<cdot> 8 + 64\<close>) are not \<open>0x3CD4B4ED\<close> and \<open>0x1D97B060\<close>, and \<open>x\<^sup>4\<^sup>0\<^sup>9\<^sup>6\<close> and \<open>x\<^sup>4\<^sup>1\<^sup>6\<^sup>0\<close> (the
  exponents \<open>512 \<cdot> 8\<close> and \<open>512 \<cdot> 8 + 64\<close>) are not \<open>0x413686A0\<close> and \<open>0x9DEF026A\<close>.
\<close>

theorem C6_folding_constants_counterexample:
  "x_pow_mod (256 * 8) \<noteq> 0x3CD4B4ED \<and> x_pow_mod (256 * 8 + 64) \<noteq> 0x1D97B060
   \<and> x_pow_mod (512 * 8) \<noteq> 0x413686A0 \<and> x_pow_mod (512 * 8 + 64) \<noteq> 0x9DEF026A
   \<and> avx2_twelve_mult_constant
       \<noteq> mm256_set_epi64x (ucast (x_pow_mod (256 * 8 + 64))) (ucast (x_pow_mod (256 * 8)))
                            (ucast (x_pow_mod (256 * 8 + 64))) (ucast (x_pow_mod (256 * 8)))"
  by (simp add: x_pow_mod_2048 x_pow_mod_2112 x_pow_mod_4096 x_pow_mod_4160
      avx2_twelve_mult_constant_def mm256_set_epi64x_def mm_set_epi64x_def)

text \<open>
  C6, amended: each folding constant is the stated power of \<open>x\<close> modulo \<open>G\<close>, as an exact
  GF(2) polynomial remainder, with the exponents \<open>256 \<cdot> 12\<close> and \<open>512 \<cdot> 12\<close> (the constants
  are the twelve-fold ones) in the place of \<open>256 \<cdot> 8\<close> and \<open>512 \<cdot> 8\<close>:
  \<open>x\<^sup>1\<^sup>2\<^sup>8 = 0xE8A45605\<close>, \<open>x\<^sup>1\<^sup>2\<^sup>8\<^sup>+\<^sup>6\<^sup>4 = 0xC5B9CD4C\<close>, \<open>x\<^sup>5\<^sup>1\<^sup>2 = 0xE6228B11\<close>,
  \<open>x\<^sup>5\<^sup>1\<^sup>2\<^sup>+\<^sup>6\<^sup>4 = 0x8833794C\<close>, \<open>x\<^sup>2\<^sup>5\<^sup>6 = 0x75BE46B7\<close>, \<open>x\<^sup>2\<^sup>5\<^sup>6\<^sup>+\<^sup>6\<^sup>4 = 0x569700E5\<close>,
  \<open>x\<^sup>2\<^sup>5\<^sup>6\<^sup>\<cdot>\<^sup>4 = 0x567FDDEB\<close>, \<open>x\<^sup>2\<^sup>5\<^sup>6\<^sup>\<cdot>\<^sup>4\<^sup>+\<^sup>6\<^sup>4 = 0x10BD4D7C\<close>, \<open>x\<^sup>2\<^sup>5\<^sup>6\<^sup>\<cdot>\<^sup>1\<^sup>2 = 0x3CD4B4ED\<close>,
  \<open>x\<^sup>2\<^sup>5\<^sup>6\<^sup>\<cdot>\<^sup>1\<^sup>2\<^sup>+\<^sup>6\<^sup>4 = 0x1D97B060\<close>, \<open>x\<^sup>5\<^sup>1\<^sup>2\<^sup>\<cdot>\<^sup>4 = 0x88FE2237\<close>, \<open>x\<^sup>5\<^sup>1\<^sup>2\<^sup>\<cdot>\<^sup>4\<^sup>+\<^sup>6\<^sup>4 = 0xCBCF3BCB\<close>,
  \<open>x\<^sup>5\<^sup>1\<^sup>2\<^sup>\<cdot>\<^sup>1\<^sup>2 = 0x413686A0\<close> and \<open>x\<^sup>5\<^sup>1\<^sup>2\<^sup>\<cdot>\<^sup>1\<^sup>2\<^sup>+\<^sup>6\<^sup>4 = 0x9DEF026A\<close>; and these are the values that
  the three SIMD backends load into the low and high halves of their constants.
\<close>

theorem C6_folding_constants:
  "x_pow_mod 128 = 0xE8A45605 \<and> x_pow_mod (128 + 64) = 0xC5B9CD4C
   \<and> x_pow_mod 512 = 0xE6228B11 \<and> x_pow_mod (512 + 64) = 0x8833794C
   \<and> x_pow_mod 256 = 0x75BE46B7 \<and> x_pow_mod (256 + 64) = 0x569700E5
   \<and> x_pow_mod (256 * 4) = 0x567FDDEB \<and> x_pow_mod (256 * 4 + 64) = 0x10BD4D7C
   \<and> x_pow_mod (256 * 12) = 0x3CD4B4ED \<and> x_pow_mod (256 * 12 + 64) = 0x1D97B060
   \<and> x_pow_mod (512 * 4) = 0x88FE2237 \<and> x_pow_mod (512 * 4 + 64) = 0xCBCF3BCB
   \<and> x_pow_mod (512 * 12) = 0x413686A0 \<and> x_pow_mod (512 * 12 + 64) = 0x9DEF026A
   \<and> pclmul_single_mult_constant
       = mm_set_epi64x (ucast (x_pow_mod (128 + 64))) (ucast (x_pow_mod 128))
   \<and> pclmul_four_mult_constant
       = mm_set_epi64x (ucast (x_pow_mod (128 * 4 + 64))) (ucast (x_pow_mod (128 * 4)))
   \<and> avx2_single_mult_constant
       = mm256_set_epi64x (ucast (x_pow_mod (256 + 64))) (ucast (x_pow_mod 256))
                          (ucast (x_pow_mod (256 + 64))) (ucast (x_pow_mod 256))
   \<and> avx2_four_mult_constant
       = mm256_set_epi64x (ucast (x_pow_mod (256 * 4 + 64))) (ucast (x_pow_mod (256 * 4)))
                          (ucast (x_pow_mod (256 * 4 + 64))) (ucast (x_pow_mod (256 * 4)))
   \<and> avx2_twelve_mult_constant
       = mm256_set_epi64x (ucast (x_pow_mod (256 * 12 + 64))) (ucast (x_pow_mod (256 * 12)))
                          (ucast (x_pow_mod (256 * 12 + 64))) (ucast (x_pow_mod (256 * 12)))
   \<and> avx512_single_mult_constant
       = mm512_set_epi64 (ucast (x_pow_mod (512 + 64))) (ucast (x_pow_mod 512))
                         (ucast (x_pow_mod (512 + 64))) (ucast (x_pow_mod 512))
                         (ucast (x_pow_mod (512 + 64))) (ucast (x_pow_mod 512))
                         (ucast (x_pow_mod (512 + 64))) (ucast (x_pow_mod 512))
   \<and> avx512_four_mult_constant
       = mm512_set_epi64 (ucast (x_pow_mod (512 * 4 + 64))) (ucast (x_pow_mod (512 * 4)))
                         (ucast (x_pow_mod (512 * 4 + 64))) (ucast (x_pow_mod (512 * 4)))
                         (ucast (x_pow_mod (512 * 4 + 64))) (ucast (x_pow_mod (512 * 4)))
                         (ucast (x_pow_mod (512 * 4 + 64))) (ucast (x_pow_mod (512 * 4)))
   \<and> avx512_twelve_mult_constant
       = mm512_set_epi64 (ucast (x_pow_mod (512 * 12 + 64))) (ucast (x_pow_mod (512 * 12)))
                         (ucast (x_pow_mod (512 * 12 + 64))) (ucast (x_pow_mod (512 * 12)))
                         (ucast (x_pow_mod (512 * 12 + 64))) (ucast (x_pow_mod (512 * 12)))
                         (ucast (x_pow_mod (512 * 12 + 64))) (ucast (x_pow_mod (512 * 12)))"
  by (simp add: x_pow_mod_128 x_pow_mod_192 x_pow_mod_256 x_pow_mod_320 x_pow_mod_512
      x_pow_mod_576 x_pow_mod_1024 x_pow_mod_1088 x_pow_mod_2048 x_pow_mod_2112
      x_pow_mod_3072 x_pow_mod_3136 x_pow_mod_6144 x_pow_mod_6208
      pclmul_single_mult_constant_def pclmul_four_mult_constant_def
      avx2_single_mult_constant_def avx2_four_mult_constant_def avx2_twelve_mult_constant_def
      avx512_single_mult_constant_def avx512_four_mult_constant_def
      avx512_twelve_mult_constant_def)

section \<open>C1: the backends against each other\<close>

lemma upt16: "[0..<16] = [0, 1, 2, 3, 4, 5, 6, 7, 8, 9, 10, 11, 12, 13, 14, 15]"
  by (simp add: upt_rec)

lemma foldl_const: "foldl (\<lambda>acc i. acc) a xs = a"
  by (induction xs) simp_all

lemma clmul64_0: "clmul64 0 y = 0"
  by (simp add: clmul64_def foldl_const)

lemma mm_clmulepi64_si128_0: "mm_clmulepi64_si128 0 b imm = 0"
  by (simp add: mm_clmulepi64_si128_def clmul64_0)

lemma pclmul_shuffle_constant_val:
  "pclmul_shuffle_constant = 0x000102030405060708090A0B0C0D0E0F"
  by (simp add: pclmul_shuffle_constant_def mm_set_epi8_def vec_of_bytes_def)

lemma shuffle_0: "mm_shuffle_epi8 0 pclmul_shuffle_constant = 0"
  by (simp add: mm_shuffle_epi8_def vec_byte_def vec_of_bytes_def upt16)

lemma shuffle_1:
  "mm_shuffle_epi8 1 pclmul_shuffle_constant = 0x01000000000000000000000000000000"
  by (simp add: mm_shuffle_epi8_def vec_byte_def vec_of_bytes_def upt16
      pclmul_shuffle_constant_val)

lemma shuffle_2:
  "mm_shuffle_epi8 0x01000000000000000000000000000000 pclmul_shuffle_constant = 1"
  by (simp add: mm_shuffle_epi8_def vec_byte_def vec_of_bytes_def upt16
      pclmul_shuffle_constant_val)

lemma vec_bytes_1: "vec_bytes 16 (1 :: m128i) = [1, 0, 0, 0, 0, 0, 0, 0, 0, 0, 0, 0, 0, 0, 0, 0]"
  by (simp add: vec_bytes_def vec_byte_def upt16)

lemma store_bytes_apply:
  "store_bytes mem a bs x = (if a \<le> x \<and> x < a + length bs then bs ! (x - a) else mem x)"
  by (simp add: store_bytes_def)

lemma crc_byte_rule_0_0: "crc_byte_rule 0 0 = 0"
  by (simp add: crc_byte_rule_def crctab_eval)

lemma crc_byte_rule_0_1: "crc_byte_rule 0 1 = 0x04C11DB7"
  by (simp add: crc_byte_rule_def crctab_eval)

lemma cksum_pclmul_32:
  "cksum_pclmul stack
     (Some (fopen_bytes [0, 0, 0, 0, 0, 0, 0, 0, 0, 0, 0, 0, 0, 0, 0, 0,
                         1, 0, 0, 0, 0, 0, 0, 0, 0, 0, 0, 0, 0, 0, 0, 0]))
   = Inr (0x04C11DB7, 32)"
  by (simp add: cksum_pclmul_def cksum_pclmul_body_def ok_def cksum_pclmul_L40_L73_def Let_def
      fread_def fopen_bytes_def pclmul_BUFLEN_def pclmul_BUFLEN_WORDS_def
      cksum_pclmul_if_L74_def cksum_pclmul_L77_L91_def cksum_pclmul_L98_L98_def
      cksum_pclmul_if_L103_def cksum_pclmul_if_L755_def cksum_pclmul_L757_L761_def
      mm_loadu_si128_def load_bytes_def upt16 store_bytes_apply vec_of_bytes_def
      shuffle_0 shuffle_1 shuffle_2 mm_set_epi32_def set_epi32_def mm_xor_si128_def
      cksum_pclmul_while_L762.simps cksum_pclmul_while_L762_body_def
      cksum_pclmul_L764_L775_def mm_clmulepi64_si128_0 INT_MAX_def
      cksum_pclmul_L777_L779_def mm_storeu_si128_def vec_bytes_1
      cksum_pclmul_L783_L784_def cksum_pclmul_while_L785.simps ferror_def
      crc_byte_rule_0_0 crc_byte_rule_0_1)

lemma slice8_round_0_0_0: "slice8_round 0 0 0 = 0"
  by (simp only: slice8_round_def Let_def) (simp add: htobe32_def crctab_eval)

lemma slice8_round_0_1_0: "slice8_round 0 1 0 = 0x5BA1DCCA"
  by (simp only: slice8_round_def Let_def) (simp add: htobe32_def crctab_eval)

lemma slice8_round_5BA1DCCA_0_0: "slice8_round 0x5BA1DCCA 0 0 = 0x2FB7BF3A"
  by (simp only: slice8_round_def Let_def) (simp add: htobe32_def crctab_eval)

lemma slice8_block_32:
  "slice8_block 0 [0, 0, 0, 0, 0, 0, 0, 0, 0, 0, 0, 0, 0, 0, 0, 0,
                   1, 0, 0, 0, 0, 0, 0, 0, 0, 0, 0, 0, 0, 0, 0, 0] = 0x2FB7BF3A"
  apply (simp only: slice8_block.simps foldl.simps)
  apply (simp add: load_u32_def slice8_round_0_0_0 slice8_round_0_1_0
      slice8_round_5BA1DCCA_0_0)
  done

lemma cksum_slice8_32:
  "cksum_slice8
     (Some (fopen_bytes [0, 0, 0, 0, 0, 0, 0, 0, 0, 0, 0, 0, 0, 0, 0, 0,
                         1, 0, 0, 0, 0, 0, 0, 0, 0, 0, 0, 0, 0, 0, 0, 0]))
   = Inr (0x2FB7BF3A, 32)"
  unfolding cksum_slice8_def
  by (subst slice8_loop.simps)
     (simp add: fopen_bytes_def fread_def BUFLEN_def feof_def ferror_def Let_def slice8_block_32
        del: slice8_block.simps)

text \<open>
  C1 fails in the code. On the stream of the 32 bytes \<open>00\<close> (16 times), \<open>01\<close>, \<open>00\<close> (15 times)
  \<^verbatim>\<open>cksum_pclmul\<close> returns the CRC \<open>0x04C11DB7\<close> with the length 32, whatever its stack frame
  holds on entry, while \<^verbatim>\<open>cksum_slice8\<close> returns \<open>0x2FB7BF3A\<close> with the length 32, which is the
  CRC of the 32 bytes by the byte rule and the remainder of their polynomial times
  \<open>x\<^sup>3\<^sup>2\<close> modulo \<open>G\<close>. The last loop of \<^verbatim>\<open>cksum_pclmul\<close> starts at
  \<^verbatim>\<open>(unsigned char *) datap + (data_offset % BUFLEN_WORDS)\<close>: the cast binds first, so the
  offset counts bytes where 16-byte vectors are meant, and after one fold
  (\<^verbatim>\<open>data_offset\<close> is 1) the loop reads the bytes 1 to 16 of the buffer in the place of
  the bytes 16 to 31.
\<close>

theorem C1_pclmul_differs_from_slice8:
  "(\<forall>stack. cksum_pclmul stack
       (Some (fopen_bytes [0, 0, 0, 0, 0, 0, 0, 0, 0, 0, 0, 0, 0, 0, 0, 0,
                           1, 0, 0, 0, 0, 0, 0, 0, 0, 0, 0, 0, 0, 0, 0, 0]))
     = Inr (0x04C11DB7, 32))
   \<and> cksum_slice8
       (Some (fopen_bytes [0, 0, 0, 0, 0, 0, 0, 0, 0, 0, 0, 0, 0, 0, 0, 0,
                           1, 0, 0, 0, 0, 0, 0, 0, 0, 0, 0, 0, 0, 0, 0, 0]))
     = Inr (0x2FB7BF3A, 32)
   \<and> crc_bytes 0 [0, 0, 0, 0, 0, 0, 0, 0, 0, 0, 0, 0, 0, 0, 0, 0,
                   1, 0, 0, 0, 0, 0, 0, 0, 0, 0, 0, 0, 0, 0, 0, 0] = 0x2FB7BF3A
   \<and> poly_crc [0, 0, 0, 0, 0, 0, 0, 0, 0, 0, 0, 0, 0, 0, 0, 0,
                 1, 0, 0, 0, 0, 0, 0, 0, 0, 0, 0, 0, 0, 0, 0, 0] = 0x2FB7BF3A"
proof -
  let ?bs = "[0, 0, 0, 0, 0, 0, 0, 0, 0, 0, 0, 0, 0, 0, 0, 0,
              1, 0, 0, 0, 0, 0, 0, 0, 0, 0, 0, 0, 0, 0, 0, 0] :: u8 list"
  have "ucast (slice8_block 0 ?bs) = crc_bytes (ucast (0 :: u64)) ?bs"
    by (rule slice8_block_crc_bytes)
  then have c: "crc_bytes 0 ?bs = 0x2FB7BF3A"
    by (simp only: slice8_block_32) simp
  show ?thesis
    by (simp only: cksum_pclmul_32 cksum_slice8_32 c poly_crc_is_crc_bytes) simp
qed

end
